theory Spec2Isabelle
  imports Main "HOL-Library.Word"
begin

unbundle bit_operations_syntax

section \<open>Constants and plain data of main.cpp\<close>

text \<open>
  The program is the single translation unit
  \<^verbatim>\<open>sources/01_VulkanTutorial/01_helloTriangle/main.cpp\<close>: the class
  \<^verbatim>\<open>HelloTriangleApplication\<close>. Vulkan and GLFW are external: every answer
  of the driver or of the window system that the program reads is an explicit input of the
  function that reads it.
\<close>

type_synonym uint32_t = "32 word"

text \<open>A C \<^verbatim>\<open>int\<close>: 32 bits, read as two's complement with \<open>sint\<close>.\<close>

type_synonym c_int = "32 word"

text \<open>Object handles; \<open>0\<close> is \<^verbatim>\<open>VK_NULL_HANDLE\<close> / \<^verbatim>\<open>nullptr\<close>.\<close>

type_synonym handle = nat

definition MAX_FRAMES_IN_FLIGHT :: nat where
  "MAX_FRAMES_IN_FLIGHT = 2"

definition g_deviceExtensions :: "string list" where
  "g_deviceExtensions = [''VK_KHR_swapchain'']"

definition VK_QUEUE_GRAPHICS_BIT :: uint32_t where
  "VK_QUEUE_GRAPHICS_BIT = 1"

definition UINT32_MAX :: uint32_t where
  "UINT32_MAX = - 1"

datatype VkResult =
    VK_SUCCESS
  | VK_NOT_READY
  | VK_TIMEOUT
  | VK_SUBOPTIMAL_KHR
  | VK_ERROR_OUT_OF_DATE_KHR
  | VK_ERROR_SURFACE_LOST_KHR
  | VK_ERROR_DEVICE_LOST
  | VK_ERROR_OUT_OF_HOST_MEMORY
  | VK_ERROR_OUT_OF_DEVICE_MEMORY
  | VK_ERROR_INITIALIZATION_FAILED

datatype VkPresentModeKHR =
    VK_PRESENT_MODE_IMMEDIATE_KHR
  | VK_PRESENT_MODE_MAILBOX_KHR
  | VK_PRESENT_MODE_FIFO_KHR
  | VK_PRESENT_MODE_FIFO_RELAXED_KHR
  | VK_PRESENT_MODE_SHARED_DEMAND_REFRESH_KHR
  | VK_PRESENT_MODE_SHARED_CONTINUOUS_REFRESH_KHR

datatype VkFormat =
    VK_FORMAT_UNDEFINED
  | VK_FORMAT_R8G8B8A8_UNORM
  | VK_FORMAT_R8G8B8A8_SRGB
  | VK_FORMAT_B8G8R8A8_UNORM
  | VK_FORMAT_B8G8R8A8_SRGB
  | VK_FORMAT_A2B10G10R10_UNORM_PACK32

datatype VkColorSpaceKHR =
    VK_COLOR_SPACE_SRGB_NONLINEAR_KHR
  | VK_COLOR_SPACE_DISPLAY_P3_NONLINEAR_EXT
  | VK_COLOR_SPACE_EXTENDED_SRGB_LINEAR_EXT
  | VK_COLOR_SPACE_HDR10_ST2084_EXT

record VkSurfaceFormatKHR =
  format :: VkFormat
  colorSpace :: VkColorSpaceKHR

record VkExtent2D =
  width :: uint32_t
  height :: uint32_t

record VkSurfaceCapabilitiesKHR =
  minImageCount :: uint32_t
  maxImageCount :: uint32_t
  currentExtent :: VkExtent2D
  minImageExtent :: VkExtent2D
  maxImageExtent :: VkExtent2D
  currentTransform :: uint32_t

text \<open>\<^verbatim>\<open>struct SwapChainSupportDetails\<close> (the field name \<open>foramts\<close> is the source's).\<close>

record SwapChainSupportDetails =
  capabilities :: VkSurfaceCapabilitiesKHR
  foramts :: "VkSurfaceFormatKHR list"
  presentModes :: "VkPresentModeKHR list"

text \<open>\<^verbatim>\<open>struct QueueFamilyIndices\<close>: two \<^verbatim>\<open>std::optional<uint32_t>\<close>.\<close>

record QueueFamilyIndices =
  graphicsFamily :: "uint32_t option"
  presentFamily :: "uint32_t option"

definition IsComplete :: "QueueFamilyIndices \<Rightarrow> bool" where
  "IsComplete indices = (graphicsFamily indices \<noteq> None \<and> presentFamily indices \<noteq> None)"

text \<open>
  What the driver reports about one queue family: the flags of
  \<^verbatim>\<open>vkGetPhysicalDeviceQueueFamilyProperties\<close> and the answer of
  \<^verbatim>\<open>vkGetPhysicalDeviceSurfaceSupportKHR\<close> for the application's surface.
\<close>

record queue_family =
  queueFlags :: uint32_t
  presentSupport :: bool

text \<open>
  A physical device, as the answers the driver gives about it: its queue families, the names
  of its device extensions, and the surface capabilities, formats and present modes that
  \<^verbatim>\<open>QuerySwapChainSupport\<close> reads for it.
\<close>

record physical_device =
  queueFamilies :: "queue_family list"
  availableExtensions :: "string list"
  surfaceCapabilities :: VkSurfaceCapabilitiesKHR
  surfaceFormats :: "VkSurfaceFormatKHR list"
  surfacePresentModes :: "VkPresentModeKHR list"

section \<open>Capability selection\<close>

text \<open>
  The loop of \<^verbatim>\<open>FindQueueFamilies\<close>: family \<open>i\<close> is recorded as the graphics
  family when its flags have \<^verbatim>\<open>VK_QUEUE_GRAPHICS_BIT\<close>, as the present family when
  the surface is supported, and the loop breaks as soon as both are known.
\<close>

fun FindQueueFamilies_loop ::
  "queue_family list \<Rightarrow> uint32_t \<Rightarrow> QueueFamilyIndices \<Rightarrow> QueueFamilyIndices" where
  "FindQueueFamilies_loop [] i indices = indices"
| "FindQueueFamilies_loop (q # qs) i indices =
     (let indices1 = (if queueFlags q AND VK_QUEUE_GRAPHICS_BIT \<noteq> 0
                      then indices\<lparr>graphicsFamily := Some i\<rparr> else indices);
          indices2 = (if presentSupport q
                      then indices1\<lparr>presentFamily := Some i\<rparr> else indices1)
      in if IsComplete indices2 then indices2
         else FindQueueFamilies_loop qs (i + 1) indices2)"

definition FindQueueFamilies :: "physical_device \<Rightarrow> QueueFamilyIndices" where
  "FindQueueFamilies device =
     FindQueueFamilies_loop (queueFamilies device) 0
       \<lparr>graphicsFamily = None, presentFamily = None\<rparr>"

text \<open>
  \<^verbatim>\<open>CheckDeviceExtensionSupported\<close>: a \<^verbatim>\<open>std::set\<close> of the required names,
  from which every available name is erased; supported when nothing is left.
\<close>

definition CheckDeviceExtensionSupported :: "physical_device \<Rightarrow> bool" where
  "CheckDeviceExtensionSupported device =
     (fold (\<lambda>extension requiredExtensions. requiredExtensions - {extension})
        (availableExtensions device) (set g_deviceExtensions) = {})"

definition QuerySwapChainSupport :: "physical_device \<Rightarrow> SwapChainSupportDetails" where
  "QuerySwapChainSupport device =
     \<lparr>capabilities = surfaceCapabilities device,
      foramts = surfaceFormats device,
      presentModes = surfacePresentModes device\<rparr>"

definition IsDeviceSuitable :: "physical_device \<Rightarrow> bool" where
  "IsDeviceSuitable device =
     (let indices = FindQueueFamilies device;
          extensionsSupported = CheckDeviceExtensionSupported device;
          swapChainAdequate =
            (if extensionsSupported
             then (let swapChainSupport = QuerySwapChainSupport device
                   in foramts swapChainSupport \<noteq> [] \<and> presentModes swapChainSupport \<noteq> [])
             else False)
      in IsComplete indices \<and> extensionsSupported \<and> swapChainAdequate)"

section \<open>Swapchain parameters\<close>

text \<open>
  \<^verbatim>\<open>ChooseSwapSurfaceFormat\<close>. \<^verbatim>\<open>front()\<close> of an empty vector is undefined
  behaviour: the result is \<open>None\<close> there.
\<close>

fun ChooseSwapSurfaceFormat_loop :: "VkSurfaceFormatKHR list \<Rightarrow> VkSurfaceFormatKHR option" where
  "ChooseSwapSurfaceFormat_loop [] = None"
| "ChooseSwapSurfaceFormat_loop (availableFormat # rest) =
     (if VK_FORMAT_B8G8R8A8_UNORM = format availableFormat
         \<and> VK_COLOR_SPACE_SRGB_NONLINEAR_KHR = colorSpace availableFormat
      then Some availableFormat
      else ChooseSwapSurfaceFormat_loop rest)"

definition ChooseSwapSurfaceFormat :: "VkSurfaceFormatKHR list \<Rightarrow> VkSurfaceFormatKHR option" where
  "ChooseSwapSurfaceFormat availableFormats =
     (case availableFormats of
        [] \<Rightarrow> None
      | front # _ \<Rightarrow>
          if 1 = length availableFormats \<and> format front = VK_FORMAT_UNDEFINED
          then Some \<lparr>format = VK_FORMAT_B8G8R8A8_UNORM,
                     colorSpace = VK_COLOR_SPACE_SRGB_NONLINEAR_KHR\<rparr>
          else (case ChooseSwapSurfaceFormat_loop availableFormats of
                  Some availableFormat \<Rightarrow> Some availableFormat
                | None \<Rightarrow> Some front))"

text \<open>
  \<^verbatim>\<open>ChooseSwapPresentMode\<close>: the loop returns at the first MAILBOX entry, records an
  IMMEDIATE entry in \<open>bestMode\<close>, and \<open>bestMode\<close> starts as FIFO.
\<close>

fun ChooseSwapPresentMode_loop ::
  "VkPresentModeKHR list \<Rightarrow> VkPresentModeKHR \<Rightarrow> VkPresentModeKHR" where
  "ChooseSwapPresentMode_loop [] bestMode = bestMode"
| "ChooseSwapPresentMode_loop (availablePresentMode # rest) bestMode =
     (if VK_PRESENT_MODE_MAILBOX_KHR = availablePresentMode then availablePresentMode
      else if VK_PRESENT_MODE_IMMEDIATE_KHR = availablePresentMode
           then ChooseSwapPresentMode_loop rest availablePresentMode
           else ChooseSwapPresentMode_loop rest bestMode)"

definition ChooseSwapPresentMode :: "VkPresentModeKHR list \<Rightarrow> VkPresentModeKHR" where
  "ChooseSwapPresentMode availablePresentModes =
     ChooseSwapPresentMode_loop availablePresentModes VK_PRESENT_MODE_FIFO_KHR"

text \<open>
  \<^verbatim>\<open>std::clamp(v, lo, hi)\<close> on \<^verbatim>\<open>uint32_t\<close>: \<open>lo\<close> when \<open>v < lo\<close>, \<open>hi\<close> when
  \<open>hi < v\<close>, else \<open>v\<close>. The standard leaves the call undefined when \<open>hi < lo\<close>:
  \<open>None\<close>.
\<close>

definition std_clamp :: "uint32_t \<Rightarrow> uint32_t \<Rightarrow> uint32_t \<Rightarrow> uint32_t option" where
  "std_clamp v lo hi =
     (if hi < lo then None
      else if v < lo then Some lo
      else if hi < v then Some hi
      else Some v)"

text \<open>
  \<^verbatim>\<open>ChooseSwapExtent\<close>. The second argument is what \<^verbatim>\<open>glfwGetFramebufferSize\<close>
  writes to \<open>width\<close> and \<open>height\<close>; the \<^verbatim>\<open>static_cast<uint32_t>\<close> keeps the bits.
\<close>

definition ChooseSwapExtent :: "VkSurfaceCapabilitiesKHR \<Rightarrow> c_int \<times> c_int \<Rightarrow> VkExtent2D option" where
  "ChooseSwapExtent caps framebufferSize =
     (if UINT32_MAX \<noteq> width (currentExtent caps) then Some (currentExtent caps)
      else
        (let actualExtent = \<lparr>width = fst framebufferSize, height = snd framebufferSize\<rparr>
         in case std_clamp (width actualExtent) (width (minImageExtent caps))
                   (width (maxImageExtent caps)) of
              None \<Rightarrow> None
            | Some w \<Rightarrow>
                (case std_clamp (height actualExtent) (height (minImageExtent caps))
                        (height (maxImageExtent caps)) of
                   None \<Rightarrow> None
                 | Some h \<Rightarrow> Some (actualExtent\<lparr>width := w, height := h\<rparr>))))"

text \<open>
  The image count that \<^verbatim>\<open>CreateSwapChain\<close> requests
  (\<^verbatim>\<open>createInfo.minImageCount\<close>), in \<^verbatim>\<open>uint32_t\<close> arithmetic.
\<close>

definition CreateSwapChain_imageCount :: "VkSurfaceCapabilitiesKHR \<Rightarrow> uint32_t" where
  "CreateSwapChain_imageCount caps =
     (let imageCount = minImageCount caps + 1
      in if maxImageCount caps > 0 \<and> imageCount > maxImageCount caps
         then maxImageCount caps else imageCount)"

section \<open>The application object and the device it drives\<close>

text \<open>
  The calls the program issues to Vulkan and GLFW, in the order it issues them. Slots are
  indices into the per-frame vectors; a command-buffer, view, image, framebuffer or chain
  is named by its handle.
\<close>

datatype VkSharingMode = VK_SHARING_MODE_EXCLUSIVE | VK_SHARING_MODE_CONCURRENT

record VkSwapchainCreateInfoKHR =
  ci_minImageCount :: uint32_t
  ci_imageFormat :: VkFormat
  ci_imageColorSpace :: VkColorSpaceKHR
  ci_imageExtent :: VkExtent2D
  ci_imageSharingMode :: VkSharingMode
  ci_queueFamilyIndices :: "uint32_t list"
  ci_preTransform :: uint32_t
  ci_presentMode :: VkPresentModeKHR
  ci_oldSwapchain :: handle

datatype api_call =
    glfwGetFramebufferSize
  | glfwWaitEvents
  | vkCreateInstance
  | vkCreateDebugUtilsMessengerEXT
  | glfwCreateWindowSurface
  | vkCreateDevice
  | vkCreateSwapchainKHR VkSwapchainCreateInfoKHR
  | vkCreateImageView handle VkFormat
  | vkCreateRenderPass
  | vkCreateShaderModule
  | vkCreatePipelineLayout
  | vkCreateGraphicsPipelines
  | vkDestroyShaderModule
  | vkCreateFramebuffer handle handle VkExtent2D
  | vkCreateCommandPool
  | vkAllocateCommandBuffers handle nat
  | vkCreateSemaphore
  | vkCreateFence
  | vkWaitForFences handle
  | vkAcquireNextImageKHR handle handle
  | vkResetFences handle
  | vkResetCommandBuffer handle
  | vkBeginCommandBuffer handle
  | vkCmdBeginRenderPass handle handle handle VkExtent2D
  | vkCmdBindPipeline handle handle
  | vkCmdSetViewport handle VkExtent2D
  | vkCmdSetScissor handle VkExtent2D
  | vkCmdDraw handle nat nat nat nat
  | vkCmdEndRenderPass handle
  | vkEndCommandBuffer handle
  | vkQueueSubmit handle handle handle handle
  | vkQueuePresentKHR handle handle nat
  | vkDeviceWaitIdle
  | vkDestroyFramebuffer handle
  | vkDestroyImageView handle
  | vkDestroySwapchainKHR handle

text \<open>
  A batch queued by \<^verbatim>\<open>vkQueueSubmit\<close> that the GPU has not finished: its command
  buffer and the fence it signals when it finishes.
\<close>

record submission =
  sub_commandBuffer :: handle
  sub_fence :: handle

text \<open>
  The members of \<^verbatim>\<open>HelloTriangleApplication\<close> that the swapchain and the frame loop
  read or write, followed by the state of the device: which fences are signaled, which
  submissions are pending on the GPU, the calls issued so far, and the last handle the
  driver handed out. The members \<open>m_window\<close>, \<open>m_instance\<close>, \<open>m_debugMessenger\<close>,
  \<open>m_device\<close>, \<open>m_surface\<close> and the two queues are written once during initialisation
  and afterwards only passed back to the driver; they are left out.
\<close>

record app =
  m_physicalDevice :: "physical_device option"
  m_swapChain :: handle
  m_swapChainImages :: "handle list"
  m_swapChainImageFormat :: VkFormat
  m_swapChainExtent :: VkExtent2D
  m_swapChainImageViews :: "handle list"
  m_renderPass :: handle
  m_pipelineLayout :: handle
  m_graphicsPipeline :: handle
  m_swapChainFramebuffers :: "handle list"
  m_commandPool :: handle
  m_commandBuffers :: "handle list"
  m_imageAvailableSemaphores :: "handle list"
  m_renderFinishedSemaphores :: "handle list"
  m_inFlightFences :: "handle list"
  m_currentFrame :: nat
  m_framebufferResized :: bool
  signaled_fences :: "handle set"
  gpu_pending :: "submission list"
  calls :: "api_call list"
  next_handle :: handle

text \<open>The member initialisers at the end of the class.\<close>

definition initial_app :: app where
  "initial_app =
     \<lparr>m_physicalDevice = None, m_swapChain = 0, m_swapChainImages = [],
      m_swapChainImageFormat = VK_FORMAT_UNDEFINED,
      m_swapChainExtent = \<lparr>width = 0, height = 0\<rparr>,
      m_swapChainImageViews = [], m_renderPass = 0, m_pipelineLayout = 0,
      m_graphicsPipeline = 0, m_swapChainFramebuffers = [], m_commandPool = 0,
      m_commandBuffers = [], m_imageAvailableSemaphores = [],
      m_renderFinishedSemaphores = [], m_inFlightFences = [], m_currentFrame = 0,
      m_framebufferResized = False,
      signaled_fences = {}, gpu_pending = [], calls = [], next_handle = 0\<rparr>"

text \<open>
  How a member function ends: it returns, it throws (the message of the
  \<^verbatim>\<open>std::runtime_error\<close>, or the name of the library exception), it blocks forever in
  a wait, or it runs into undefined behaviour. Each carries the state at that point.
\<close>

datatype 'a outcome = Returned 'a | Thrown string 'a | Blocked 'a | Undefined 'a

fun state_of :: "'a outcome \<Rightarrow> 'a" where
  "state_of (Returned s) = s"
| "state_of (Thrown msg s) = s"
| "state_of (Blocked s) = s"
| "state_of (Undefined s) = s"

text \<open>Sequencing: the next statement runs only when the previous call returned.\<close>

definition and_then :: "'a outcome \<Rightarrow> ('a \<Rightarrow> 'a outcome) \<Rightarrow> 'a outcome" where
  "and_then r f = (case r of Returned s \<Rightarrow> f s | Thrown msg s \<Rightarrow> Thrown msg s
                   | Blocked s \<Rightarrow> Blocked s | Undefined s \<Rightarrow> Undefined s)"

definition issue :: "api_call \<Rightarrow> app \<Rightarrow> app" where
  "issue c s = s\<lparr>calls := calls s @ [c]\<rparr>"

text \<open>The driver hands out handles it has not handed out before.\<close>

definition fresh_handles :: "nat \<Rightarrow> app \<Rightarrow> handle list" where
  "fresh_handles n s = [Suc (next_handle s) ..< Suc (next_handle s) + n]"

definition take_handles :: "nat \<Rightarrow> app \<Rightarrow> app" where
  "take_handles n s = s\<lparr>next_handle := next_handle s + n\<rparr>"

text \<open>\<^verbatim>\<open>std::vector::at\<close>: \<open>None\<close> stands for the \<^verbatim>\<open>std::out_of_range\<close> it throws.\<close>

definition vector_at :: "'a list \<Rightarrow> nat \<Rightarrow> 'a option" where
  "vector_at v i = (if i < length v then Some (v ! i) else None)"

text \<open>\<^verbatim>\<open>std::vector::resize\<close> on a vector of handles: new elements are null.\<close>

definition vector_resize :: "nat \<Rightarrow> handle list \<Rightarrow> handle list" where
  "vector_resize n v = take n v @ replicate (n - length v) 0"

section \<open>Swapchain creation, teardown and recreation\<close>

text \<open>
  What the driver and the window answer while the swapchain and its views and framebuffers
  are built: the value of \<^verbatim>\<open>QuerySwapChainSupport(m_physicalDevice)\<close> at that moment,
  the framebuffer size \<^verbatim>\<open>ChooseSwapExtent\<close> reads, the result of
  \<^verbatim>\<open>vkCreateSwapchainKHR\<close>, the number of images
  \<^verbatim>\<open>vkGetSwapchainImagesKHR\<close> reports, and the results of the \<open>i\<close>-th
  \<^verbatim>\<open>vkCreateImageView\<close> and \<^verbatim>\<open>vkCreateFramebuffer\<close>.
\<close>

record create_env =
  surface_support :: SwapChainSupportDetails
  framebufferSize :: "c_int \<times> c_int"
  createSwapchain_result :: VkResult
  swapchain_imageCount :: nat
  createImageView_result :: "nat \<Rightarrow> VkResult"
  createFramebuffer_result :: "nat \<Rightarrow> VkResult"

definition CreateSwapChain :: "create_env \<Rightarrow> app \<Rightarrow> app outcome" where
  "CreateSwapChain env s =
     (let swapChainSupport = surface_support env in
      case ChooseSwapSurfaceFormat (foramts swapChainSupport) of
        None \<Rightarrow> Undefined s
      | Some surfaceFormat \<Rightarrow>
     (let presentMode = ChooseSwapPresentMode (presentModes swapChainSupport);
          s0 = (if UINT32_MAX \<noteq> width (currentExtent (capabilities swapChainSupport))
                then s else issue glfwGetFramebufferSize s) in
      case ChooseSwapExtent (capabilities swapChainSupport) (framebufferSize env) of
        None \<Rightarrow> Undefined s0
      | Some extent \<Rightarrow>
     (let imageCount = CreateSwapChain_imageCount (capabilities swapChainSupport) in
      case m_physicalDevice s0 of
        None \<Rightarrow> Undefined s0
      | Some device \<Rightarrow>
     (let indices = FindQueueFamilies device in
      case graphicsFamily indices of
        None \<Rightarrow> Thrown ''bad_optional_access'' s0
      | Some g \<Rightarrow>
     (case presentFamily indices of
        None \<Rightarrow> Thrown ''bad_optional_access'' s0
      | Some p \<Rightarrow>
     (let createInfo =
            \<lparr>ci_minImageCount = imageCount,
             ci_imageFormat = format surfaceFormat,
             ci_imageColorSpace = colorSpace surfaceFormat,
             ci_imageExtent = extent,
             ci_imageSharingMode =
               (if graphicsFamily indices \<noteq> presentFamily indices
                then VK_SHARING_MODE_CONCURRENT else VK_SHARING_MODE_EXCLUSIVE),
             ci_queueFamilyIndices =
               (if graphicsFamily indices \<noteq> presentFamily indices then [g, p] else []),
             ci_preTransform = currentTransform (capabilities swapChainSupport),
             ci_presentMode = presentMode,
             ci_oldSwapchain = 0\<rparr>;
          s1 = issue (vkCreateSwapchainKHR createInfo) s0
      in if VK_SUCCESS \<noteq> createSwapchain_result env
         then Thrown ''failed to create swap chain'' s1
         else
           (let s2 = take_handles 1 (s1\<lparr>m_swapChain := hd (fresh_handles 1 s1)\<rparr>);
                s3 = take_handles (swapchain_imageCount env)
                       (s2\<lparr>m_swapChainImages := fresh_handles (swapchain_imageCount env) s2\<rparr>)
            in Returned (s3\<lparr>m_swapChainImageFormat := format surfaceFormat,
                             m_swapChainExtent := extent\<rparr>))))))))"

text \<open>
  \<^verbatim>\<open>CreateImageViews\<close>: the vector is resized to the number of images, then view
  \<open>i\<close> is created for image \<open>i\<close>; the first failing creation throws.
\<close>

fun CreateImageViews_loop :: "create_env \<Rightarrow> handle list \<Rightarrow> nat \<Rightarrow> app \<Rightarrow> app outcome" where
  "CreateImageViews_loop env [] i s = Returned s"
| "CreateImageViews_loop env (swapChainImage # images) i s =
     (let s1 = issue (vkCreateImageView swapChainImage (m_swapChainImageFormat s)) s
      in if VK_SUCCESS \<noteq> createImageView_result env i
         then Thrown ''failed to create image views'' s1
         else CreateImageViews_loop env images (i + 1)
                (take_handles 1
                   (s1\<lparr>m_swapChainImageViews :=
                         (m_swapChainImageViews s1)[i := hd (fresh_handles 1 s1)]\<rparr>)))"

definition CreateImageViews :: "create_env \<Rightarrow> app \<Rightarrow> app outcome" where
  "CreateImageViews env s =
     CreateImageViews_loop env (m_swapChainImages s) 0
       (s\<lparr>m_swapChainImageViews :=
            vector_resize (length (m_swapChainImages s)) (m_swapChainImageViews s)\<rparr>)"

text \<open>\<^verbatim>\<open>CreateFramebuffers\<close>, in the same shape, one framebuffer per image view.\<close>

fun CreateFramebuffers_loop :: "create_env \<Rightarrow> handle list \<Rightarrow> nat \<Rightarrow> app \<Rightarrow> app outcome" where
  "CreateFramebuffers_loop env [] i s = Returned s"
| "CreateFramebuffers_loop env (imageView # imageViews) i s =
     (let s1 = issue (vkCreateFramebuffer (m_renderPass s) imageView (m_swapChainExtent s)) s
      in if VK_SUCCESS \<noteq> createFramebuffer_result env i
         then Thrown ''failed to create framebuffer'' s1
         else CreateFramebuffers_loop env imageViews (i + 1)
                (take_handles 1
                   (s1\<lparr>m_swapChainFramebuffers :=
                         (m_swapChainFramebuffers s1)[i := hd (fresh_handles 1 s1)]\<rparr>)))"

definition CreateFramebuffers :: "create_env \<Rightarrow> app \<Rightarrow> app outcome" where
  "CreateFramebuffers env s =
     CreateFramebuffers_loop env (m_swapChainImageViews s) 0
       (s\<lparr>m_swapChainFramebuffers :=
            vector_resize (length (m_swapChainImageViews s)) (m_swapChainFramebuffers s)\<rparr>)"

text \<open>
  \<^verbatim>\<open>CleanupSwapChain\<close>: every framebuffer, then every image view, then the chain.
  The vectors keep the destroyed handles.
\<close>

definition CleanupSwapChain :: "app \<Rightarrow> app" where
  "CleanupSwapChain s =
     (let s1 = fold (\<lambda>framebuffer. issue (vkDestroyFramebuffer framebuffer))
                 (m_swapChainFramebuffers s) s;
          s2 = fold (\<lambda>imageView. issue (vkDestroyImageView imageView))
                 (m_swapChainImageViews s1) s1
      in issue (vkDestroySwapchainKHR (m_swapChain s2)) s2)"

text \<open>
  \<^verbatim>\<open>vkDeviceWaitIdle\<close> returns when the GPU has finished every pending submission:
  their fences are signaled and nothing is pending.
\<close>

definition device_wait_idle :: "app \<Rightarrow> app" where
  "device_wait_idle s =
     issue vkDeviceWaitIdle
       (s\<lparr>signaled_fences := signaled_fences s \<union> set (map sub_fence (gpu_pending s)),
          gpu_pending := []\<rparr>)"

text \<open>
  The loop at the head of \<^verbatim>\<open>RecreateSwapChain\<close>. \<open>sizes n\<close> is the \<open>n\<close>-th answer
  of \<^verbatim>\<open>glfwGetFramebufferSize\<close>; the loop reads answers until one has both components
  non-zero and yields its index. While the window stays minimised it does not return.
\<close>

partial_function (option) RecreateSwapChain_wait ::
  "(nat \<Rightarrow> c_int \<times> c_int) \<Rightarrow> nat \<Rightarrow> nat option" where
  "RecreateSwapChain_wait sizes n =
     (if 0 = fst (sizes n) \<or> 0 = snd (sizes n)
      then RecreateSwapChain_wait sizes (Suc n)
      else Some n)"

declare RecreateSwapChain_wait.simps [code]

record recreate_env =
  polledSizes :: "nat \<Rightarrow> c_int \<times> c_int"
  rebuild :: create_env

definition RecreateSwapChain :: "recreate_env \<Rightarrow> app \<Rightarrow> app outcome" where
  "RecreateSwapChain env s =
     (let s0 = issue glfwGetFramebufferSize s in
      case RecreateSwapChain_wait (polledSizes env) 0 of
        None \<Rightarrow> Blocked s0
      | Some n \<Rightarrow>
          (let s1 = fold issue (concat (replicate n [glfwGetFramebufferSize, glfwWaitEvents])) s0;
               s2 = device_wait_idle s1;
               s3 = CleanupSwapChain s2
           in and_then (CreateSwapChain (rebuild env) s3) (\<lambda>s4.
              and_then (CreateImageViews (rebuild env) s4) (\<lambda>s5.
              CreateFramebuffers (rebuild env) s5))))"

section \<open>The frame loop\<close>

text \<open>
  What the driver answers during one \<^verbatim>\<open>DrawFrame\<close>: the result and image index of
  \<^verbatim>\<open>vkAcquireNextImageKHR\<close>, the results of beginning and ending the recording, of
  \<^verbatim>\<open>vkQueueSubmit\<close> and of \<^verbatim>\<open>vkQueuePresentKHR\<close>, and the answers read by a
  swapchain recreation, should this iteration run one.
\<close>

record frame_env =
  acquire_result :: VkResult
  acquire_imageIndex :: nat
  beginCommandBuffer_result :: VkResult
  endCommandBuffer_result :: VkResult
  queueSubmit_result :: VkResult
  queuePresent_result :: VkResult
  recreation :: recreate_env

text \<open>
  \<^verbatim>\<open>vkWaitForFences\<close> on one fence with the timeout \<^verbatim>\<open>UINT64_MAX\<close>: it returns at
  once when the fence is signaled; when a pending submission signals the fence, it returns
  once the GPU has finished that submission; a fence that is unsignaled with no submission
  behind it is never signaled, and the call does not return.
\<close>

definition wait_for_fence :: "handle \<Rightarrow> app \<Rightarrow> app outcome" where
  "wait_for_fence fence s =
     (let s1 = issue (vkWaitForFences fence) s
      in if fence \<in> signaled_fences s1 then Returned s1
         else if fence \<in> set (map sub_fence (gpu_pending s1))
         then Returned (s1\<lparr>signaled_fences := insert fence (signaled_fences s1),
                           gpu_pending := filter (\<lambda>b. sub_fence b \<noteq> fence) (gpu_pending s1)\<rparr>)
         else Blocked s1)"

definition RecordCommandBuffer :: "frame_env \<Rightarrow> handle \<Rightarrow> handle \<Rightarrow> app \<Rightarrow> app outcome" where
  "RecordCommandBuffer env commandBuffer framebuffer s =
     (let s1 = issue (vkBeginCommandBuffer commandBuffer) s
      in if VK_SUCCESS \<noteq> beginCommandBuffer_result env
         then Thrown ''failed to begin recording command buffer'' s1
         else
           (let s2 = fold issue
                       [vkCmdBeginRenderPass commandBuffer (m_renderPass s) framebuffer
                          (m_swapChainExtent s),
                        vkCmdBindPipeline commandBuffer (m_graphicsPipeline s),
                        vkCmdSetViewport commandBuffer (m_swapChainExtent s),
                        vkCmdSetScissor commandBuffer (m_swapChainExtent s),
                        vkCmdDraw commandBuffer 3 1 0 0,
                        vkCmdEndRenderPass commandBuffer,
                        vkEndCommandBuffer commandBuffer] s1
            in if VK_SUCCESS \<noteq> endCommandBuffer_result env
               then Thrown ''failed to record command buffer'' s2
               else Returned s2))"

text \<open>
  \<^verbatim>\<open>DrawFrame\<close> after a usable acquisition, in three parts. First the fence of the
  slot is reset, and the command buffer of the acquired image is reset and recorded
  against the framebuffer of that image; both are read with \<^verbatim>\<open>at\<close>.
\<close>

definition DrawFrame_record :: "frame_env \<Rightarrow> handle \<Rightarrow> app \<Rightarrow> app outcome" where
  "DrawFrame_record env fence s =
     (let imageIndex = acquire_imageIndex env;
          s1 = issue (vkResetFences fence)
                 (s\<lparr>signaled_fences := signaled_fences s - {fence}\<rparr>)
      in case vector_at (m_commandBuffers s1) imageIndex of
           None \<Rightarrow> Thrown ''out_of_range'' s1
         | Some commandBuffer \<Rightarrow>
             (let s2 = issue (vkResetCommandBuffer commandBuffer) s1
              in case vector_at (m_swapChainFramebuffers s2) imageIndex of
                   None \<Rightarrow> Thrown ''out_of_range'' s2
                 | Some framebuffer \<Rightarrow> RecordCommandBuffer env commandBuffer framebuffer s2))"

text \<open>
  Then the command buffer \<^verbatim>\<open>m_commandBuffers[imageIndex]\<close> is submitted: it waits on
  the slot's image-available semaphore and signals the slot's render-finished semaphore
  and the slot's fence. A submission that succeeds is pending on the GPU.
\<close>

definition DrawFrame_submit :: "frame_env \<Rightarrow> handle \<Rightarrow> handle \<Rightarrow> app \<Rightarrow> app outcome" where
  "DrawFrame_submit env fence imageAvailable s =
     (case vector_at (m_renderFinishedSemaphores s) (m_currentFrame s) of
        None \<Rightarrow> Thrown ''out_of_range'' s
      | Some renderFinished \<Rightarrow>
          (let commandBuffer = m_commandBuffers s ! acquire_imageIndex env;
               s1 = issue (vkQueueSubmit commandBuffer imageAvailable renderFinished fence) s
           in if VK_SUCCESS \<noteq> queueSubmit_result env
              then Thrown ''failed to submit draw command buffer'' s1
              else Returned
                     (s1\<lparr>gpu_pending := gpu_pending s1 @
                           [\<lparr>sub_commandBuffer = commandBuffer, sub_fence = fence\<rparr>]\<rparr>)))"

text \<open>
  Last the image is presented. The local \<open>result\<close> now holds the result of
  \<^verbatim>\<open>vkQueuePresentKHR\<close>: the swapchain is recreated when that result is out-of-date or
  suboptimal or \<open>m_framebufferResized\<close> is set, any other failure throws, and the frame
  index advances.
\<close>

definition DrawFrame_present :: "frame_env \<Rightarrow> app \<Rightarrow> app outcome" where
  "DrawFrame_present env s =
     (case vector_at (m_renderFinishedSemaphores s) (m_currentFrame s) of
        None \<Rightarrow> Thrown ''out_of_range'' s
      | Some renderFinished \<Rightarrow>
          (let s1 = issue (vkQueuePresentKHR renderFinished (m_swapChain s)
                             (acquire_imageIndex env)) s;
               result = queuePresent_result env
           in if VK_ERROR_OUT_OF_DATE_KHR = result \<or> VK_SUBOPTIMAL_KHR = result
                 \<or> m_framebufferResized s1
              then and_then
                     (RecreateSwapChain (recreation env) (s1\<lparr>m_framebufferResized := False\<rparr>))
                     (\<lambda>s2. Returned
                        (s2\<lparr>m_currentFrame :=
                             (m_currentFrame s2 + 1) mod MAX_FRAMES_IN_FLIGHT\<rparr>))
              else if VK_SUCCESS \<noteq> result
              then Thrown ''failed to presend swap chain image'' s1
              else Returned
                     (s1\<lparr>m_currentFrame :=
                          (m_currentFrame s1 + 1) mod MAX_FRAMES_IN_FLIGHT\<rparr>)))"

text \<open>
  \<^verbatim>\<open>DrawFrame\<close>: the wait on the fence of slot \<open>m_currentFrame\<close>, the acquisition, and
  the three ways on: recreation and return on \<^verbatim>\<open>VK_ERROR_OUT_OF_DATE_KHR\<close>, a throw on
  any result other than success and suboptimal, and the three parts above otherwise.
\<close>

definition DrawFrame :: "frame_env \<Rightarrow> app \<Rightarrow> app outcome" where
  "DrawFrame env s =
     (case vector_at (m_inFlightFences s) (m_currentFrame s) of
        None \<Rightarrow> Thrown ''out_of_range'' s
      | Some fence \<Rightarrow>
     and_then (wait_for_fence fence s) (\<lambda>s1.
     case vector_at (m_imageAvailableSemaphores s1) (m_currentFrame s1) of
       None \<Rightarrow> Thrown ''out_of_range'' s1
     | Some imageAvailable \<Rightarrow>
     (let s2 = issue (vkAcquireNextImageKHR (m_swapChain s1) imageAvailable) s1;
          result = acquire_result env
      in if VK_ERROR_OUT_OF_DATE_KHR = result
         then RecreateSwapChain (recreation env) s2
         else if VK_SUCCESS \<noteq> result \<and> VK_SUBOPTIMAL_KHR \<noteq> result
         then Thrown ''failed to acquire swap chain image'' s2
         else and_then (DrawFrame_record env fence s2) (\<lambda>s3.
              and_then (DrawFrame_submit env fence imageAvailable s3) (\<lambda>s4.
              DrawFrame_present env s4)))))"

text \<open>
  Two things happen to the state between iterations: the GPU finishes the \<open>k\<close>-th pending
  submission and signals its fence, and GLFW runs \<^verbatim>\<open>FramebufferResizeCallback\<close> from
  \<^verbatim>\<open>glfwPollEvents\<close>.
\<close>

definition gpu_finishes :: "nat \<Rightarrow> app \<Rightarrow> app" where
  "gpu_finishes k s =
     (if k < length (gpu_pending s)
      then s\<lparr>signaled_fences := insert (sub_fence (gpu_pending s ! k)) (signaled_fences s),
             gpu_pending := take k (gpu_pending s) @ drop (Suc k) (gpu_pending s)\<rparr>
      else s)"

definition FramebufferResizeCallback :: "app \<Rightarrow> app" where
  "FramebufferResizeCallback s = s\<lparr>m_framebufferResized := True\<rparr>"

section \<open>Initialisation\<close>

text \<open>
  \<^verbatim>\<open>PickPhysicalDevice\<close>: the loop stores the first suitable device in
  \<open>m_physicalDevice\<close> and breaks; the member is tested against \<^verbatim>\<open>nullptr\<close>
  afterwards.
\<close>

fun PickPhysicalDevice_loop :: "physical_device list \<Rightarrow> app \<Rightarrow> app" where
  "PickPhysicalDevice_loop [] s = s"
| "PickPhysicalDevice_loop (device # devices) s =
     (if IsDeviceSuitable device then s\<lparr>m_physicalDevice := Some device\<rparr>
      else PickPhysicalDevice_loop devices s)"

definition PickPhysicalDevice :: "physical_device list \<Rightarrow> app \<Rightarrow> app outcome" where
  "PickPhysicalDevice devices s =
     (if 0 = length devices
      then Thrown ''failed to find GPUs with Vulkan support'' s
      else
        (let s1 = PickPhysicalDevice_loop devices s
         in if None = m_physicalDevice s1
            then Thrown ''failed to find a suitable GPU'' s1
            else Returned s1))"

text \<open>
  The answers read by \<^verbatim>\<open>InitVulkan\<close>. \<open>enableValidationLayers\<close> is the value of
  \<^verbatim>\<open>g_enableValidationLayers\<close>, fixed at compile time by \<^verbatim>\<open>NDEBUG\<close>. The stages
  before the swapchain and the pipeline stages are kept to the calls they issue, the handles
  they store and the exceptions they throw.
\<close>

record init_env =
  enableValidationLayers :: bool
  validationLayerSupport :: bool
  createInstance_result :: VkResult
  createDebugMessenger_result :: VkResult
  createSurface_result :: VkResult
  physicalDevices :: "physical_device list"
  createDevice_result :: VkResult
  first_build :: create_env
  createRenderPass_result :: VkResult
  vertShaderFileOpens :: bool
  fragShaderFileOpens :: bool
  createVertShaderModule_result :: VkResult
  createFragShaderModule_result :: VkResult
  createPipelineLayout_result :: VkResult
  createGraphicsPipeline_result :: VkResult
  createCommandPool_result :: VkResult
  allocateCommandBuffers_result :: VkResult
  createImageAvailable_result :: "nat \<Rightarrow> VkResult"
  createRenderFinished_result :: "nat \<Rightarrow> VkResult"
  createFence_result :: "nat \<Rightarrow> VkResult"

definition CreateInstance :: "init_env \<Rightarrow> app \<Rightarrow> app outcome" where
  "CreateInstance env s =
     (if enableValidationLayers env \<and> \<not> validationLayerSupport env
      then Thrown ''validation layers requested, but not available'' s
      else
        (let s1 = issue vkCreateInstance s
         in if VK_SUCCESS \<noteq> createInstance_result env
            then Thrown ''failed to create instance'' s1
            else Returned s1))"

definition SetupDebugCallback :: "init_env \<Rightarrow> app \<Rightarrow> app outcome" where
  "SetupDebugCallback env s =
     (if \<not> enableValidationLayers env then Returned s
      else
        (let s1 = issue vkCreateDebugUtilsMessengerEXT s
         in if VK_SUCCESS \<noteq> createDebugMessenger_result env
            then Thrown ''failed to set up debug callback'' s1
            else Returned s1))"

definition CreateSurface :: "init_env \<Rightarrow> app \<Rightarrow> app outcome" where
  "CreateSurface env s =
     (let s1 = issue glfwCreateWindowSurface s
      in if VK_SUCCESS \<noteq> createSurface_result env
         then Thrown ''failed to create window surface'' s1
         else Returned s1)"

definition CreateLogicalDevice :: "init_env \<Rightarrow> app \<Rightarrow> app outcome" where
  "CreateLogicalDevice env s =
     (case m_physicalDevice s of
        None \<Rightarrow> Undefined s
      | Some device \<Rightarrow>
          (let indices = FindQueueFamilies device
           in if graphicsFamily indices = None \<or> presentFamily indices = None
              then Thrown ''bad_optional_access'' s
              else
                (let s1 = issue vkCreateDevice s
                 in if VK_SUCCESS \<noteq> createDevice_result env
                    then Thrown ''failed to create logical device'' s1
                    else Returned s1)))"

definition CreateRenderPass :: "init_env \<Rightarrow> app \<Rightarrow> app outcome" where
  "CreateRenderPass env s =
     (let s1 = issue vkCreateRenderPass s
      in if VK_SUCCESS \<noteq> createRenderPass_result env
         then Thrown ''failed to create render pass'' s1
         else Returned (take_handles 1 (s1\<lparr>m_renderPass := hd (fresh_handles 1 s1)\<rparr>)))"

definition CreateGraphicsPipeline :: "init_env \<Rightarrow> app \<Rightarrow> app outcome" where
  "CreateGraphicsPipeline env s =
     (if \<not> vertShaderFileOpens env
      then Thrown ''failed to open file: ../resources/shaders/01_01_vert.spv'' s
      else if \<not> fragShaderFileOpens env
      then Thrown ''failed to open file: ../resources/shaders/01_01_frag.spv'' s
      else
        (let s1 = issue vkCreateShaderModule s
         in if VK_SUCCESS \<noteq> createVertShaderModule_result env
            then Thrown ''failed to create shader module'' s1
            else
        (let s2 = issue vkCreateShaderModule (take_handles 1 s1)
         in if VK_SUCCESS \<noteq> createFragShaderModule_result env
            then Thrown ''failed to create shader module'' s2
            else
        (let s3 = issue vkCreatePipelineLayout (take_handles 1 s2)
         in if VK_SUCCESS \<noteq> createPipelineLayout_result env
            then Thrown ''failed to create pipeline layout'' s3
            else
        (let s4 = issue vkCreateGraphicsPipelines
                    (take_handles 1 (s3\<lparr>m_pipelineLayout := hd (fresh_handles 1 s3)\<rparr>))
         in if VK_SUCCESS \<noteq> createGraphicsPipeline_result env
            then Thrown ''failed to create graphics pipeline'' s4
            else
              Returned
                (fold issue [vkDestroyShaderModule, vkDestroyShaderModule]
                   (take_handles 1 (s4\<lparr>m_graphicsPipeline := hd (fresh_handles 1 s4)\<rparr>))))))))"

definition CreateCommandPool :: "init_env \<Rightarrow> app \<Rightarrow> app outcome" where
  "CreateCommandPool env s =
     (case m_physicalDevice s of
        None \<Rightarrow> Undefined s
      | Some device \<Rightarrow>
          (if graphicsFamily (FindQueueFamilies device) = None
           then Thrown ''bad_optional_access'' s
           else
             (let s1 = issue vkCreateCommandPool s
              in if VK_SUCCESS \<noteq> createCommandPool_result env
                 then Thrown ''failed to create command pool'' s1
                 else Returned (take_handles 1 (s1\<lparr>m_commandPool := hd (fresh_handles 1 s1)\<rparr>)))))"

text \<open>
  \<^verbatim>\<open>CreateCommandBuffers\<close>: as many command buffers as there are framebuffers. It is
  called from \<^verbatim>\<open>InitVulkan\<close> only.
\<close>

definition CreateCommandBuffers :: "init_env \<Rightarrow> app \<Rightarrow> app outcome" where
  "CreateCommandBuffers env s =
     (let n = length (m_swapChainFramebuffers s);
          s1 = s\<lparr>m_commandBuffers := vector_resize n (m_commandBuffers s)\<rparr>;
          s2 = issue (vkAllocateCommandBuffers (m_commandPool s1) (length (m_commandBuffers s1))) s1
      in if VK_SUCCESS \<noteq> allocateCommandBuffers_result env
         then Thrown ''failed to allocate command buffers'' s2
         else Returned (take_handles n (s2\<lparr>m_commandBuffers := fresh_handles n s2\<rparr>)))"

text \<open>
  \<^verbatim>\<open>CreateSyncObjects\<close>: per slot two semaphores and a fence created signaled
  (\<^verbatim>\<open>VK_FENCE_CREATE_SIGNALED_BIT\<close>); the three creations are joined by \<^verbatim>\<open>||\<close>,
  so the first failure skips the rest of the slot and throws.
\<close>

fun CreateSyncObjects_loop :: "init_env \<Rightarrow> nat list \<Rightarrow> app \<Rightarrow> app outcome" where
  "CreateSyncObjects_loop env [] s = Returned s"
| "CreateSyncObjects_loop env (i # rest) s =
     (let s1 = issue vkCreateSemaphore s
      in if VK_SUCCESS \<noteq> createImageAvailable_result env i
         then Thrown ''failed to create synchronization objects for a frame'' s1
         else
     (let s2 = issue vkCreateSemaphore
                 (take_handles 1
                    (s1\<lparr>m_imageAvailableSemaphores :=
                          (m_imageAvailableSemaphores s1)[i := hd (fresh_handles 1 s1)]\<rparr>))
      in if VK_SUCCESS \<noteq> createRenderFinished_result env i
         then Thrown ''failed to create synchronization objects for a frame'' s2
         else
     (let s3 = issue vkCreateFence
                 (take_handles 1
                    (s2\<lparr>m_renderFinishedSemaphores :=
                          (m_renderFinishedSemaphores s2)[i := hd (fresh_handles 1 s2)]\<rparr>))
      in if VK_SUCCESS \<noteq> createFence_result env i
         then Thrown ''failed to create synchronization objects for a frame'' s3
         else CreateSyncObjects_loop env rest
                (take_handles 1
                   (s3\<lparr>m_inFlightFences := (m_inFlightFences s3)[i := hd (fresh_handles 1 s3)],
                       signaled_fences := insert (hd (fresh_handles 1 s3)) (signaled_fences s3)\<rparr>)))))"

definition CreateSyncObjects :: "init_env \<Rightarrow> app \<Rightarrow> app outcome" where
  "CreateSyncObjects env s =
     CreateSyncObjects_loop env [0 ..< MAX_FRAMES_IN_FLIGHT]
       (s\<lparr>m_imageAvailableSemaphores :=
            vector_resize MAX_FRAMES_IN_FLIGHT (m_imageAvailableSemaphores s),
          m_renderFinishedSemaphores :=
            vector_resize MAX_FRAMES_IN_FLIGHT (m_renderFinishedSemaphores s),
          m_inFlightFences := vector_resize MAX_FRAMES_IN_FLIGHT (m_inFlightFences s)\<rparr>)"

definition InitVulkan :: "init_env \<Rightarrow> app \<Rightarrow> app outcome" where
  "InitVulkan env s =
     and_then (CreateInstance env s) (\<lambda>s.
     and_then (SetupDebugCallback env s) (\<lambda>s.
     and_then (CreateSurface env s) (\<lambda>s.
     and_then (PickPhysicalDevice (physicalDevices env) s) (\<lambda>s.
     and_then (CreateLogicalDevice env s) (\<lambda>s.
     and_then (CreateSwapChain (first_build env) s) (\<lambda>s.
     and_then (CreateImageViews (first_build env) s) (\<lambda>s.
     and_then (CreateRenderPass env s) (\<lambda>s.
     and_then (CreateGraphicsPipeline env s) (\<lambda>s.
     and_then (CreateFramebuffers (first_build env) s) (\<lambda>s.
     and_then (CreateCommandPool env s) (\<lambda>s.
     and_then (CreateCommandBuffers env s) (\<lambda>s.
     CreateSyncObjects env s))))))))))))"

section \<open>The states of a run\<close>

text \<open>
  \<^verbatim>\<open>Run\<close> initialises and then loops over \<^verbatim>\<open>glfwPollEvents\<close> and
  \<^verbatim>\<open>DrawFrame\<close>. The states at the head of the loop are those reached from a returned
  \<^verbatim>\<open>InitVulkan\<close> by returned \<^verbatim>\<open>DrawFrame\<close> calls, with the GPU finishing
  submissions and the resize callback firing in between, under any answers of the driver.
  A \<^verbatim>\<open>DrawFrame\<close> that throws or blocks ends the loop.
\<close>

inductive reachable :: "app \<Rightarrow> bool" where
  after_init: "InitVulkan env initial_app = Returned s \<Longrightarrow> reachable s"
| after_frame: "reachable s \<Longrightarrow> DrawFrame fenv s = Returned s' \<Longrightarrow> reachable s'"
| after_gpu: "reachable s \<Longrightarrow> reachable (gpu_finishes k s)"
| after_resize: "reachable s \<Longrightarrow> reachable (FramebufferResizeCallback s)"

section \<open>A concrete run\<close>

text \<open>
  One device with a single queue family that can draw and present, the swapchain extension,
  the preferred surface format and the present modes FIFO and MAILBOX; a surface of
  800 by 600 that takes two to four images; a driver whose calls all succeed. The
  number of images the driver creates for a chain, and what it answers to an acquisition and
  to a presentation, are left open.
\<close>

definition example_caps :: VkSurfaceCapabilitiesKHR where
  "example_caps =
     \<lparr>minImageCount = 2, maxImageCount = 4,
      currentExtent = \<lparr>width = 800, height = 600\<rparr>,
      minImageExtent = \<lparr>width = 1, height = 1\<rparr>,
      maxImageExtent = \<lparr>width = 4096, height = 4096\<rparr>,
      currentTransform = 1\<rparr>"

definition example_device :: physical_device where
  "example_device =
     \<lparr>queueFamilies = [\<lparr>queueFlags = 1, presentSupport = True\<rparr>],
      availableExtensions = [''VK_KHR_swapchain''],
      surfaceCapabilities = example_caps,
      surfaceFormats = [\<lparr>format = VK_FORMAT_B8G8R8A8_UNORM,
                         colorSpace = VK_COLOR_SPACE_SRGB_NONLINEAR_KHR\<rparr>],
      surfacePresentModes = [VK_PRESENT_MODE_FIFO_KHR, VK_PRESENT_MODE_MAILBOX_KHR]\<rparr>"

definition example_build :: "nat \<Rightarrow> create_env" where
  "example_build n =
     \<lparr>surface_support = QuerySwapChainSupport example_device,
      framebufferSize = (800, 600),
      createSwapchain_result = VK_SUCCESS,
      swapchain_imageCount = n,
      createImageView_result = (\<lambda>i. VK_SUCCESS),
      createFramebuffer_result = (\<lambda>i. VK_SUCCESS)\<rparr>"

definition example_init :: init_env where
  "example_init =
     \<lparr>enableValidationLayers = False, validationLayerSupport = False,
      createInstance_result = VK_SUCCESS, createDebugMessenger_result = VK_SUCCESS,
      createSurface_result = VK_SUCCESS, physicalDevices = [example_device],
      createDevice_result = VK_SUCCESS, first_build = example_build 3,
      createRenderPass_result = VK_SUCCESS,
      vertShaderFileOpens = True, fragShaderFileOpens = True,
      createVertShaderModule_result = VK_SUCCESS,
      createFragShaderModule_result = VK_SUCCESS,
      createPipelineLayout_result = VK_SUCCESS,
      createGraphicsPipeline_result = VK_SUCCESS,
      createCommandPool_result = VK_SUCCESS,
      allocateCommandBuffers_result = VK_SUCCESS,
      createImageAvailable_result = (\<lambda>i. VK_SUCCESS),
      createRenderFinished_result = (\<lambda>i. VK_SUCCESS),
      createFence_result = (\<lambda>i. VK_SUCCESS)\<rparr>"

definition example_recreate :: "nat \<Rightarrow> recreate_env" where
  "example_recreate n =
     \<lparr>polledSizes = (\<lambda>k. (800, 600)), rebuild = example_build n\<rparr>"

definition example_frame :: "VkResult \<Rightarrow> nat \<Rightarrow> VkResult \<Rightarrow> nat \<Rightarrow> frame_env" where
  "example_frame acquired imageIndex presented n =
     \<lparr>acquire_result = acquired, acquire_imageIndex = imageIndex,
      beginCommandBuffer_result = VK_SUCCESS, endCommandBuffer_result = VK_SUCCESS,
      queueSubmit_result = VK_SUCCESS, queuePresent_result = presented,
      recreation = example_recreate n\<rparr>"

text \<open>The state in which the example's initialisation returns.\<close>

definition example_started :: app where
  "example_started = state_of (InitVulkan example_init initial_app)"

text \<open>
  Three iterations in which the driver hands out the images 0, 1 and 2 and every call
  succeeds, with no completion reported by the GPU in between.
\<close>

definition example_frame1 :: app where
  "example_frame1 =
     state_of (DrawFrame (example_frame VK_SUCCESS 0 VK_SUCCESS 3) example_started)"

definition example_frame2 :: app where
  "example_frame2 =
     state_of (DrawFrame (example_frame VK_SUCCESS 1 VK_SUCCESS 3) example_frame1)"

definition example_frame3 :: app where
  "example_frame3 =
     state_of (DrawFrame (example_frame VK_SUCCESS 2 VK_SUCCESS 3) example_frame2)"

text \<open>
  A first iteration whose presentation finds the chain out of date, on a surface for which
  the driver then creates a chain of four images.
\<close>

definition example_resized :: app where
  "example_resized =
     state_of (DrawFrame (example_frame VK_SUCCESS 0 VK_ERROR_OUT_OF_DATE_KHR 4)
                 example_started)"

section \<open>Notions used in the statements\<close>

text \<open>The calls issued between a state and a later one.\<close>

definition new_calls :: "app \<Rightarrow> app \<Rightarrow> api_call list" where
  "new_calls s s' = drop (length (calls s)) (calls s')"

text \<open>
  A later state whose call log is the earlier one followed by calls that all satisfy \<open>P\<close>.
\<close>

definition extends_calls :: "(api_call \<Rightarrow> bool) \<Rightarrow> app \<Rightarrow> app \<Rightarrow> bool" where
  "extends_calls P s s' = (\<exists>cs. calls s' = calls s @ cs \<and> (\<forall>c\<in>set cs. P c))"

text \<open>Calls that release a swapchain object, and calls that allocate an object.\<close>

definition releases :: "api_call \<Rightarrow> bool" where
  "releases c =
     (case c of
        vkDestroyFramebuffer h \<Rightarrow> True
      | vkDestroyImageView h \<Rightarrow> True
      | vkDestroySwapchainKHR h \<Rightarrow> True
      | _ \<Rightarrow> False)"

definition allocates :: "api_call \<Rightarrow> bool" where
  "allocates c =
     (case c of
        vkCreateInstance \<Rightarrow> True
      | vkCreateDebugUtilsMessengerEXT \<Rightarrow> True
      | glfwCreateWindowSurface \<Rightarrow> True
      | vkCreateDevice \<Rightarrow> True
      | vkCreateSwapchainKHR ci \<Rightarrow> True
      | vkCreateImageView i f \<Rightarrow> True
      | vkCreateRenderPass \<Rightarrow> True
      | vkCreateShaderModule \<Rightarrow> True
      | vkCreatePipelineLayout \<Rightarrow> True
      | vkCreateGraphicsPipelines \<Rightarrow> True
      | vkCreateFramebuffer r v e \<Rightarrow> True
      | vkCreateCommandPool \<Rightarrow> True
      | vkAllocateCommandBuffers p n \<Rightarrow> True
      | vkCreateSemaphore \<Rightarrow> True
      | vkCreateFence \<Rightarrow> True
      | _ \<Rightarrow> False)"

text \<open>
  Calls of the part of an iteration that follows a usable acquisition: the fence reset, the
  command recorder, the submission and the presentation.
\<close>

definition records_or_submits :: "api_call \<Rightarrow> bool" where
  "records_or_submits c =
     (case c of
        vkResetFences f \<Rightarrow> True
      | vkResetCommandBuffer b \<Rightarrow> True
      | vkBeginCommandBuffer b \<Rightarrow> True
      | vkCmdBeginRenderPass b r f e \<Rightarrow> True
      | vkCmdBindPipeline b p \<Rightarrow> True
      | vkCmdSetViewport b e \<Rightarrow> True
      | vkCmdSetScissor b e \<Rightarrow> True
      | vkCmdDraw b v i fv fi \<Rightarrow> True
      | vkCmdEndRenderPass b \<Rightarrow> True
      | vkEndCommandBuffer b \<Rightarrow> True
      | vkQueueSubmit b w g f \<Rightarrow> True
      | vkQueuePresentKHR w c i \<Rightarrow> True
      | _ \<Rightarrow> False)"

text \<open>
  The calls a swapchain recreation can issue. \<^verbatim>\<open>RecreateSwapChain\<close> opens with
  \<^verbatim>\<open>glfwGetFramebufferSize\<close>, which nothing else in an iteration calls: an iteration
  ran a recreation exactly when that call is among its calls.
\<close>

definition recreation_call :: "api_call \<Rightarrow> bool" where
  "recreation_call c =
     (case c of
        glfwGetFramebufferSize \<Rightarrow> True
      | glfwWaitEvents \<Rightarrow> True
      | vkDeviceWaitIdle \<Rightarrow> True
      | vkDestroyFramebuffer h \<Rightarrow> True
      | vkDestroyImageView h \<Rightarrow> True
      | vkDestroySwapchainKHR h \<Rightarrow> True
      | vkCreateSwapchainKHR ci \<Rightarrow> True
      | vkCreateImageView i f \<Rightarrow> True
      | vkCreateFramebuffer r v e \<Rightarrow> True
      | _ \<Rightarrow> False)"

text \<open>The calls of the three functions that build the chain, its views and framebuffers.\<close>

definition build_call :: "api_call \<Rightarrow> bool" where
  "build_call c =
     (case c of
        glfwGetFramebufferSize \<Rightarrow> True
      | vkCreateSwapchainKHR ci \<Rightarrow> True
      | vkCreateImageView i f \<Rightarrow> True
      | vkCreateFramebuffer r v e \<Rightarrow> True
      | _ \<Rightarrow> False)"

text \<open>
  What an iteration may call after its opening wait on \<open>fence\<close>: no further wait, and
  a fence reset or a queue submission only with that fence.
\<close>

definition slot_call :: "handle \<Rightarrow> api_call \<Rightarrow> bool" where
  "slot_call fence c =
     (case c of
        vkWaitForFences f \<Rightarrow> False
      | vkResetFences f \<Rightarrow> f = fence
      | vkQueueSubmit b w g f \<Rightarrow> f = fence
      | _ \<Rightarrow> True)"

definition presents :: "api_call \<Rightarrow> bool" where
  "presents c = (case c of vkQueuePresentKHR w h i \<Rightarrow> True | _ \<Rightarrow> False)"

definition recreation_invoked :: "api_call list \<Rightarrow> bool" where
  "recreation_invoked cs = (glfwGetFramebufferSize \<in> set cs)"

text \<open>
  The present modes that throttle the CPU: by the source's notes on the modes, under FIFO
  the program waits when the queue is full, and FIFO_RELAXED differs from it only when the
  queue has run empty. Under IMMEDIATE an image goes to the screen at once, and under
  MAILBOX a new image replaces the queued one instead of blocking the application.
\<close>

fun cpu_throttling :: "VkPresentModeKHR \<Rightarrow> bool" where
  "cpu_throttling VK_PRESENT_MODE_FIFO_KHR = True"
| "cpu_throttling VK_PRESENT_MODE_FIFO_RELAXED_KHR = True"
| "cpu_throttling VK_PRESENT_MODE_IMMEDIATE_KHR = False"
| "cpu_throttling VK_PRESENT_MODE_MAILBOX_KHR = False"
| "cpu_throttling VK_PRESENT_MODE_SHARED_DEMAND_REFRESH_KHR = False"
| "cpu_throttling VK_PRESENT_MODE_SHARED_CONTINUOUS_REFRESH_KHR = False"

text \<open>
  The specification's clamp, on integers: the point of the interval from \<open>lo\<close> to
  \<open>hi\<close> nearest to \<open>v\<close>.
\<close>

definition clamped_into :: "int \<Rightarrow> int \<Rightarrow> int \<Rightarrow> int" where
  "clamped_into v lo hi = max lo (min v hi)"

text \<open>
  Frames in flight: submissions the GPU has not finished. Slots in flight: the fences of
  \<open>m_inFlightFences\<close> behind which a submission is pending and which are not signaled.
\<close>

definition frames_in_flight :: "app \<Rightarrow> nat" where
  "frames_in_flight s = length (gpu_pending s)"

definition slots_in_flight :: "app \<Rightarrow> nat" where
  "slots_in_flight s =
     length (filter (\<lambda>fence. fence \<in> set (map sub_fence (gpu_pending s))
                              \<and> fence \<notin> signaled_fences s)
               (m_inFlightFences s))"

text \<open>
  The protocol between the fences and the GPU queue: there are
  \<open>MAX_FRAMES_IN_FLIGHT\<close> fences, every pending submission signals one of them, no two
  pending submissions signal the same one, and a fence with a pending submission is not
  signaled.
\<close>

definition fence_protocol :: "app \<Rightarrow> bool" where
  "fence_protocol s =
     (length (m_inFlightFences s) = MAX_FRAMES_IN_FLIGHT
      \<and> distinct (map sub_fence (gpu_pending s))
      \<and> set (map sub_fence (gpu_pending s)) \<subseteq> set (m_inFlightFences s)
      \<and> set (map sub_fence (gpu_pending s)) \<inter> signaled_fences s = {})"

text \<open>The state once \<^verbatim>\<open>vkDeviceWaitIdle\<close> has returned, the call log apart.\<close>

definition after_idle :: "app \<Rightarrow> app" where
  "after_idle s =
     s\<lparr>signaled_fences := signaled_fences s \<union> set (map sub_fence (gpu_pending s)),
       gpu_pending := []\<rparr>"

text \<open>
  The state with the swapchain members, the call log and the handle counter blanked: two
  states agree on it when they differ in nothing else.
\<close>

definition outside_swapchain :: "app \<Rightarrow> app" where
  "outside_swapchain s =
     s\<lparr>m_swapChain := 0, m_swapChainImages := [],
       m_swapChainImageFormat := VK_FORMAT_UNDEFINED,
       m_swapChainExtent := \<lparr>width = 0, height = 0\<rparr>,
       m_swapChainImageViews := [], m_swapChainFramebuffers := [],
       calls := [], next_handle := 0\<rparr>"

section \<open>The requested image count\<close>

text \<open>
  C4: for every surface capability snapshot the requested swapchain image count is
  \<open>min (minImageCount + 1) maxImageCount\<close> when \<open>maxImageCount > 0\<close>, and
  \<open>minImageCount + 1\<close> otherwise; for \<open>minImageCount = 2\<close> and \<open>maxImageCount = 3\<close>
  it is 3. The sum is the \<^verbatim>\<open>uint32_t\<close> sum of the source.
\<close>

theorem CreateSwapChain_imageCount_is_min:
  "CreateSwapChain_imageCount caps =
     (if maxImageCount caps > 0 then min (minImageCount caps + 1) (maxImageCount caps)
      else minImageCount caps + 1)
   \<and> (minImageCount caps = 2 \<and> maxImageCount caps = 3 \<longrightarrow> CreateSwapChain_imageCount caps = 3)"
  by (auto simp add: CreateSwapChain_imageCount_def Let_def min_def)

theorem CreateSwapChain_imageCount_is_min_witness:
  "minImageCount example_caps = 2 \<and> maxImageCount example_caps = 4
   \<and> CreateSwapChain_imageCount example_caps = 3
   \<and> CreateSwapChain_imageCount (example_caps\<lparr>maxImageCount := 3\<rparr>) = 3
   \<and> CreateSwapChain_imageCount (example_caps\<lparr>maxImageCount := 2\<rparr>) = 2
   \<and> CreateSwapChain_imageCount (example_caps\<lparr>maxImageCount := 0\<rparr>) = 3"
  using CreateSwapChain_imageCount_is_min [of example_caps]
        CreateSwapChain_imageCount_is_min [of "example_caps\<lparr>maxImageCount := 3\<rparr>"]
        CreateSwapChain_imageCount_is_min [of "example_caps\<lparr>maxImageCount := 2\<rparr>"]
        CreateSwapChain_imageCount_is_min [of "example_caps\<lparr>maxImageCount := 0\<rparr>"]
  by (simp add: example_caps_def)

text \<open>
  The same count read as a natural number: unless \<open>minImageCount\<close> is the largest
  \<^verbatim>\<open>uint32_t\<close>, the sum does not wrap.
\<close>

lemma CreateSwapChain_imageCount_unat:
  assumes "minImageCount caps \<noteq> UINT32_MAX"
  shows "unat (CreateSwapChain_imageCount caps) =
     (if maxImageCount caps > 0
      then min (unat (minImageCount caps) + 1) (unat (maxImageCount caps))
      else unat (minImageCount caps) + 1)"
proof -
  from assms have "unat (minImageCount caps + 1) = unat (minImageCount caps) + 1"
    using unatSuc [of "minImageCount caps"]
    by (simp add: UINT32_MAX_def eq_neg_iff_add_eq_0 add.commute)
  then show ?thesis
    by (auto simp add: CreateSwapChain_imageCount_def Let_def min_def
        word_less_nat_alt word_le_nat_alt)
qed

section \<open>The swap extent\<close>

lemma std_clamp_clamped_into:
  assumes "lo \<le> hi"
  shows "\<exists>r. std_clamp v lo hi = Some r \<and> uint r = clamped_into (uint v) (uint lo) (uint hi)"
  using assms
  by (auto simp add: std_clamp_def clamped_into_def word_less_def word_le_def)

lemma sint_nonneg_uint:
  fixes w :: c_int
  assumes "0 \<le> sint w"
  shows "uint w = sint w"
proof -
  have nb: "\<not> bit (uint w) 31"
    using assms bit_last_iff [of w] by (simp add: bit_uint_iff)
  have "uint w = take_bit 32 (uint w)"
    using uint_lt2p [of w] by (simp add: take_bit_int_eq_self)
  also have "\<dots> = take_bit (Suc 31) (uint w)"
    by simp
  also have "\<dots> = take_bit 31 (uint w)"
    using nb by (simp only: take_bit_Suc_from_most) simp
  also have "\<dots> = signed_take_bit 31 (uint w)"
    using nb by (simp add: signed_take_bit_eq_if_positive)
  also have "\<dots> = sint w"
    by (simp add: sint_uint)
  finally show ?thesis .
qed

text \<open>
  C5: when \<open>currentExtent.width\<close> is the sentinel \<^verbatim>\<open>UINT32_MAX\<close>, the chosen extent is
  the framebuffer size clamped component by component between \<open>minImageExtent\<close> and
  \<open>maxImageExtent\<close>; otherwise it is \<open>currentExtent\<close>. The clamp is defined when the
  minimum does not exceed the maximum, and the framebuffer size is a size: not negative.
\<close>

theorem ChooseSwapExtent_clamps_or_keeps:
  "(width (currentExtent caps) = UINT32_MAX
      \<longrightarrow> width (minImageExtent caps) \<le> width (maxImageExtent caps)
      \<longrightarrow> height (minImageExtent caps) \<le> height (maxImageExtent caps)
      \<longrightarrow> 0 \<le> sint w \<longrightarrow> 0 \<le> sint h
      \<longrightarrow> (\<exists>extent. ChooseSwapExtent caps (w, h) = Some extent
            \<and> uint (width extent) =
                clamped_into (sint w) (uint (width (minImageExtent caps)))
                  (uint (width (maxImageExtent caps)))
            \<and> uint (height extent) =
                clamped_into (sint h) (uint (height (minImageExtent caps)))
                  (uint (height (maxImageExtent caps)))))
   \<and> (width (currentExtent caps) \<noteq> UINT32_MAX
      \<longrightarrow> ChooseSwapExtent caps (w, h) = Some (currentExtent caps))"
proof (intro conjI impI)
  assume sentinel: "width (currentExtent caps) = UINT32_MAX"
    and wb: "width (minImageExtent caps) \<le> width (maxImageExtent caps)"
    and hb: "height (minImageExtent caps) \<le> height (maxImageExtent caps)"
    and w0: "0 \<le> sint w" and h0: "0 \<le> sint h"
  from std_clamp_clamped_into [OF wb, of w] obtain rw where
    rw: "std_clamp w (width (minImageExtent caps)) (width (maxImageExtent caps)) = Some rw"
    "uint rw = clamped_into (uint w) (uint (width (minImageExtent caps)))
                 (uint (width (maxImageExtent caps)))"
    by blast
  from std_clamp_clamped_into [OF hb, of h] obtain rh where
    rh: "std_clamp h (height (minImageExtent caps)) (height (maxImageExtent caps)) = Some rh"
    "uint rh = clamped_into (uint h) (uint (height (minImageExtent caps)))
                 (uint (height (maxImageExtent caps)))"
    by blast
  have "ChooseSwapExtent caps (w, h) = Some \<lparr>width = rw, height = rh\<rparr>"
    using sentinel rw(1) rh(1) by (simp add: ChooseSwapExtent_def)
  then show "\<exists>extent. ChooseSwapExtent caps (w, h) = Some extent
            \<and> uint (width extent) =
                clamped_into (sint w) (uint (width (minImageExtent caps)))
                  (uint (width (maxImageExtent caps)))
            \<and> uint (height extent) =
                clamped_into (sint h) (uint (height (minImageExtent caps)))
                  (uint (height (maxImageExtent caps)))"
    using rw(2) rh(2) sint_nonneg_uint [OF w0] sint_nonneg_uint [OF h0] by simp
next
  assume "width (currentExtent caps) \<noteq> UINT32_MAX"
  then show "ChooseSwapExtent caps (w, h) = Some (currentExtent caps)"
    by (simp add: ChooseSwapExtent_def)
qed

text \<open>
  At a surface that leaves the extent to the client and allows 1 by 1 up to 4096 by 4096, a
  framebuffer of 5000 by 0 gives 4096 by 1; at the example surface, which reports 800 by
  600, the extent is 800 by 600 whatever the framebuffer.
\<close>

theorem ChooseSwapExtent_clamps_or_keeps_witness:
  "(\<exists>extent. ChooseSwapExtent
       (example_caps\<lparr>currentExtent := \<lparr>width = UINT32_MAX, height = UINT32_MAX\<rparr>\<rparr>)
       (5000, 0) = Some extent
     \<and> uint (width extent) = 4096 \<and> uint (height extent) = 1)
   \<and> ChooseSwapExtent example_caps (5000, 0) = Some \<lparr>width = 800, height = 600\<rparr>"
  using ChooseSwapExtent_clamps_or_keeps
          [of "example_caps\<lparr>currentExtent := \<lparr>width = UINT32_MAX, height = UINT32_MAX\<rparr>\<rparr>"
              5000 0]
        ChooseSwapExtent_clamps_or_keeps [of example_caps 5000 0]
  by (simp add: example_caps_def UINT32_MAX_def clamped_into_def)

text \<open>
  Where the surface reports a minimum above the maximum, \<^verbatim>\<open>std::clamp\<close> is called
  outside its precondition and the source fixes no extent.
\<close>

lemma ChooseSwapExtent_undefined:
  "ChooseSwapExtent
     (example_caps\<lparr>currentExtent := \<lparr>width = UINT32_MAX, height = UINT32_MAX\<rparr>,
                   minImageExtent := \<lparr>width = 5, height = 5\<rparr>,
                   maxImageExtent := \<lparr>width = 3, height = 3\<rparr>\<rparr>) (4, 4) = None"
  by (simp add: ChooseSwapExtent_def std_clamp_def example_caps_def)

section \<open>The present mode\<close>

lemma ChooseSwapPresentMode_loop_mailbox:
  "VK_PRESENT_MODE_MAILBOX_KHR \<in> set modes
   \<Longrightarrow> ChooseSwapPresentMode_loop modes best = VK_PRESENT_MODE_MAILBOX_KHR"
  by (induction modes arbitrary: best) auto

lemma ChooseSwapPresentMode_loop_no_mailbox:
  "VK_PRESENT_MODE_MAILBOX_KHR \<notin> set modes
   \<Longrightarrow> ChooseSwapPresentMode_loop modes best =
       (if VK_PRESENT_MODE_IMMEDIATE_KHR \<in> set modes then VK_PRESENT_MODE_IMMEDIATE_KHR
        else best)"
  by (induction modes arbitrary: best) auto

text \<open>
  C6, as stated, fails: its second tier is a CPU-throttling mode, so that without MAILBOX
  the choice would always throttle. For the offer FIFO, IMMEDIATE, with no MAILBOX and with
  the throttling mode FIFO on offer, the choice is IMMEDIATE, which does not throttle; the
  same for FIFO_RELAXED, FIFO, IMMEDIATE.
\<close>

theorem ChooseSwapPresentMode_immediate_before_fifo:
  "VK_PRESENT_MODE_MAILBOX_KHR \<notin> set [VK_PRESENT_MODE_FIFO_KHR, VK_PRESENT_MODE_IMMEDIATE_KHR]
   \<and> VK_PRESENT_MODE_FIFO_KHR \<in> set [VK_PRESENT_MODE_FIFO_KHR, VK_PRESENT_MODE_IMMEDIATE_KHR]
   \<and> cpu_throttling VK_PRESENT_MODE_FIFO_KHR
   \<and> ChooseSwapPresentMode [VK_PRESENT_MODE_FIFO_KHR, VK_PRESENT_MODE_IMMEDIATE_KHR] =
       VK_PRESENT_MODE_IMMEDIATE_KHR
   \<and> \<not> cpu_throttling
         (ChooseSwapPresentMode [VK_PRESENT_MODE_FIFO_KHR, VK_PRESENT_MODE_IMMEDIATE_KHR])
   \<and> \<not> cpu_throttling
         (ChooseSwapPresentMode
            [VK_PRESENT_MODE_FIFO_RELAXED_KHR, VK_PRESENT_MODE_FIFO_KHR,
             VK_PRESENT_MODE_IMMEDIATE_KHR])"
  by (simp add: ChooseSwapPresentMode_def)

text \<open>
  C6, amended: the present mode is MAILBOX when MAILBOX is offered; failing that, the
  second choice of the source, which is IMMEDIATE, when it is offered; failing both, FIFO.
  So the chosen mode throttles the CPU exactly when neither MAILBOX nor IMMEDIATE is
  offered. For the offer FIFO, MAILBOX it is MAILBOX.
\<close>

theorem ChooseSwapPresentMode_preference:
  "ChooseSwapPresentMode modes =
     (if VK_PRESENT_MODE_MAILBOX_KHR \<in> set modes then VK_PRESENT_MODE_MAILBOX_KHR
      else if VK_PRESENT_MODE_IMMEDIATE_KHR \<in> set modes then VK_PRESENT_MODE_IMMEDIATE_KHR
      else VK_PRESENT_MODE_FIFO_KHR)
   \<and> (cpu_throttling (ChooseSwapPresentMode modes) \<longleftrightarrow>
        VK_PRESENT_MODE_MAILBOX_KHR \<notin> set modes
        \<and> VK_PRESENT_MODE_IMMEDIATE_KHR \<notin> set modes)
   \<and> ChooseSwapPresentMode [VK_PRESENT_MODE_FIFO_KHR, VK_PRESENT_MODE_MAILBOX_KHR] =
       VK_PRESENT_MODE_MAILBOX_KHR"
  by (simp add: ChooseSwapPresentMode_def ChooseSwapPresentMode_loop_mailbox
      ChooseSwapPresentMode_loop_no_mailbox)

theorem ChooseSwapPresentMode_preference_witness:
  "ChooseSwapPresentMode [VK_PRESENT_MODE_FIFO_RELAXED_KHR, VK_PRESENT_MODE_IMMEDIATE_KHR] =
     VK_PRESENT_MODE_IMMEDIATE_KHR
   \<and> ChooseSwapPresentMode [VK_PRESENT_MODE_FIFO_RELAXED_KHR] = VK_PRESENT_MODE_FIFO_KHR
   \<and> cpu_throttling (ChooseSwapPresentMode [VK_PRESENT_MODE_FIFO_RELAXED_KHR])
   \<and> ChooseSwapPresentMode (surfacePresentModes example_device) = VK_PRESENT_MODE_MAILBOX_KHR"
  using ChooseSwapPresentMode_preference
          [of "[VK_PRESENT_MODE_FIFO_RELAXED_KHR, VK_PRESENT_MODE_IMMEDIATE_KHR]"]
        ChooseSwapPresentMode_preference [of "[VK_PRESENT_MODE_FIFO_RELAXED_KHR]"]
        ChooseSwapPresentMode_preference [of "surfacePresentModes example_device"]
  by (simp add: example_device_def)

section \<open>Device selection\<close>

lemma fold_erase_is_difference:
  "fold (\<lambda>extension required. required - {extension}) names required = required - set names"
  by (induction names arbitrary: required) auto

lemma CheckDeviceExtensionSupported_iff:
  "CheckDeviceExtensionSupported device \<longleftrightarrow>
     set g_deviceExtensions \<subseteq> set (availableExtensions device)"
  by (simp add: CheckDeviceExtensionSupported_def fold_erase_is_difference)

lemma FindQueueFamilies_loop_complete:
  "IsComplete (FindQueueFamilies_loop families i indices) \<longleftrightarrow>
     (graphicsFamily indices \<noteq> None
        \<or> (\<exists>q\<in>set families. queueFlags q AND VK_QUEUE_GRAPHICS_BIT \<noteq> 0))
     \<and> (presentFamily indices \<noteq> None \<or> (\<exists>q\<in>set families. presentSupport q))"
proof (induction families arbitrary: i indices)
  case Nil
  show ?case by (simp add: IsComplete_def)
next
  case (Cons q families)
  show ?case
    by (simp add: Let_def Cons.IH) (auto simp add: IsComplete_def)
qed

lemma FindQueueFamilies_complete:
  "IsComplete (FindQueueFamilies device) \<longleftrightarrow>
     (\<exists>q\<in>set (queueFamilies device). queueFlags q AND VK_QUEUE_GRAPHICS_BIT \<noteq> 0)
     \<and> (\<exists>q\<in>set (queueFamilies device). presentSupport q)"
  by (simp add: FindQueueFamilies_def FindQueueFamilies_loop_complete)

lemma IsDeviceSuitable_iff:
  "IsDeviceSuitable device \<longleftrightarrow>
     (\<exists>q\<in>set (queueFamilies device). queueFlags q AND VK_QUEUE_GRAPHICS_BIT \<noteq> 0)
     \<and> (\<exists>q\<in>set (queueFamilies device). presentSupport q)
     \<and> set g_deviceExtensions \<subseteq> set (availableExtensions device)
     \<and> surfaceFormats device \<noteq> [] \<and> surfacePresentModes device \<noteq> []"
  unfolding IsDeviceSuitable_def Let_def FindQueueFamilies_complete
    CheckDeviceExtensionSupported_iff QuerySwapChainSupport_def
  by auto

lemma PickPhysicalDevice_loop_find:
  "PickPhysicalDevice_loop devices s =
     (case find IsDeviceSuitable devices of
        None \<Rightarrow> s
      | Some device \<Rightarrow> s\<lparr>m_physicalDevice := Some device\<rparr>)"
  by (induction devices) simp_all

lemma find_first_index:
  assumes "i < length xs" and "P (xs ! i)" and "\<forall>j<i. \<not> P (xs ! j)"
  shows "find P xs = Some (xs ! i)"
  using assms by (auto simp add: find_Some_iff)

text \<open>
  C7: a device is suitable exactly when it has a queue family with the graphics bit, a queue
  family that can present to the surface, every required device extension, and a non-empty
  list of surface formats and of present modes. Starting from the null handle,
  \<^verbatim>\<open>PickPhysicalDevice\<close> returns with the first suitable device of the enumeration, and
  throws when no device is suitable.
\<close>

theorem PickPhysicalDevice_first_suitable:
  "(IsDeviceSuitable device \<longleftrightarrow>
      (\<exists>q\<in>set (queueFamilies device). queueFlags q AND VK_QUEUE_GRAPHICS_BIT \<noteq> 0)
      \<and> (\<exists>q\<in>set (queueFamilies device). presentSupport q)
      \<and> set g_deviceExtensions \<subseteq> set (availableExtensions device)
      \<and> surfaceFormats device \<noteq> [] \<and> surfacePresentModes device \<noteq> [])
   \<and> (m_physicalDevice s = None \<longrightarrow> i < length devices
        \<longrightarrow> IsDeviceSuitable (devices ! i)
        \<longrightarrow> (\<forall>j<i. \<not> IsDeviceSuitable (devices ! j))
        \<longrightarrow> PickPhysicalDevice devices s =
              Returned (s\<lparr>m_physicalDevice := Some (devices ! i)\<rparr>))
   \<and> (m_physicalDevice s = None \<longrightarrow> (\<forall>d\<in>set devices. \<not> IsDeviceSuitable d)
        \<longrightarrow> (\<exists>msg. PickPhysicalDevice devices s = Thrown msg s))"
proof (intro conjI impI)
  show "IsDeviceSuitable device \<longleftrightarrow>
      (\<exists>q\<in>set (queueFamilies device). queueFlags q AND VK_QUEUE_GRAPHICS_BIT \<noteq> 0)
      \<and> (\<exists>q\<in>set (queueFamilies device). presentSupport q)
      \<and> set g_deviceExtensions \<subseteq> set (availableExtensions device)
      \<and> surfaceFormats device \<noteq> [] \<and> surfacePresentModes device \<noteq> []"
    by (rule IsDeviceSuitable_iff)
next
  assume "m_physicalDevice s = None" "i < length devices" "IsDeviceSuitable (devices ! i)"
    "\<forall>j<i. \<not> IsDeviceSuitable (devices ! j)"
  then have "find IsDeviceSuitable devices = Some (devices ! i)" and "devices \<noteq> []"
    by (auto intro: find_first_index)
  then show "PickPhysicalDevice devices s = Returned (s\<lparr>m_physicalDevice := Some (devices ! i)\<rparr>)"
    by (simp add: PickPhysicalDevice_def PickPhysicalDevice_loop_find)
next
  assume null: "m_physicalDevice s = None" and none: "\<forall>d\<in>set devices. \<not> IsDeviceSuitable d"
  from none have "find IsDeviceSuitable devices = None"
    by (simp add: find_None_iff)
  with null show "\<exists>msg. PickPhysicalDevice devices s = Thrown msg s"
    by (simp add: PickPhysicalDevice_def PickPhysicalDevice_loop_find)
qed

text \<open>
  The example device is suitable and the same device without the swapchain extension is
  not; put second in the enumeration, the example device is the one picked, and an
  enumeration of the unsuitable device alone makes the selection throw.
\<close>

theorem PickPhysicalDevice_first_suitable_witness:
  "IsDeviceSuitable example_device
   \<and> \<not> IsDeviceSuitable (example_device\<lparr>availableExtensions := []\<rparr>)
   \<and> PickPhysicalDevice [example_device\<lparr>availableExtensions := []\<rparr>, example_device]
        initial_app = Returned (initial_app\<lparr>m_physicalDevice := Some example_device\<rparr>)
   \<and> (\<exists>msg. PickPhysicalDevice [example_device\<lparr>availableExtensions := []\<rparr>] initial_app =
        Thrown msg initial_app)"
proof -
  have good: "IsDeviceSuitable example_device"
    using PickPhysicalDevice_first_suitable [of example_device initial_app 0 "[]"]
    by (simp add: example_device_def g_deviceExtensions_def VK_QUEUE_GRAPHICS_BIT_def)
  have bad: "\<not> IsDeviceSuitable (example_device\<lparr>availableExtensions := []\<rparr>)"
    using PickPhysicalDevice_first_suitable
            [of "example_device\<lparr>availableExtensions := []\<rparr>" initial_app 0 "[]"]
    by (simp add: g_deviceExtensions_def)
  have null: "m_physicalDevice initial_app = None"
    by (simp add: initial_app_def)
  have picked: "PickPhysicalDevice [example_device\<lparr>availableExtensions := []\<rparr>, example_device]
        initial_app = Returned (initial_app\<lparr>m_physicalDevice := Some example_device\<rparr>)"
    using PickPhysicalDevice_first_suitable
            [of example_device initial_app 1
                "[example_device\<lparr>availableExtensions := []\<rparr>, example_device]"]
          good bad null
    by simp
  have thrown: "\<exists>msg. PickPhysicalDevice [example_device\<lparr>availableExtensions := []\<rparr>] initial_app =
        Thrown msg initial_app"
    using PickPhysicalDevice_first_suitable
            [of example_device initial_app 0 "[example_device\<lparr>availableExtensions := []\<rparr>]"]
          bad null
    by simp
  from good bad picked thrown show ?thesis by simp
qed

section \<open>Sequencing, the call log and the members a function leaves alone\<close>

lemma and_then_simps [simp]:
  "and_then (Returned s) f = f s"
  "and_then (Thrown msg s) f = Thrown msg s"
  "and_then (Blocked s) f = Blocked s"
  "and_then (Undefined s) f = Undefined s"
  by (simp_all add: and_then_def)

lemma and_then_Returned_iff:
  "and_then r f = Returned s' \<longleftrightarrow> (\<exists>s1. r = Returned s1 \<and> f s1 = Returned s')"
  by (cases r) simp_all

lemma and_then_keeps:
  assumes "\<And>s1. g (state_of (f s1)) = g s1"
  shows "g (state_of (and_then r f)) = g (state_of r)"
  using assms by (cases r) simp_all

lemma fold_issue:
  "fold issue cs s = s\<lparr>calls := calls s @ cs\<rparr>"
  by (induction cs arbitrary: s) (simp_all add: issue_def)

lemma fold_issue_map:
  "fold (\<lambda>x. issue (f x)) xs s = s\<lparr>calls := calls s @ map f xs\<rparr>"
  by (induction xs arbitrary: s) (simp_all add: issue_def)

lemma extends_calls_refl [simp]: "extends_calls P s s"
  by (simp add: extends_calls_def)

lemma extends_calls_trans:
  assumes "extends_calls P s s1" and "extends_calls P s1 s2"
  shows "extends_calls P s s2"
  using assms unfolding extends_calls_def by fastforce

lemma extends_calls_mono:
  assumes "extends_calls P s s'" and "\<And>c. P c \<Longrightarrow> Q c"
  shows "extends_calls Q s s'"
  using assms unfolding extends_calls_def by blast

lemma extends_calls_and_then:
  assumes "extends_calls P s (state_of r)"
    and "\<And>s1. extends_calls P s1 (state_of (f s1))"
  shows "extends_calls P s (state_of (and_then r f))"
proof (cases r)
  case (Returned s1)
  with assms(1) have "extends_calls P s s1" by simp
  from extends_calls_trans [OF this assms(2)] Returned show ?thesis by simp
qed (use assms(1) in simp_all)

lemma extends_calls_new_calls:
  assumes "extends_calls P s s'"
  shows "calls s' = calls s @ new_calls s s'" and "\<forall>c\<in>set (new_calls s s'). P c"
  using assms unfolding extends_calls_def new_calls_def by auto

lemma new_calls_append [simp]:
  "calls s' = calls s @ cs \<Longrightarrow> new_calls s s' = cs"
  by (simp add: new_calls_def)

text \<open>What the swapchain functions leave alone.\<close>

lemma outside_swapchain_members:
  assumes "outside_swapchain s' = outside_swapchain s"
  shows "m_physicalDevice s' = m_physicalDevice s"
    and "m_renderPass s' = m_renderPass s"
    and "m_pipelineLayout s' = m_pipelineLayout s"
    and "m_graphicsPipeline s' = m_graphicsPipeline s"
    and "m_commandPool s' = m_commandPool s"
    and "m_commandBuffers s' = m_commandBuffers s"
    and "m_imageAvailableSemaphores s' = m_imageAvailableSemaphores s"
    and "m_renderFinishedSemaphores s' = m_renderFinishedSemaphores s"
    and "m_inFlightFences s' = m_inFlightFences s"
    and "m_currentFrame s' = m_currentFrame s"
    and "m_framebufferResized s' = m_framebufferResized s"
    and "signaled_fences s' = signaled_fences s"
    and "gpu_pending s' = gpu_pending s"
proof -
  have eq: "f (outside_swapchain s') = f (outside_swapchain s)" for f :: "app \<Rightarrow> 'b"
    using assms by simp
  show "m_physicalDevice s' = m_physicalDevice s"
    using eq [of m_physicalDevice] by (simp add: outside_swapchain_def)
  show "m_renderPass s' = m_renderPass s"
    using eq [of m_renderPass] by (simp add: outside_swapchain_def)
  show "m_pipelineLayout s' = m_pipelineLayout s"
    using eq [of m_pipelineLayout] by (simp add: outside_swapchain_def)
  show "m_graphicsPipeline s' = m_graphicsPipeline s"
    using eq [of m_graphicsPipeline] by (simp add: outside_swapchain_def)
  show "m_commandPool s' = m_commandPool s"
    using eq [of m_commandPool] by (simp add: outside_swapchain_def)
  show "m_commandBuffers s' = m_commandBuffers s"
    using eq [of m_commandBuffers] by (simp add: outside_swapchain_def)
  show "m_imageAvailableSemaphores s' = m_imageAvailableSemaphores s"
    using eq [of m_imageAvailableSemaphores] by (simp add: outside_swapchain_def)
  show "m_renderFinishedSemaphores s' = m_renderFinishedSemaphores s"
    using eq [of m_renderFinishedSemaphores] by (simp add: outside_swapchain_def)
  show "m_inFlightFences s' = m_inFlightFences s"
    using eq [of m_inFlightFences] by (simp add: outside_swapchain_def)
  show "m_currentFrame s' = m_currentFrame s"
    using eq [of m_currentFrame] by (simp add: outside_swapchain_def)
  show "m_framebufferResized s' = m_framebufferResized s"
    using eq [of m_framebufferResized] by (simp add: outside_swapchain_def)
  show "signaled_fences s' = signaled_fences s"
    using eq [of signaled_fences] by (simp add: outside_swapchain_def)
  show "gpu_pending s' = gpu_pending s"
    using eq [of gpu_pending] by (simp add: outside_swapchain_def)
qed

lemma outside_swapchain_issue [simp]:
  "outside_swapchain (issue c s) = outside_swapchain s"
  by (simp add: outside_swapchain_def issue_def)

lemma outside_swapchain_take_handles [simp]:
  "outside_swapchain (take_handles n s) = outside_swapchain s"
  by (simp add: outside_swapchain_def take_handles_def)

lemma outside_swapchain_updates [simp]:
  "outside_swapchain (s\<lparr>m_swapChain := a\<rparr>) = outside_swapchain s"
  "outside_swapchain (s\<lparr>m_swapChainImages := b\<rparr>) = outside_swapchain s"
  "outside_swapchain (s\<lparr>m_swapChainImageFormat := c\<rparr>) = outside_swapchain s"
  "outside_swapchain (s\<lparr>m_swapChainExtent := d\<rparr>) = outside_swapchain s"
  "outside_swapchain (s\<lparr>m_swapChainImageViews := e\<rparr>) = outside_swapchain s"
  "outside_swapchain (s\<lparr>m_swapChainFramebuffers := f\<rparr>) = outside_swapchain s"
  "outside_swapchain (s\<lparr>calls := g\<rparr>) = outside_swapchain s"
  "outside_swapchain (s\<lparr>next_handle := h\<rparr>) = outside_swapchain s"
  by (simp_all add: outside_swapchain_def)

lemma build_call_simps [simp]:
  "build_call glfwGetFramebufferSize"
  "build_call (vkCreateSwapchainKHR ci)"
  "build_call (vkCreateImageView i f)"
  "build_call (vkCreateFramebuffer r v e)"
  by (simp_all add: build_call_def)

lemma build_call_recreation_call: "build_call c \<Longrightarrow> recreation_call c"
  by (cases c) (simp_all add: build_call_def recreation_call_def)

lemma build_call_not_releases: "build_call c \<Longrightarrow> \<not> releases c"
  by (cases c) (simp_all add: build_call_def releases_def)

lemma recreation_call_not_records_or_submits:
  "recreation_call c \<Longrightarrow> \<not> records_or_submits c"
  by (cases c) (simp_all add: recreation_call_def records_or_submits_def)

lemma recreation_call_slot_call: "recreation_call c \<Longrightarrow> slot_call fence c"
  by (cases c) (simp_all add: recreation_call_def slot_call_def)

lemma extends_calls_issue:
  "P c \<Longrightarrow> extends_calls P s s' \<Longrightarrow> extends_calls P s (issue c s')"
  by (auto simp add: extends_calls_def issue_def)

lemma extends_calls_updates [simp]:
  "extends_calls P s (take_handles n s') = extends_calls P s s'"
  "extends_calls P s (s'\<lparr>m_swapChain := a\<rparr>) = extends_calls P s s'"
  "extends_calls P s (s'\<lparr>m_swapChainImages := b\<rparr>) = extends_calls P s s'"
  "extends_calls P s (s'\<lparr>m_swapChainImageFormat := c\<rparr>) = extends_calls P s s'"
  "extends_calls P s (s'\<lparr>m_swapChainExtent := d\<rparr>) = extends_calls P s s'"
  "extends_calls P s (s'\<lparr>m_swapChainImageViews := e\<rparr>) = extends_calls P s s'"
  "extends_calls P s (s'\<lparr>m_swapChainFramebuffers := f\<rparr>) = extends_calls P s s'"
  "extends_calls P s (s'\<lparr>m_currentFrame := g\<rparr>) = extends_calls P s s'"
  "extends_calls P s (s'\<lparr>m_framebufferResized := h\<rparr>) = extends_calls P s s'"
  "extends_calls P s (s'\<lparr>signaled_fences := k\<rparr>) = extends_calls P s s'"
  "extends_calls P s (s'\<lparr>gpu_pending := l\<rparr>) = extends_calls P s s'"
  by (simp_all add: extends_calls_def take_handles_def)

lemma extends_calls_from_updates [simp]:
  "extends_calls P (s\<lparr>m_swapChainImageViews := e\<rparr>) s' = extends_calls P s s'"
  "extends_calls P (s\<lparr>m_swapChainFramebuffers := f\<rparr>) s' = extends_calls P s s'"
  "extends_calls P (s\<lparr>m_framebufferResized := h\<rparr>) s' = extends_calls P s s'"
  "extends_calls P (s\<lparr>signaled_fences := k\<rparr>) s' = extends_calls P s s'"
  "extends_calls P (s\<lparr>gpu_pending := l\<rparr>) s' = extends_calls P s s'"
  by (simp_all add: extends_calls_def)

text \<open>
  \<^verbatim>\<open>CreateSwapChain\<close>, once for all: it changes only swapchain members, the log and the
  handle counter, it issues only building calls, and when it returns the chain has as many
  images as the driver reported.
\<close>

lemma CreateSwapChain_effect:
  "outside_swapchain (state_of (CreateSwapChain env s)) = outside_swapchain s
   \<and> extends_calls build_call s (state_of (CreateSwapChain env s))
   \<and> (\<forall>s'. CreateSwapChain env s = Returned s'
        \<longrightarrow> length (m_swapChainImages s') = swapchain_imageCount env
          \<and> m_swapChainImageViews s' = m_swapChainImageViews s
          \<and> m_swapChainFramebuffers s' = m_swapChainFramebuffers s)"
proof (cases "ChooseSwapSurfaceFormat (foramts (surface_support env))")
  case None
  then show ?thesis by (simp add: CreateSwapChain_def)
next
  case f: (Some surfaceFormat)
  show ?thesis
  proof (cases "ChooseSwapExtent (capabilities (surface_support env)) (framebufferSize env)")
    case None
    with f show ?thesis by (simp add: CreateSwapChain_def Let_def extends_calls_issue)
  next
    case e: (Some extent)
    show ?thesis
    proof (cases "m_physicalDevice s")
      case None
      with f e show ?thesis
        by (simp add: CreateSwapChain_def Let_def issue_def extends_calls_def)
    next
      case d: (Some device)
      show ?thesis
      proof (cases "graphicsFamily (FindQueueFamilies device)")
        case None
        with f e d show ?thesis
          by (simp add: CreateSwapChain_def Let_def issue_def extends_calls_def)
      next
        case g: (Some gf)
        show ?thesis
        proof (cases "presentFamily (FindQueueFamilies device)")
          case None
          with f e d g show ?thesis
            by (simp add: CreateSwapChain_def Let_def issue_def extends_calls_def)
        next
          case p: (Some pf)
          with f e d g show ?thesis
            by (auto simp add: CreateSwapChain_def Let_def issue_def extends_calls_def
                take_handles_def fresh_handles_def)
        qed
      qed
    qed
  qed
qed

lemma outside_swapchain_CreateSwapChain:
  "outside_swapchain (state_of (CreateSwapChain env s)) = outside_swapchain s"
  using CreateSwapChain_effect [of env s] by blast

lemma extends_calls_CreateSwapChain:
  "extends_calls build_call s (state_of (CreateSwapChain env s))"
  using CreateSwapChain_effect [of env s] by blast

lemma outside_swapchain_CreateImageViews_loop:
  "outside_swapchain (state_of (CreateImageViews_loop env images i s)) = outside_swapchain s"
  by (induction images arbitrary: i s) (simp_all add: Let_def)

lemma outside_swapchain_CreateImageViews:
  "outside_swapchain (state_of (CreateImageViews env s)) = outside_swapchain s"
  by (simp add: CreateImageViews_def outside_swapchain_CreateImageViews_loop)

lemma outside_swapchain_CreateFramebuffers_loop:
  "outside_swapchain (state_of (CreateFramebuffers_loop env views i s)) = outside_swapchain s"
  by (induction views arbitrary: i s) (simp_all add: Let_def)

lemma outside_swapchain_CreateFramebuffers:
  "outside_swapchain (state_of (CreateFramebuffers env s)) = outside_swapchain s"
  by (simp add: CreateFramebuffers_def outside_swapchain_CreateFramebuffers_loop)

lemma outside_swapchain_CleanupSwapChain:
  "outside_swapchain (CleanupSwapChain s) = outside_swapchain s"
  by (simp add: CleanupSwapChain_def Let_def fold_issue_map)

text \<open>
  A recreation either blocks in its first loop, having changed nothing but the call log, or
  goes through \<^verbatim>\<open>vkDeviceWaitIdle\<close> and changes, outside the swapchain members, only
  what that wait changes.
\<close>

lemma outside_swapchain_RecreateSwapChain:
  "outside_swapchain (state_of (RecreateSwapChain env s)) =
     (case RecreateSwapChain_wait (polledSizes env) 0 of
        None \<Rightarrow> outside_swapchain s
      | Some n \<Rightarrow> outside_swapchain (after_idle s))"
proof (cases "RecreateSwapChain_wait (polledSizes env) 0")
  case None
  then show ?thesis by (simp add: RecreateSwapChain_def)
next
  case (Some n)
  have "outside_swapchain (state_of (and_then (CreateSwapChain (rebuild env) s3) (\<lambda>s4.
              and_then (CreateImageViews (rebuild env) s4) (\<lambda>s5.
              CreateFramebuffers (rebuild env) s5)))) = outside_swapchain s3" for s3
    by (simp add: and_then_keeps outside_swapchain_CreateFramebuffers
        outside_swapchain_CreateImageViews outside_swapchain_CreateSwapChain)
  then show ?thesis
    using Some
    by (simp add: RecreateSwapChain_def Let_def outside_swapchain_CleanupSwapChain
        device_wait_idle_def fold_issue after_idle_def)
      (simp add: outside_swapchain_def issue_def)
qed

section \<open>The concrete run, evaluated\<close>

lemmas evaluation_defs =
  InitVulkan_def CreateInstance_def SetupDebugCallback_def CreateSurface_def
  PickPhysicalDevice_def CreateLogicalDevice_def CreateSwapChain_def CreateImageViews_def
  CreateRenderPass_def CreateGraphicsPipeline_def CreateFramebuffers_def
  CreateCommandPool_def CreateCommandBuffers_def CreateSyncObjects_def
  issue_def take_handles_def fresh_handles_def vector_resize_def vector_at_def
  initial_app_def example_init_def example_build_def example_device_def example_caps_def
  example_recreate_def example_frame_def
  IsDeviceSuitable_def FindQueueFamilies_def IsComplete_def CheckDeviceExtensionSupported_def
  QuerySwapChainSupport_def g_deviceExtensions_def VK_QUEUE_GRAPHICS_BIT_def
  ChooseSwapSurfaceFormat_def ChooseSwapPresentMode_def ChooseSwapExtent_def UINT32_MAX_def
  CreateSwapChain_imageCount_def MAX_FRAMES_IN_FLIGHT_def Let_def upt_rec
  DrawFrame_def DrawFrame_record_def DrawFrame_submit_def DrawFrame_present_def
  RecordCommandBuffer_def wait_for_fence_def RecreateSwapChain_def
  RecreateSwapChain_wait.simps device_wait_idle_def CleanupSwapChain_def

lemma InitVulkan_example:
  "InitVulkan example_init initial_app = Returned
     \<lparr>m_physicalDevice = Some example_device,
      m_swapChain = 1, m_swapChainImages = [2, 3, 4],
      m_swapChainImageFormat = VK_FORMAT_B8G8R8A8_UNORM,
      m_swapChainExtent = \<lparr>width = 800, height = 600\<rparr>,
      m_swapChainImageViews = [5, 6, 7], m_renderPass = 8,
      m_pipelineLayout = 11, m_graphicsPipeline = 12,
      m_swapChainFramebuffers = [13, 14, 15], m_commandPool = 16,
      m_commandBuffers = [17, 18, 19], m_imageAvailableSemaphores = [20, 23],
      m_renderFinishedSemaphores = [21, 24], m_inFlightFences = [22, 25],
      m_currentFrame = 0, m_framebufferResized = False,
      signaled_fences = {22, 25}, gpu_pending = [],
      calls =
        [vkCreateInstance, glfwCreateWindowSurface, vkCreateDevice,
         vkCreateSwapchainKHR
           \<lparr>ci_minImageCount = 3, ci_imageFormat = VK_FORMAT_B8G8R8A8_UNORM,
            ci_imageColorSpace = VK_COLOR_SPACE_SRGB_NONLINEAR_KHR,
            ci_imageExtent = \<lparr>width = 800, height = 600\<rparr>,
            ci_imageSharingMode = VK_SHARING_MODE_EXCLUSIVE,
            ci_queueFamilyIndices = [], ci_preTransform = 1,
            ci_presentMode = VK_PRESENT_MODE_MAILBOX_KHR,
            ci_oldSwapchain = 0\<rparr>,
         vkCreateImageView 2 VK_FORMAT_B8G8R8A8_UNORM,
         vkCreateImageView 3 VK_FORMAT_B8G8R8A8_UNORM,
         vkCreateImageView 4 VK_FORMAT_B8G8R8A8_UNORM, vkCreateRenderPass,
         vkCreateShaderModule, vkCreateShaderModule, vkCreatePipelineLayout,
         vkCreateGraphicsPipelines, vkDestroyShaderModule, vkDestroyShaderModule,
         vkCreateFramebuffer 8 5 \<lparr>width = 800, height = 600\<rparr>,
         vkCreateFramebuffer 8 6 \<lparr>width = 800, height = 600\<rparr>,
         vkCreateFramebuffer 8 7 \<lparr>width = 800, height = 600\<rparr>,
         vkCreateCommandPool, vkAllocateCommandBuffers 16 3,
         vkCreateSemaphore, vkCreateSemaphore, vkCreateFence,
         vkCreateSemaphore, vkCreateSemaphore, vkCreateFence],
      next_handle = 25\<rparr>"
  by (simp add: evaluation_defs) (auto simp add: numeral_2_eq_2)

lemma example_started_members:
  "m_swapChain example_started = 1"
  "m_swapChainImages example_started = [2, 3, 4]"
  "m_swapChainImageViews example_started = [5, 6, 7]"
  "m_swapChainFramebuffers example_started = [13, 14, 15]"
  "m_commandBuffers example_started = [17, 18, 19]"
  "m_inFlightFences example_started = [22, 25]"
  "m_imageAvailableSemaphores example_started = [20, 23]"
  "m_renderFinishedSemaphores example_started = [21, 24]"
  "m_currentFrame example_started = 0"
  "m_framebufferResized example_started = False"
  "signaled_fences example_started = {22, 25}"
  "gpu_pending example_started = []"
  "m_renderPass example_started = 8"
  "m_graphicsPipeline example_started = 12"
  "m_swapChainExtent example_started = \<lparr>width = 800, height = 600\<rparr>"
  "m_physicalDevice example_started = Some example_device"
  "next_handle example_started = 25"
  by (simp_all add: example_started_def InitVulkan_example)

lemma reachable_example_started: "reachable example_started"
  using after_init [of example_init example_started]
  by (simp add: example_started_def InitVulkan_example)

section \<open>Swapchain recreation\<close>

lemma extends_calls_CreateImageViews_loop:
  "extends_calls build_call s (state_of (CreateImageViews_loop env images i s))"
proof (induction images arbitrary: i s)
  case Nil
  show ?case by simp
next
  case (Cons swapChainImage images)
  show ?case
  proof (cases "VK_SUCCESS \<noteq> createImageView_result env i")
    case True
    then show ?thesis by (simp add: Let_def extends_calls_issue)
  next
    case False
    let ?s1 = "issue (vkCreateImageView swapChainImage (m_swapChainImageFormat s)) s"
    let ?s2 = "take_handles 1
                 (?s1\<lparr>m_swapChainImageViews :=
                        (m_swapChainImageViews ?s1)[i := hd (fresh_handles 1 ?s1)]\<rparr>)"
    have "extends_calls build_call s ?s2"
      by (simp add: extends_calls_issue)
    from extends_calls_trans [OF this Cons.IH [of ?s2 "i + 1"]] False
    show ?thesis by (simp add: Let_def)
  qed
qed

lemma extends_calls_CreateImageViews:
  "extends_calls build_call s (state_of (CreateImageViews env s))"
  using extends_calls_CreateImageViews_loop
          [of "s\<lparr>m_swapChainImageViews :=
                    vector_resize (length (m_swapChainImages s)) (m_swapChainImageViews s)\<rparr>"
              env "m_swapChainImages s" 0]
  by (simp add: CreateImageViews_def)

lemma extends_calls_CreateFramebuffers_loop:
  "extends_calls build_call s (state_of (CreateFramebuffers_loop env views i s))"
proof (induction views arbitrary: i s)
  case Nil
  show ?case by simp
next
  case (Cons imageView views)
  show ?case
  proof (cases "VK_SUCCESS \<noteq> createFramebuffer_result env i")
    case True
    then show ?thesis by (simp add: Let_def extends_calls_issue)
  next
    case False
    let ?s1 = "issue (vkCreateFramebuffer (m_renderPass s) imageView (m_swapChainExtent s)) s"
    let ?s2 = "take_handles 1
                 (?s1\<lparr>m_swapChainFramebuffers :=
                        (m_swapChainFramebuffers ?s1)[i := hd (fresh_handles 1 ?s1)]\<rparr>)"
    have "extends_calls build_call s ?s2"
      by (simp add: extends_calls_issue)
    from extends_calls_trans [OF this Cons.IH [of ?s2 "i + 1"]] False
    show ?thesis by (simp add: Let_def)
  qed
qed

lemma extends_calls_CreateFramebuffers:
  "extends_calls build_call s (state_of (CreateFramebuffers env s))"
  using extends_calls_CreateFramebuffers_loop
          [of "s\<lparr>m_swapChainFramebuffers :=
                    vector_resize (length (m_swapChainImageViews s))
                      (m_swapChainFramebuffers s)\<rparr>"
              env "m_swapChainImageViews s" 0]
  by (simp add: CreateFramebuffers_def)

lemma extends_calls_rebuild:
  "extends_calls build_call s
     (state_of (and_then (CreateSwapChain env s) (\<lambda>s4.
                and_then (CreateImageViews env s4) (\<lambda>s5. CreateFramebuffers env s5))))"
  by (intro extends_calls_and_then extends_calls_CreateSwapChain
      extends_calls_CreateImageViews extends_calls_CreateFramebuffers)

lemma calls_CleanupSwapChain:
  "calls (CleanupSwapChain s) =
     calls s @ map vkDestroyFramebuffer (m_swapChainFramebuffers s)
       @ map vkDestroyImageView (m_swapChainImageViews s)
       @ [vkDestroySwapchainKHR (m_swapChain s)]"
  by (simp add: CleanupSwapChain_def Let_def fold_issue_map issue_def)

text \<open>The calls of a recreation whose opening loop ends after \<open>n\<close> rounds.\<close>

lemma calls_RecreateSwapChain:
  assumes "RecreateSwapChain_wait (polledSizes env) 0 = Some n"
  shows "\<exists>built. calls (state_of (RecreateSwapChain env s)) =
           calls s
           @ (glfwGetFramebufferSize
                # concat (replicate n [glfwGetFramebufferSize, glfwWaitEvents]))
           @ [vkDeviceWaitIdle]
           @ map vkDestroyFramebuffer (m_swapChainFramebuffers s)
           @ map vkDestroyImageView (m_swapChainImageViews s)
           @ [vkDestroySwapchainKHR (m_swapChain s)]
           @ built
         \<and> (\<forall>c\<in>set built. build_call c)"
proof -
  let ?s3 = "CleanupSwapChain (device_wait_idle
               (fold issue (concat (replicate n [glfwGetFramebufferSize, glfwWaitEvents]))
                  (issue glfwGetFramebufferSize s)))"
  have run: "RecreateSwapChain env s =
      and_then (CreateSwapChain (rebuild env) ?s3) (\<lambda>s4.
      and_then (CreateImageViews (rebuild env) s4) (\<lambda>s5.
      CreateFramebuffers (rebuild env) s5))"
    using assms by (simp add: RecreateSwapChain_def Let_def)
  have torn_down: "calls ?s3 =
           calls s
           @ (glfwGetFramebufferSize
                # concat (replicate n [glfwGetFramebufferSize, glfwWaitEvents]))
           @ [vkDeviceWaitIdle]
           @ map vkDestroyFramebuffer (m_swapChainFramebuffers s)
           @ map vkDestroyImageView (m_swapChainImageViews s)
           @ [vkDestroySwapchainKHR (m_swapChain s)]"
    by (simp add: calls_CleanupSwapChain device_wait_idle_def fold_issue issue_def)
  from extends_calls_rebuild [of ?s3 "rebuild env"] run
  obtain built where
    "calls (state_of (RecreateSwapChain env s)) = calls ?s3 @ built"
    and "\<forall>c\<in>set built. build_call c"
    unfolding extends_calls_def by auto
  with torn_down show ?thesis by simp
qed

lemma extends_calls_RecreateSwapChain:
  "extends_calls recreation_call s (state_of (RecreateSwapChain env s))"
proof (cases "RecreateSwapChain_wait (polledSizes env) 0")
  case None
  then show ?thesis
    by (simp add: RecreateSwapChain_def issue_def extends_calls_def recreation_call_def)
next
  case (Some n)
  from calls_RecreateSwapChain [OF Some, of s] obtain built where
    c: "calls (state_of (RecreateSwapChain env s)) =
           calls s
           @ (glfwGetFramebufferSize
                # concat (replicate n [glfwGetFramebufferSize, glfwWaitEvents]))
           @ [vkDeviceWaitIdle]
           @ map vkDestroyFramebuffer (m_swapChainFramebuffers s)
           @ map vkDestroyImageView (m_swapChainImageViews s)
           @ [vkDestroySwapchainKHR (m_swapChain s)]
           @ built"
    and b: "\<forall>c\<in>set built. build_call c"
    by blast
  let ?torn_down = "(glfwGetFramebufferSize
                # concat (replicate n [glfwGetFramebufferSize, glfwWaitEvents]))
           @ [vkDeviceWaitIdle]
           @ map vkDestroyFramebuffer (m_swapChainFramebuffers s)
           @ map vkDestroyImageView (m_swapChainImageViews s)
           @ [vkDestroySwapchainKHR (m_swapChain s)]"
  have "\<forall>c\<in>set ?torn_down. recreation_call c"
    by (auto simp add: recreation_call_def)
  moreover from b have "\<forall>c\<in>set built. recreation_call c"
    by (blast intro: build_call_recreation_call)
  ultimately have "\<forall>c\<in>set (?torn_down @ built). recreation_call c"
    by (simp add: ball_Un)
  moreover from c have "calls (state_of (RecreateSwapChain env s)) = calls s @ ?torn_down @ built"
    by simp
  ultimately show ?thesis
    unfolding extends_calls_def by blast
qed

lemma RecreateSwapChain_opens_with_size_query:
  "\<exists>cs. calls (state_of (RecreateSwapChain env s)) = calls s @ glfwGetFramebufferSize # cs"
proof (cases "RecreateSwapChain_wait (polledSizes env) 0")
  case None
  then show ?thesis by (simp add: RecreateSwapChain_def issue_def)
next
  case (Some n)
  from calls_RecreateSwapChain [OF Some, of s] show ?thesis by auto
qed

text \<open>
  C8: a swapchain recreation that gets past its opening loop issues, after calls that
  neither allocate nor release, the release of every prior framebuffer, then of every
  prior image view, then of the prior chain, and only then the calls that build the
  replacement, none of which releases anything; the render pass, the pipeline layout, the
  graphics pipeline and the command pool are the handles they were.
\<close>

theorem RecreateSwapChain_releases_before_building:
  assumes "RecreateSwapChain_wait (polledSizes env) 0 = Some n"
  shows "(\<exists>before built.
            calls (state_of (RecreateSwapChain env s)) =
              calls s @ before
              @ map vkDestroyFramebuffer (m_swapChainFramebuffers s)
              @ map vkDestroyImageView (m_swapChainImageViews s)
              @ [vkDestroySwapchainKHR (m_swapChain s)]
              @ built
            \<and> (\<forall>c\<in>set before. \<not> allocates c \<and> \<not> releases c)
            \<and> (\<forall>c\<in>set built. \<not> releases c))
         \<and> m_renderPass (state_of (RecreateSwapChain env s)) = m_renderPass s
         \<and> m_pipelineLayout (state_of (RecreateSwapChain env s)) = m_pipelineLayout s
         \<and> m_graphicsPipeline (state_of (RecreateSwapChain env s)) = m_graphicsPipeline s
         \<and> m_commandPool (state_of (RecreateSwapChain env s)) = m_commandPool s"
proof -
  from calls_RecreateSwapChain [OF assms, of s] obtain built where
    c: "calls (state_of (RecreateSwapChain env s)) =
           calls s
           @ ((glfwGetFramebufferSize
                # concat (replicate n [glfwGetFramebufferSize, glfwWaitEvents]))
              @ [vkDeviceWaitIdle])
           @ map vkDestroyFramebuffer (m_swapChainFramebuffers s)
           @ map vkDestroyImageView (m_swapChainImageViews s)
           @ [vkDestroySwapchainKHR (m_swapChain s)]
           @ built"
    and b: "\<forall>c\<in>set built. build_call c"
    by auto
  have before: "\<forall>c\<in>set ((glfwGetFramebufferSize
                # concat (replicate n [glfwGetFramebufferSize, glfwWaitEvents]))
              @ [vkDeviceWaitIdle]). \<not> allocates c \<and> \<not> releases c"
    by (auto simp add: allocates_def releases_def)
  from b have built: "\<forall>c\<in>set built. \<not> releases c"
    by (simp add: build_call_not_releases)
  have "outside_swapchain (state_of (RecreateSwapChain env s)) = outside_swapchain (after_idle s)"
    using assms by (simp add: outside_swapchain_RecreateSwapChain)
  from outside_swapchain_members(2-5) [OF this]
  have kept: "m_renderPass (state_of (RecreateSwapChain env s)) = m_renderPass s"
    "m_pipelineLayout (state_of (RecreateSwapChain env s)) = m_pipelineLayout s"
    "m_graphicsPipeline (state_of (RecreateSwapChain env s)) = m_graphicsPipeline s"
    "m_commandPool (state_of (RecreateSwapChain env s)) = m_commandPool s"
    by (simp_all add: after_idle_def)
  from c before built kept show ?thesis by blast
qed

text \<open>
  In the example the loop ends at once, and the recreation releases the framebuffers 13,
  14, 15, the views 5, 6, 7 and the chain 1 before it builds.
\<close>

theorem RecreateSwapChain_releases_before_building_witness:
  "RecreateSwapChain_wait (polledSizes (example_recreate 3)) 0 = Some 0
   \<and> (\<exists>before built.
        calls (state_of (RecreateSwapChain (example_recreate 3) example_started)) =
          calls example_started @ before
          @ [vkDestroyFramebuffer 13, vkDestroyFramebuffer 14, vkDestroyFramebuffer 15,
             vkDestroyImageView 5, vkDestroyImageView 6, vkDestroyImageView 7,
             vkDestroySwapchainKHR 1]
          @ built
        \<and> (\<forall>c\<in>set before. \<not> allocates c \<and> \<not> releases c)
        \<and> (\<forall>c\<in>set built. \<not> releases c))
   \<and> m_renderPass (state_of (RecreateSwapChain (example_recreate 3) example_started)) = 8"
proof -
  have w: "RecreateSwapChain_wait (polledSizes (example_recreate 3)) 0 = Some 0"
    by (simp add: example_recreate_def RecreateSwapChain_wait.simps)
  from RecreateSwapChain_releases_before_building [OF w, of example_started] w
  show ?thesis
    by (simp add: example_started_members)
qed

section \<open>The parts of an iteration\<close>

lemma wait_for_fence_Returned:
  assumes "wait_for_fence fence s = Returned s1"
  shows "fence \<in> signaled_fences s1"
    and "calls s1 = calls s @ [vkWaitForFences fence]"
    and "signaled_fences s \<subseteq> signaled_fences s1"
    and "set (gpu_pending s1) \<subseteq> set (gpu_pending s)"
    and "s1\<lparr>signaled_fences := a, gpu_pending := b, calls := c\<rparr> =
         s\<lparr>signaled_fences := a, gpu_pending := b, calls := c\<rparr>"
  using assms
  by (auto simp add: wait_for_fence_def issue_def Let_def split: if_splits)

lemma wait_for_fence_members:
  assumes "wait_for_fence fence s = Returned s1"
  shows "m_currentFrame s1 = m_currentFrame s"
    and "m_inFlightFences s1 = m_inFlightFences s"
    and "m_imageAvailableSemaphores s1 = m_imageAvailableSemaphores s"
    and "m_renderFinishedSemaphores s1 = m_renderFinishedSemaphores s"
    and "m_commandBuffers s1 = m_commandBuffers s"
    and "m_swapChain s1 = m_swapChain s"
    and "m_swapChainImages s1 = m_swapChainImages s"
    and "m_swapChainFramebuffers s1 = m_swapChainFramebuffers s"
    and "m_framebufferResized s1 = m_framebufferResized s"
  using assms
  by (auto simp add: wait_for_fence_def issue_def Let_def split: if_splits)

lemma wait_for_fence_not_Returned:
  assumes "\<forall>s1. wait_for_fence fence s \<noteq> Returned s1"
  shows "wait_for_fence fence s = Blocked (issue (vkWaitForFences fence) s)"
  using assms by (simp add: wait_for_fence_def Let_def split: if_splits)

lemma wait_for_fence_protocol:
  assumes "fence_protocol s" and "wait_for_fence fence s = Returned s1"
  shows "fence_protocol s1" and "fence \<notin> set (map sub_fence (gpu_pending s1))"
  using assms
  by (auto simp add: wait_for_fence_def issue_def Let_def fence_protocol_def distinct_map_filter
      split: if_splits) blast+

text \<open>
  The calls of the first two parts: they record or submit, they do not present, and they
  touch no fence but the one of the slot.
\<close>

lemma RecordCommandBuffer_effect:
  "\<exists>cs. state_of (RecordCommandBuffer env commandBuffer framebuffer s) = s\<lparr>calls := calls s @ cs\<rparr>
        \<and> (\<forall>c\<in>set cs. records_or_submits c \<and> \<not> presents c \<and> slot_call fence c)"
proof -
  define cs where "cs =
    (if VK_SUCCESS \<noteq> beginCommandBuffer_result env then [vkBeginCommandBuffer commandBuffer]
     else [vkBeginCommandBuffer commandBuffer,
           vkCmdBeginRenderPass commandBuffer (m_renderPass s) framebuffer (m_swapChainExtent s),
           vkCmdBindPipeline commandBuffer (m_graphicsPipeline s),
           vkCmdSetViewport commandBuffer (m_swapChainExtent s),
           vkCmdSetScissor commandBuffer (m_swapChainExtent s),
           vkCmdDraw commandBuffer 3 1 0 0,
           vkCmdEndRenderPass commandBuffer,
           vkEndCommandBuffer commandBuffer])"
  have "state_of (RecordCommandBuffer env commandBuffer framebuffer s) = s\<lparr>calls := calls s @ cs\<rparr>"
    by (simp add: cs_def RecordCommandBuffer_def Let_def fold_issue issue_def)
  moreover have "\<forall>c\<in>set cs. records_or_submits c \<and> \<not> presents c \<and> slot_call fence c"
    by (simp add: cs_def records_or_submits_def presents_def slot_call_def)
  ultimately show ?thesis by blast
qed

lemma DrawFrame_record_effect:
  "\<exists>cs. state_of (DrawFrame_record env fence s) =
          s\<lparr>signaled_fences := signaled_fences s - {fence}, calls := calls s @ cs\<rparr>
        \<and> (\<forall>c\<in>set cs. records_or_submits c \<and> \<not> presents c \<and> slot_call fence c)"
proof (cases "vector_at (m_commandBuffers s) (acquire_imageIndex env)")
  case None
  then have "state_of (DrawFrame_record env fence s) =
          s\<lparr>signaled_fences := signaled_fences s - {fence},
            calls := calls s @ [vkResetFences fence]\<rparr>"
    by (simp add: DrawFrame_record_def Let_def issue_def)
  moreover have "\<forall>c\<in>set [vkResetFences fence].
                   records_or_submits c \<and> \<not> presents c \<and> slot_call fence c"
    by (simp add: records_or_submits_def presents_def slot_call_def)
  ultimately show ?thesis by blast
next
  case cb: (Some commandBuffer)
  show ?thesis
  proof (cases "vector_at (m_swapChainFramebuffers s) (acquire_imageIndex env)")
    case None
    with cb have "state_of (DrawFrame_record env fence s) =
          s\<lparr>signaled_fences := signaled_fences s - {fence},
            calls := calls s @ [vkResetFences fence, vkResetCommandBuffer commandBuffer]\<rparr>"
      by (simp add: DrawFrame_record_def Let_def issue_def)
    moreover have "\<forall>c\<in>set [vkResetFences fence, vkResetCommandBuffer commandBuffer].
                     records_or_submits c \<and> \<not> presents c \<and> slot_call fence c"
      by (simp add: records_or_submits_def presents_def slot_call_def)
    ultimately show ?thesis by blast
  next
    case (Some framebuffer)
    let ?s2 = "issue (vkResetCommandBuffer commandBuffer)
                 (issue (vkResetFences fence) (s\<lparr>signaled_fences := signaled_fences s - {fence}\<rparr>))"
    from RecordCommandBuffer_effect [of env commandBuffer framebuffer ?s2 fence]
    obtain cs where
      r: "state_of (RecordCommandBuffer env commandBuffer framebuffer ?s2) =
            ?s2\<lparr>calls := calls ?s2 @ cs\<rparr>"
      and q: "\<forall>c\<in>set cs. records_or_submits c \<and> \<not> presents c \<and> slot_call fence c"
      by blast
    have "state_of (DrawFrame_record env fence s) =
            s\<lparr>signaled_fences := signaled_fences s - {fence},
              calls := calls s @ ([vkResetFences fence, vkResetCommandBuffer commandBuffer] @ cs)\<rparr>"
      using cb Some r by (simp add: DrawFrame_record_def Let_def issue_def)
    moreover have "\<forall>c\<in>set ([vkResetFences fence, vkResetCommandBuffer commandBuffer] @ cs).
                     records_or_submits c \<and> \<not> presents c \<and> slot_call fence c"
      using q by (simp add: records_or_submits_def presents_def slot_call_def)
    ultimately show ?thesis by blast
  qed
qed

lemma DrawFrame_submit_effect:
  "\<exists>cs. (\<forall>c\<in>set cs. records_or_submits c \<and> \<not> presents c \<and> slot_call fence c)
        \<and> ((\<exists>commandBuffer. DrawFrame_submit env fence imageAvailable s =
               Returned (s\<lparr>gpu_pending := gpu_pending s @
                                 [\<lparr>sub_commandBuffer = commandBuffer, sub_fence = fence\<rparr>],
                            calls := calls s @ cs\<rparr>))
           \<or> (\<exists>msg. DrawFrame_submit env fence imageAvailable s =
                 Thrown msg (s\<lparr>calls := calls s @ cs\<rparr>)))"
proof (cases "vector_at (m_renderFinishedSemaphores s) (m_currentFrame s)")
  case None
  then have "DrawFrame_submit env fence imageAvailable s =
               Thrown ''out_of_range'' (s\<lparr>calls := calls s @ []\<rparr>)"
    by (simp add: DrawFrame_submit_def)
  moreover have "\<forall>c\<in>set []. records_or_submits c \<and> \<not> presents c \<and> slot_call fence c"
    by simp
  ultimately show ?thesis by blast
next
  case (Some renderFinished)
  let ?c = "vkQueueSubmit (m_commandBuffers s ! acquire_imageIndex env) imageAvailable
              renderFinished fence"
  have q: "\<forall>c\<in>set [?c]. records_or_submits c \<and> \<not> presents c \<and> slot_call fence c"
    by (simp add: records_or_submits_def presents_def slot_call_def)
  show ?thesis
  proof (cases "VK_SUCCESS \<noteq> queueSubmit_result env")
    case True
    with Some have "DrawFrame_submit env fence imageAvailable s =
             Thrown ''failed to submit draw command buffer'' (s\<lparr>calls := calls s @ [?c]\<rparr>)"
      by (simp add: DrawFrame_submit_def Let_def issue_def)
    with q show ?thesis by blast
  next
    case False
    with Some have "DrawFrame_submit env fence imageAvailable s =
             Returned (s\<lparr>gpu_pending := gpu_pending s @
                                 [\<lparr>sub_commandBuffer = m_commandBuffers s ! acquire_imageIndex env,
                                   sub_fence = fence\<rparr>],
                          calls := calls s @ [?c]\<rparr>)"
      by (simp add: DrawFrame_submit_def Let_def issue_def)
    with q show ?thesis by blast
  qed
qed

lemma state_of_advance:
  "state_of (and_then r (\<lambda>s2. Returned (s2\<lparr>m_currentFrame := g s2\<rparr>))) =
     (case r of Returned s2 \<Rightarrow> s2\<lparr>m_currentFrame := g s2\<rparr> | _ \<Rightarrow> state_of r)"
  by (cases r) simp_all

lemma calls_advance:
  "calls (state_of (and_then r (\<lambda>s2. Returned (s2\<lparr>m_currentFrame := g s2\<rparr>)))) =
     calls (state_of r)"
  by (cases r) simp_all

text \<open>
  The calls of the third part: the presentation, followed by nothing when the result is
  success and no resize is flagged, and by a recreation, opening with its size query, when
  the result is out-of-date or suboptimal or a resize is flagged.
\<close>

lemma DrawFrame_present_calls:
  assumes "vector_at (m_renderFinishedSemaphores s) (m_currentFrame s) = Some renderFinished"
  shows "\<exists>cs. calls (state_of (DrawFrame_present env s)) =
           calls s @ vkQueuePresentKHR renderFinished (m_swapChain s) (acquire_imageIndex env) # cs
         \<and> (\<forall>c\<in>set cs. recreation_call c)
         \<and> (if VK_ERROR_OUT_OF_DATE_KHR = queuePresent_result env
                \<or> VK_SUBOPTIMAL_KHR = queuePresent_result env \<or> m_framebufferResized s
             then \<exists>cs'. cs = glfwGetFramebufferSize # cs' else cs = [])"
proof (cases "VK_ERROR_OUT_OF_DATE_KHR = queuePresent_result env
                \<or> VK_SUBOPTIMAL_KHR = queuePresent_result env \<or> m_framebufferResized s")
  case True
  let ?s1 = "issue (vkQueuePresentKHR renderFinished (m_swapChain s) (acquire_imageIndex env)) s"
  let ?r = "RecreateSwapChain (recreation env) (?s1\<lparr>m_framebufferResized := False\<rparr>)"
  from extends_calls_RecreateSwapChain [of "?s1\<lparr>m_framebufferResized := False\<rparr>" "recreation env"]
  obtain cs where
    c: "calls (state_of ?r) = calls (?s1\<lparr>m_framebufferResized := False\<rparr>) @ cs"
    and r: "\<forall>c\<in>set cs. recreation_call c"
    unfolding extends_calls_def by blast
  from RecreateSwapChain_opens_with_size_query
         [of "recreation env" "?s1\<lparr>m_framebufferResized := False\<rparr>"] c
  have "\<exists>cs'. cs = glfwGetFramebufferSize # cs'"
    by auto
  moreover have run: "DrawFrame_present env s =
        and_then ?r (\<lambda>s2. Returned
           (s2\<lparr>m_currentFrame := (m_currentFrame s2 + 1) mod MAX_FRAMES_IN_FLIGHT\<rparr>))"
    using assms True by (auto simp add: DrawFrame_present_def Let_def issue_def)
  have "calls (state_of (DrawFrame_present env s)) =
      calls s @ vkQueuePresentKHR renderFinished (m_swapChain s) (acquire_imageIndex env) # cs"
    unfolding run calls_advance using c by (simp add: issue_def)
  ultimately show ?thesis
    using r True by auto
next
  case False
  with assms show ?thesis
    by (simp add: DrawFrame_present_def Let_def issue_def)
qed

lemma extends_calls_DrawFrame_present:
  "extends_calls (\<lambda>c. presents c \<or> recreation_call c) s (state_of (DrawFrame_present env s))"
proof (cases "vector_at (m_renderFinishedSemaphores s) (m_currentFrame s)")
  case None
  then show ?thesis by (simp add: DrawFrame_present_def)
next
  case (Some renderFinished)
  from DrawFrame_present_calls [OF Some, of env] show ?thesis
    unfolding extends_calls_def
    by (auto simp add: presents_def)
qed

text \<open>
  What the third part leaves of the state outside the swapchain members: the frame index
  is advanced when the part returns, \<open>m_framebufferResized\<close> may be cleared, and a
  recreation that passes its opening loop leaves the device idle.
\<close>

lemma DrawFrame_present_outside:
  "\<exists>frame resized.
     outside_swapchain (state_of (DrawFrame_present env s)) =
       outside_swapchain (s\<lparr>m_currentFrame := frame, m_framebufferResized := resized\<rparr>)
     \<or> outside_swapchain (state_of (DrawFrame_present env s)) =
       outside_swapchain (after_idle s\<lparr>m_currentFrame := frame, m_framebufferResized := resized\<rparr>)"
proof (cases "vector_at (m_renderFinishedSemaphores s) (m_currentFrame s)")
  case None
  then have "outside_swapchain (state_of (DrawFrame_present env s)) =
       outside_swapchain (s\<lparr>m_currentFrame := m_currentFrame s,
                            m_framebufferResized := m_framebufferResized s\<rparr>)"
    by (simp add: DrawFrame_present_def)
  then show ?thesis by blast
next
  case rf: (Some renderFinished)
  let ?s1 = "issue (vkQueuePresentKHR renderFinished (m_swapChain s) (acquire_imageIndex env)) s"
  show ?thesis
  proof (cases "VK_ERROR_OUT_OF_DATE_KHR = queuePresent_result env
                \<or> VK_SUBOPTIMAL_KHR = queuePresent_result env \<or> m_framebufferResized s")
    case False
    then have "outside_swapchain (state_of (DrawFrame_present env s)) =
       outside_swapchain (s\<lparr>m_currentFrame :=
           (if VK_SUCCESS \<noteq> queuePresent_result env then m_currentFrame s
            else (m_currentFrame s + 1) mod MAX_FRAMES_IN_FLIGHT),
         m_framebufferResized := m_framebufferResized s\<rparr>)"
      using rf by (simp add: DrawFrame_present_def Let_def issue_def outside_swapchain_def)
    then show ?thesis by blast
  next
    case True
    let ?r = "RecreateSwapChain (recreation env) (?s1\<lparr>m_framebufferResized := False\<rparr>)"
    have run: "DrawFrame_present env s =
        and_then ?r (\<lambda>s2. Returned
           (s2\<lparr>m_currentFrame := (m_currentFrame s2 + 1) mod MAX_FRAMES_IN_FLIGHT\<rparr>))"
      using rf True by (auto simp add: DrawFrame_present_def Let_def issue_def)
    have o: "outside_swapchain (state_of ?r) =
       (case RecreateSwapChain_wait (polledSizes (recreation env)) 0 of
          None \<Rightarrow> outside_swapchain (?s1\<lparr>m_framebufferResized := False\<rparr>)
        | Some n \<Rightarrow> outside_swapchain (after_idle (?s1\<lparr>m_framebufferResized := False\<rparr>)))"
      by (rule outside_swapchain_RecreateSwapChain)
    have adv: "outside_swapchain (s2\<lparr>m_currentFrame := k\<rparr>) =
               (outside_swapchain s2)\<lparr>m_currentFrame := k\<rparr>" for s2 k
      by (simp add: outside_swapchain_def)
    have "\<exists>frame. outside_swapchain (state_of (DrawFrame_present env s)) =
                   (outside_swapchain (state_of ?r))\<lparr>m_currentFrame := frame\<rparr>"
    proof (cases ?r)
      case (Returned s2)
      with run show ?thesis by (auto simp add: adv)
    next
      case (Thrown msg s2)
      with run have "outside_swapchain (state_of (DrawFrame_present env s)) =
                   (outside_swapchain (state_of ?r))\<lparr>m_currentFrame := m_currentFrame s2\<rparr>"
        by (simp add: outside_swapchain_def)
      then show ?thesis by blast
    next
      case (Blocked s2)
      with run have "outside_swapchain (state_of (DrawFrame_present env s)) =
                   (outside_swapchain (state_of ?r))\<lparr>m_currentFrame := m_currentFrame s2\<rparr>"
        by (simp add: outside_swapchain_def)
      then show ?thesis by blast
    next
      case (Undefined s2)
      with run have "outside_swapchain (state_of (DrawFrame_present env s)) =
                   (outside_swapchain (state_of ?r))\<lparr>m_currentFrame := m_currentFrame s2\<rparr>"
        by (simp add: outside_swapchain_def)
      then show ?thesis by blast
    qed
    then obtain frame where
      f: "outside_swapchain (state_of (DrawFrame_present env s)) =
            (outside_swapchain (state_of ?r))\<lparr>m_currentFrame := frame\<rparr>"
      by blast
    show ?thesis
    proof (cases "RecreateSwapChain_wait (polledSizes (recreation env)) 0")
      case None
      with o f have "outside_swapchain (state_of (DrawFrame_present env s)) =
          outside_swapchain (s\<lparr>m_currentFrame := frame, m_framebufferResized := False\<rparr>)"
        by (simp add: outside_swapchain_def issue_def)
      then show ?thesis by blast
    next
      case (Some n)
      with o f have "outside_swapchain (state_of (DrawFrame_present env s)) =
          outside_swapchain (after_idle s\<lparr>m_currentFrame := frame, m_framebufferResized := False\<rparr>)"
        by (simp add: outside_swapchain_def issue_def after_idle_def)
      then show ?thesis by blast
    qed
  qed
qed

text \<open>The ways through \<^verbatim>\<open>DrawFrame\<close>.\<close>

lemma DrawFrame_cases [case_names no_fence blocked no_semaphore stale failed usable]:
  assumes "vector_at (m_inFlightFences s) (m_currentFrame s) = None
           \<Longrightarrow> DrawFrame env s = Thrown ''out_of_range'' s \<Longrightarrow> thesis"
    and "\<And>fence. vector_at (m_inFlightFences s) (m_currentFrame s) = Some fence
           \<Longrightarrow> \<forall>s1. wait_for_fence fence s \<noteq> Returned s1
           \<Longrightarrow> DrawFrame env s = Blocked (issue (vkWaitForFences fence) s) \<Longrightarrow> thesis"
    and "\<And>fence s1. vector_at (m_inFlightFences s) (m_currentFrame s) = Some fence
           \<Longrightarrow> wait_for_fence fence s = Returned s1
           \<Longrightarrow> vector_at (m_imageAvailableSemaphores s) (m_currentFrame s) = None
           \<Longrightarrow> DrawFrame env s = Thrown ''out_of_range'' s1 \<Longrightarrow> thesis"
    and "\<And>fence s1 imageAvailable.
           vector_at (m_inFlightFences s) (m_currentFrame s) = Some fence
           \<Longrightarrow> wait_for_fence fence s = Returned s1
           \<Longrightarrow> vector_at (m_imageAvailableSemaphores s) (m_currentFrame s) = Some imageAvailable
           \<Longrightarrow> acquire_result env = VK_ERROR_OUT_OF_DATE_KHR
           \<Longrightarrow> DrawFrame env s =
                 RecreateSwapChain (recreation env)
                   (issue (vkAcquireNextImageKHR (m_swapChain s) imageAvailable) s1)
           \<Longrightarrow> thesis"
    and "\<And>fence s1 imageAvailable.
           vector_at (m_inFlightFences s) (m_currentFrame s) = Some fence
           \<Longrightarrow> wait_for_fence fence s = Returned s1
           \<Longrightarrow> vector_at (m_imageAvailableSemaphores s) (m_currentFrame s) = Some imageAvailable
           \<Longrightarrow> acquire_result env \<noteq> VK_ERROR_OUT_OF_DATE_KHR
           \<Longrightarrow> acquire_result env \<noteq> VK_SUCCESS
           \<Longrightarrow> acquire_result env \<noteq> VK_SUBOPTIMAL_KHR
           \<Longrightarrow> DrawFrame env s =
                 Thrown ''failed to acquire swap chain image''
                   (issue (vkAcquireNextImageKHR (m_swapChain s) imageAvailable) s1)
           \<Longrightarrow> thesis"
    and "\<And>fence s1 imageAvailable.
           vector_at (m_inFlightFences s) (m_currentFrame s) = Some fence
           \<Longrightarrow> wait_for_fence fence s = Returned s1
           \<Longrightarrow> vector_at (m_imageAvailableSemaphores s) (m_currentFrame s) = Some imageAvailable
           \<Longrightarrow> acquire_result env = VK_SUCCESS \<or> acquire_result env = VK_SUBOPTIMAL_KHR
           \<Longrightarrow> DrawFrame env s =
                 and_then (DrawFrame_record env fence
                             (issue (vkAcquireNextImageKHR (m_swapChain s) imageAvailable) s1))
                   (\<lambda>s3. and_then (DrawFrame_submit env fence imageAvailable s3)
                            (\<lambda>s4. DrawFrame_present env s4))
           \<Longrightarrow> thesis"
  shows thesis
proof (cases "vector_at (m_inFlightFences s) (m_currentFrame s)")
  case None
  then show ?thesis
    by (intro assms(1)) (simp_all add: DrawFrame_def)
next
  case f: (Some fence)
  show ?thesis
  proof (cases "\<exists>s1. wait_for_fence fence s = Returned s1")
    case False
    then have nr: "\<forall>s1. wait_for_fence fence s \<noteq> Returned s1" by simp
    from wait_for_fence_not_Returned [OF nr] f
    have "DrawFrame env s = Blocked (issue (vkWaitForFences fence) s)"
      by (simp add: DrawFrame_def)
    with f nr show ?thesis by (rule assms(2))
  next
    case True
    then obtain s1 where w: "wait_for_fence fence s = Returned s1" by blast
    note m = wait_for_fence_members [OF w]
    show ?thesis
    proof (cases "vector_at (m_imageAvailableSemaphores s) (m_currentFrame s)")
      case None
      with f w m have "DrawFrame env s = Thrown ''out_of_range'' s1"
        by (simp add: DrawFrame_def)
      with f w None show ?thesis by (rule assms(3))
    next
      case ia: (Some imageAvailable)
      consider (stale) "acquire_result env = VK_ERROR_OUT_OF_DATE_KHR"
        | (usable) "acquire_result env = VK_SUCCESS \<or> acquire_result env = VK_SUBOPTIMAL_KHR"
        | (failed) "acquire_result env \<noteq> VK_ERROR_OUT_OF_DATE_KHR"
            "acquire_result env \<noteq> VK_SUCCESS" "acquire_result env \<noteq> VK_SUBOPTIMAL_KHR"
        by blast
      then show ?thesis
      proof cases
        case stale
        with f w m ia have "DrawFrame env s =
                 RecreateSwapChain (recreation env)
                   (issue (vkAcquireNextImageKHR (m_swapChain s) imageAvailable) s1)"
          by (simp add: DrawFrame_def Let_def)
        with f w ia stale show ?thesis by (rule assms(4))
      next
        case usable
        with f w m ia have "DrawFrame env s =
                 and_then (DrawFrame_record env fence
                             (issue (vkAcquireNextImageKHR (m_swapChain s) imageAvailable) s1))
                   (\<lambda>s3. and_then (DrawFrame_submit env fence imageAvailable s3)
                            (\<lambda>s4. DrawFrame_present env s4))"
          by (auto simp add: DrawFrame_def Let_def)
        with f w ia usable show ?thesis by (rule assms(6))
      next
        case failed
        with f w m ia have "DrawFrame env s =
                 Thrown ''failed to acquire swap chain image''
                   (issue (vkAcquireNextImageKHR (m_swapChain s) imageAvailable) s1)"
          by (auto simp add: DrawFrame_def Let_def)
        with f w ia failed show ?thesis by (rule assms(5))
      qed
    qed
  qed
qed

section \<open>The stale-swapchain path\<close>

lemma fence_protocol_outside_swapchain:
  assumes "outside_swapchain s' = outside_swapchain s"
  shows "fence_protocol s' = fence_protocol s"
  using outside_swapchain_members(9,12,13) [OF assms]
  by (simp add: fence_protocol_def)

lemma fence_protocol_after_idle:
  "fence_protocol s \<Longrightarrow> fence_protocol (after_idle s)"
  by (simp add: fence_protocol_def after_idle_def)

text \<open>What a recreation does to the members and the device state the frame loop runs on.\<close>

lemma RecreateSwapChain_frame_state:
  "m_currentFrame (state_of (RecreateSwapChain env s)) = m_currentFrame s
   \<and> m_inFlightFences (state_of (RecreateSwapChain env s)) = m_inFlightFences s
   \<and> m_imageAvailableSemaphores (state_of (RecreateSwapChain env s)) =
       m_imageAvailableSemaphores s
   \<and> m_renderFinishedSemaphores (state_of (RecreateSwapChain env s)) =
       m_renderFinishedSemaphores s
   \<and> m_commandBuffers (state_of (RecreateSwapChain env s)) = m_commandBuffers s
   \<and> m_framebufferResized (state_of (RecreateSwapChain env s)) = m_framebufferResized s
   \<and> signaled_fences s \<subseteq> signaled_fences (state_of (RecreateSwapChain env s))
   \<and> set (gpu_pending (state_of (RecreateSwapChain env s))) \<subseteq> set (gpu_pending s)
   \<and> (fence_protocol s \<longrightarrow> fence_protocol (state_of (RecreateSwapChain env s)))"
proof (cases "RecreateSwapChain_wait (polledSizes env) 0")
  case None
  then have o: "outside_swapchain (state_of (RecreateSwapChain env s)) = outside_swapchain s"
    by (simp add: outside_swapchain_RecreateSwapChain)
  from outside_swapchain_members [OF o] fence_protocol_outside_swapchain [OF o]
  show ?thesis by simp
next
  case (Some n)
  then have o: "outside_swapchain (state_of (RecreateSwapChain env s)) =
                outside_swapchain (after_idle s)"
    by (simp add: outside_swapchain_RecreateSwapChain)
  from outside_swapchain_members [OF o] fence_protocol_outside_swapchain [OF o]
    fence_protocol_after_idle [of s]
  show ?thesis by (simp add: after_idle_def)
qed

lemma new_calls_same [simp]: "new_calls s s = []"
  by (simp add: new_calls_def)

lemma new_calls_issue [simp]: "new_calls s (issue c s) = [c]"
  by (simp add: new_calls_def issue_def)

text \<open>
  C2: in an iteration whose acquisition returns \<^verbatim>\<open>VK_ERROR_OUT_OF_DATE_KHR\<close>, what
  follows the acquisition is the swapchain recreation and nothing else. None of the
  calls of the iteration resets a fence, resets or records a command buffer, submits or
  presents; nothing is added to the submissions pending on the GPU and no fence loses its
  signal.
\<close>

theorem DrawFrame_stale_acquire_aborts:
  assumes "acquire_result env = VK_ERROR_OUT_OF_DATE_KHR"
  shows "(\<forall>c\<in>set (new_calls s (state_of (DrawFrame env s))). \<not> records_or_submits c)
         \<and> (\<forall>fence s1 imageAvailable.
               vector_at (m_inFlightFences s) (m_currentFrame s) = Some fence
               \<longrightarrow> wait_for_fence fence s = Returned s1
               \<longrightarrow> vector_at (m_imageAvailableSemaphores s) (m_currentFrame s) =
                     Some imageAvailable
               \<longrightarrow> DrawFrame env s =
                     RecreateSwapChain (recreation env)
                       (issue (vkAcquireNextImageKHR (m_swapChain s) imageAvailable) s1))
         \<and> set (gpu_pending (state_of (DrawFrame env s))) \<subseteq> set (gpu_pending s)
         \<and> signaled_fences s \<subseteq> signaled_fences (state_of (DrawFrame env s))"
proof (cases rule: DrawFrame_cases [of s env])
  case no_fence
  then show ?thesis by simp
next
  case (blocked fence)
  then show ?thesis
    by (simp add: records_or_submits_def) (simp add: issue_def)
next
  case (no_semaphore fence s1)
  from wait_for_fence_Returned [OF no_semaphore(2)] no_semaphore
  show ?thesis by (simp add: records_or_submits_def)
next
  case (stale fence s1 imageAvailable)
  let ?s2 = "issue (vkAcquireNextImageKHR (m_swapChain s) imageAvailable) s1"
  note w = wait_for_fence_Returned [OF stale(2)]
  from extends_calls_RecreateSwapChain [of ?s2 "recreation env"]
  obtain cs where
    c: "calls (state_of (RecreateSwapChain (recreation env) ?s2)) = calls ?s2 @ cs"
    and r: "\<forall>c\<in>set cs. recreation_call c"
    unfolding extends_calls_def by blast
  from c w(2) have "calls (state_of (DrawFrame env s)) =
      calls s @ ([vkWaitForFences fence, vkAcquireNextImageKHR (m_swapChain s) imageAvailable] @ cs)"
    by (simp add: stale(5) issue_def)
  then have n: "new_calls s (state_of (DrawFrame env s)) =
      [vkWaitForFences fence, vkAcquireNextImageKHR (m_swapChain s) imageAvailable] @ cs"
    by (rule new_calls_append)
  from r have "\<forall>c\<in>set cs. \<not> records_or_submits c"
    by (blast dest: recreation_call_not_records_or_submits)
  moreover have "\<not> records_or_submits (vkWaitForFences fence)"
    and "\<not> records_or_submits (vkAcquireNextImageKHR (m_swapChain s) imageAvailable)"
    by (simp_all add: records_or_submits_def)
  ultimately
  have quiet: "\<forall>c\<in>set (new_calls s (state_of (DrawFrame env s))). \<not> records_or_submits c"
    unfolding n by simp
  from RecreateSwapChain_frame_state [of "recreation env" ?s2] w(3,4)
  have "set (gpu_pending (state_of (DrawFrame env s))) \<subseteq> set (gpu_pending s)"
    and "signaled_fences s \<subseteq> signaled_fences (state_of (DrawFrame env s))"
    by (auto simp add: stale(5) issue_def)
  with quiet stale show ?thesis by simp
next
  case (failed fence s1 imageAvailable)
  with assms show ?thesis by simp
next
  case (usable fence s1 imageAvailable)
  with assms show ?thesis by simp
qed

text \<open>
  In the example a first iteration whose acquisition is stale rebuilds the chain (the
  handle 1 makes way for 26) and calls nothing that records, submits or presents.
\<close>

lemma DrawFrame_example_stale:
  "DrawFrame (example_frame VK_ERROR_OUT_OF_DATE_KHR 0 VK_SUCCESS 3) example_started =
     Returned
       (example_started
          \<lparr>m_swapChain := 26, m_swapChainImages := [27, 28, 29],
           m_swapChainImageViews := [30, 31, 32],
           m_swapChainFramebuffers := [33, 34, 35],
           calls := calls example_started @
             [vkWaitForFences 22, vkAcquireNextImageKHR 1 20,
              glfwGetFramebufferSize, vkDeviceWaitIdle,
              vkDestroyFramebuffer 13, vkDestroyFramebuffer 14, vkDestroyFramebuffer 15,
              vkDestroyImageView 5, vkDestroyImageView 6, vkDestroyImageView 7,
              vkDestroySwapchainKHR 1,
              vkCreateSwapchainKHR
                \<lparr>ci_minImageCount = 3, ci_imageFormat = VK_FORMAT_B8G8R8A8_UNORM,
                 ci_imageColorSpace = VK_COLOR_SPACE_SRGB_NONLINEAR_KHR,
                 ci_imageExtent = \<lparr>width = 800, height = 600\<rparr>,
                 ci_imageSharingMode = VK_SHARING_MODE_EXCLUSIVE,
                 ci_queueFamilyIndices = [], ci_preTransform = 1,
                 ci_presentMode = VK_PRESENT_MODE_MAILBOX_KHR,
                 ci_oldSwapchain = 0\<rparr>,
              vkCreateImageView 27 VK_FORMAT_B8G8R8A8_UNORM,
              vkCreateImageView 28 VK_FORMAT_B8G8R8A8_UNORM,
              vkCreateImageView 29 VK_FORMAT_B8G8R8A8_UNORM,
              vkCreateFramebuffer 8 30 \<lparr>width = 800, height = 600\<rparr>,
              vkCreateFramebuffer 8 31 \<lparr>width = 800, height = 600\<rparr>,
              vkCreateFramebuffer 8 32 \<lparr>width = 800, height = 600\<rparr>],
           next_handle := 35\<rparr>)"
  unfolding example_started_def InitVulkan_example state_of.simps
  by (simp add: evaluation_defs)

theorem DrawFrame_stale_acquire_aborts_witness:
  "acquire_result (example_frame VK_ERROR_OUT_OF_DATE_KHR 0 VK_SUCCESS 3) =
     VK_ERROR_OUT_OF_DATE_KHR
   \<and> (\<exists>s'. DrawFrame (example_frame VK_ERROR_OUT_OF_DATE_KHR 0 VK_SUCCESS 3) example_started =
            Returned s'
          \<and> m_swapChain s' = 26
          \<and> list_all (\<lambda>c. \<not> records_or_submits c) (new_calls example_started s')
          \<and> gpu_pending s' = [])"
proof -
  have a: "acquire_result (example_frame VK_ERROR_OUT_OF_DATE_KHR 0 VK_SUCCESS 3) =
     VK_ERROR_OUT_OF_DATE_KHR"
    by (simp add: example_frame_def)
  from DrawFrame_stale_acquire_aborts [OF a, of example_started] a
  show ?thesis
    by (simp add: DrawFrame_example_stale list_all_iff example_started_members)
qed

lemma DrawFrame_stale_calls:
  assumes "wait_for_fence fence s = Returned s1"
  shows "\<exists>cs. new_calls s (state_of (RecreateSwapChain renv
                  (issue (vkAcquireNextImageKHR (m_swapChain s) imageAvailable) s1))) =
           [vkWaitForFences fence, vkAcquireNextImageKHR (m_swapChain s) imageAvailable] @ cs
         \<and> (\<forall>c\<in>set cs. recreation_call c)"
proof -
  let ?s2 = "issue (vkAcquireNextImageKHR (m_swapChain s) imageAvailable) s1"
  from extends_calls_RecreateSwapChain [of ?s2 renv]
  obtain cs where
    c: "calls (state_of (RecreateSwapChain renv ?s2)) = calls ?s2 @ cs"
    and r: "\<forall>c\<in>set cs. recreation_call c"
    unfolding extends_calls_def by blast
  from c wait_for_fence_Returned(2) [OF assms]
  have "calls (state_of (RecreateSwapChain renv ?s2)) =
      calls s @ ([vkWaitForFences fence, vkAcquireNextImageKHR (m_swapChain s) imageAvailable] @ cs)"
    by (simp add: issue_def)
  then have "new_calls s (state_of (RecreateSwapChain renv ?s2)) =
      [vkWaitForFences fence, vkAcquireNextImageKHR (m_swapChain s) imageAvailable] @ cs"
    by (rule new_calls_append)
  with r show ?thesis by blast
qed

lemma wait_for_fence_signaled:
  "fence \<in> signaled_fences s
   \<Longrightarrow> wait_for_fence fence s = Returned (issue (vkWaitForFences fence) s)"
  by (simp add: wait_for_fence_def Let_def issue_def)

text \<open>
  C10: when an iteration has passed its admission wait and aborts on a stale acquisition,
  the frame index and the fences of the slots are what they were, the fence of the slot is
  signaled and was not reset, and so the next iteration reads the same fence and its wait
  returns at once, with nothing to wait for.
\<close>

theorem DrawFrame_stale_acquire_keeps_slot:
  assumes "acquire_result env = VK_ERROR_OUT_OF_DATE_KHR"
    and "vector_at (m_inFlightFences s) (m_currentFrame s) = Some fence"
    and "wait_for_fence fence s = Returned s1"
    and "vector_at (m_imageAvailableSemaphores s) (m_currentFrame s) = Some imageAvailable"
  shows "m_currentFrame (state_of (DrawFrame env s)) = m_currentFrame s
         \<and> m_inFlightFences (state_of (DrawFrame env s)) = m_inFlightFences s
         \<and> fence \<in> signaled_fences (state_of (DrawFrame env s))
         \<and> vkResetFences fence \<notin> set (new_calls s (state_of (DrawFrame env s)))
         \<and> vector_at (m_inFlightFences (state_of (DrawFrame env s)))
               (m_currentFrame (state_of (DrawFrame env s))) = Some fence
         \<and> wait_for_fence fence (state_of (DrawFrame env s)) =
               Returned (issue (vkWaitForFences fence) (state_of (DrawFrame env s)))"
proof -
  let ?s2 = "issue (vkAcquireNextImageKHR (m_swapChain s) imageAvailable) s1"
  note m = wait_for_fence_members [OF assms(3)]
  have run: "DrawFrame env s = RecreateSwapChain (recreation env) ?s2"
    using assms m by (simp add: DrawFrame_def Let_def)
  from RecreateSwapChain_frame_state [of "recreation env" ?s2] m
    wait_for_fence_Returned(1) [OF assms(3)]
  have frame: "m_currentFrame (state_of (DrawFrame env s)) = m_currentFrame s"
    and fences: "m_inFlightFences (state_of (DrawFrame env s)) = m_inFlightFences s"
    and signaled: "fence \<in> signaled_fences (state_of (DrawFrame env s))"
    unfolding run by (auto simp add: issue_def)
  from DrawFrame_stale_calls [OF assms(3), of "recreation env" imageAvailable]
  obtain cs where
    n: "new_calls s (state_of (DrawFrame env s)) =
          [vkWaitForFences fence, vkAcquireNextImageKHR (m_swapChain s) imageAvailable] @ cs"
    and r: "\<forall>c\<in>set cs. recreation_call c"
    unfolding run by blast
  have "\<not> recreation_call (vkResetFences fence)"
    by (simp add: recreation_call_def)
  with r have "vkResetFences fence \<notin> set cs" by blast
  with n have no_reset: "vkResetFences fence \<notin> set (new_calls s (state_of (DrawFrame env s)))"
    by simp
  from frame fences assms(2)
  have same: "vector_at (m_inFlightFences (state_of (DrawFrame env s)))
               (m_currentFrame (state_of (DrawFrame env s))) = Some fence"
    by simp
  from frame fences signaled no_reset same wait_for_fence_signaled [OF signaled]
  show ?thesis by simp
qed

text \<open>
  In the example the stale first iteration leaves the frame index at 0 with fence 22
  signaled, and the wait of the next iteration on fence 22 returns.
\<close>

theorem DrawFrame_stale_acquire_keeps_slot_witness:
  "acquire_result (example_frame VK_ERROR_OUT_OF_DATE_KHR 0 VK_SUCCESS 3) =
     VK_ERROR_OUT_OF_DATE_KHR
   \<and> vector_at (m_inFlightFences example_started) (m_currentFrame example_started) = Some 22
   \<and> wait_for_fence 22 example_started = Returned (issue (vkWaitForFences 22) example_started)
   \<and> vector_at (m_imageAvailableSemaphores example_started) (m_currentFrame example_started) =
       Some 20
   \<and> (\<exists>s'. DrawFrame (example_frame VK_ERROR_OUT_OF_DATE_KHR 0 VK_SUCCESS 3) example_started =
            Returned s'
          \<and> m_currentFrame s' = 0 \<and> 22 \<in> signaled_fences s'
          \<and> wait_for_fence 22 s' = Returned (issue (vkWaitForFences 22) s'))"
proof -
  have a: "acquire_result (example_frame VK_ERROR_OUT_OF_DATE_KHR 0 VK_SUCCESS 3) =
     VK_ERROR_OUT_OF_DATE_KHR"
    by (simp add: example_frame_def)
  have f: "vector_at (m_inFlightFences example_started) (m_currentFrame example_started) = Some 22"
    by (simp add: example_started_members vector_at_def)
  have w: "wait_for_fence 22 example_started = Returned (issue (vkWaitForFences 22) example_started)"
    by (simp add: wait_for_fence_signaled example_started_members)
  have i: "vector_at (m_imageAvailableSemaphores example_started) (m_currentFrame example_started) =
       Some 20"
    by (simp add: example_started_members vector_at_def)
  from DrawFrame_stale_acquire_keeps_slot [OF a f w i] a f w i
  show ?thesis
    by (simp add: DrawFrame_example_stale example_started_members)
qed

section \<open>The usable path\<close>

lemma and_then_assoc:
  "and_then (and_then r f) g = and_then r (\<lambda>s. and_then (f s) g)"
  by (cases r) simp_all

text \<open>
  The first two parts together, from the state after the acquisition: either a submission
  signalling the fence of the slot is pending, or the iteration has ended in an exception;
  either way the fence was reset and the calls record or submit, never present.
\<close>

lemma DrawFrame_record_outcome:
  "(\<exists>s'. DrawFrame_record env fence s = Returned s')
   \<or> (\<exists>msg s'. DrawFrame_record env fence s = Thrown msg s')"
  by (simp add: DrawFrame_record_def RecordCommandBuffer_def Let_def split: option.splits)

lemma DrawFrame_record_submit_effect:
  "\<exists>cs. (\<forall>c\<in>set cs. records_or_submits c \<and> \<not> presents c \<and> slot_call fence c)
     \<and> ((\<exists>commandBuffer.
            and_then (DrawFrame_record env fence s) (DrawFrame_submit env fence imageAvailable) =
              Returned (s\<lparr>signaled_fences := signaled_fences s - {fence},
                          gpu_pending := gpu_pending s @
                            [\<lparr>sub_commandBuffer = commandBuffer, sub_fence = fence\<rparr>],
                          calls := calls s @ cs\<rparr>))
         \<or> (\<exists>msg.
            and_then (DrawFrame_record env fence s) (DrawFrame_submit env fence imageAvailable) =
              Thrown msg (s\<lparr>signaled_fences := signaled_fences s - {fence},
                            calls := calls s @ cs\<rparr>)))"
proof -
  from DrawFrame_record_effect [of env fence s] obtain cs1 where
    st: "state_of (DrawFrame_record env fence s) =
          s\<lparr>signaled_fences := signaled_fences s - {fence}, calls := calls s @ cs1\<rparr>"
    and q1: "\<forall>c\<in>set cs1. records_or_submits c \<and> \<not> presents c \<and> slot_call fence c"
    by blast
  let ?s3 = "s\<lparr>signaled_fences := signaled_fences s - {fence}, calls := calls s @ cs1\<rparr>"
  have shape: "DrawFrame_record env fence s = Returned ?s3
               \<or> (\<exists>msg. DrawFrame_record env fence s = Thrown msg ?s3)"
    using st DrawFrame_record_outcome [of env fence s]
    by (cases "DrawFrame_record env fence s") simp_all
  then show ?thesis
  proof
    assume ret: "DrawFrame_record env fence s = Returned ?s3"
    from DrawFrame_submit_effect [of fence env imageAvailable ?s3] obtain cs2 where
      q2: "\<forall>c\<in>set cs2. records_or_submits c \<and> \<not> presents c \<and> slot_call fence c"
      and sub: "(\<exists>commandBuffer. DrawFrame_submit env fence imageAvailable ?s3 =
               Returned (?s3\<lparr>gpu_pending := gpu_pending ?s3 @
                                 [\<lparr>sub_commandBuffer = commandBuffer, sub_fence = fence\<rparr>],
                            calls := calls ?s3 @ cs2\<rparr>))
           \<or> (\<exists>msg. DrawFrame_submit env fence imageAvailable ?s3 =
                 Thrown msg (?s3\<lparr>calls := calls ?s3 @ cs2\<rparr>))"
      by blast
    from q1 q2 have q: "\<forall>c\<in>set (cs1 @ cs2).
                          records_or_submits c \<and> \<not> presents c \<and> slot_call fence c"
      by auto
    from sub ret have "(\<exists>commandBuffer.
            and_then (DrawFrame_record env fence s) (DrawFrame_submit env fence imageAvailable) =
              Returned (s\<lparr>signaled_fences := signaled_fences s - {fence},
                          gpu_pending := gpu_pending s @
                            [\<lparr>sub_commandBuffer = commandBuffer, sub_fence = fence\<rparr>],
                          calls := calls s @ (cs1 @ cs2)\<rparr>))
         \<or> (\<exists>msg.
            and_then (DrawFrame_record env fence s) (DrawFrame_submit env fence imageAvailable) =
              Thrown msg (s\<lparr>signaled_fences := signaled_fences s - {fence},
                            calls := calls s @ (cs1 @ cs2)\<rparr>))"
      by auto
    with q show ?thesis by blast
  next
    assume "\<exists>msg. DrawFrame_record env fence s = Thrown msg ?s3"
    then have "\<exists>msg.
            and_then (DrawFrame_record env fence s) (DrawFrame_submit env fence imageAvailable) =
              Thrown msg ?s3"
      by auto
    with q1 show ?thesis by blast
  qed
qed

lemma DrawFrame_usable:
  "and_then (DrawFrame_record env fence s2)
     (\<lambda>s3. and_then (DrawFrame_submit env fence imageAvailable s3)
              (\<lambda>s4. DrawFrame_present env s4)) =
   and_then (and_then (DrawFrame_record env fence s2) (DrawFrame_submit env fence imageAvailable))
     (DrawFrame_present env)"
  by (simp add: and_then_assoc)

text \<open>
  The calls of an iteration with a usable acquisition: up to the presentation none presents
  and none queries the framebuffer size; if the presentation is reached, what follows it is
  a recreation exactly under the condition the source tests after it.
\<close>

lemma DrawFrame_usable_calls:
  assumes "wait_for_fence fence s = Returned s1"
    and "acquire_result env = VK_SUCCESS \<or> acquire_result env = VK_SUBOPTIMAL_KHR"
    and "DrawFrame env s =
         and_then (DrawFrame_record env fence
                     (issue (vkAcquireNextImageKHR (m_swapChain s) imageAvailable) s1))
           (\<lambda>s3. and_then (DrawFrame_submit env fence imageAvailable s3)
                    (\<lambda>s4. DrawFrame_present env s4))"
  shows "\<exists>cs rest. new_calls s (state_of (DrawFrame env s)) = cs @ rest
           \<and> (\<forall>c\<in>set cs. \<not> presents c \<and> c \<noteq> glfwGetFramebufferSize)
           \<and> (rest = []
               \<or> (\<exists>p after. rest = p # after \<and> presents p
                    \<and> (if VK_ERROR_OUT_OF_DATE_KHR = queuePresent_result env
                           \<or> VK_SUBOPTIMAL_KHR = queuePresent_result env
                           \<or> m_framebufferResized s
                        then \<exists>cs'. after = glfwGetFramebufferSize # cs' else after = [])))"
proof -
  let ?s2 = "issue (vkAcquireNextImageKHR (m_swapChain s) imageAvailable) s1"
  let ?pre = "and_then (DrawFrame_record env fence ?s2) (DrawFrame_submit env fence imageAvailable)"
  note w = wait_for_fence_Returned [OF assms(1)]
  note m = wait_for_fence_members [OF assms(1)]
  have run: "DrawFrame env s = and_then ?pre (DrawFrame_present env)"
    using assms(3) by (simp add: and_then_assoc)
  from DrawFrame_record_submit_effect [of fence env ?s2 imageAvailable] obtain cs where
    q: "\<forall>c\<in>set cs. records_or_submits c \<and> \<not> presents c \<and> slot_call fence c"
    and shape: "(\<exists>commandBuffer. ?pre =
              Returned (?s2\<lparr>signaled_fences := signaled_fences ?s2 - {fence},
                          gpu_pending := gpu_pending ?s2 @
                            [\<lparr>sub_commandBuffer = commandBuffer, sub_fence = fence\<rparr>],
                          calls := calls ?s2 @ cs\<rparr>))
         \<or> (\<exists>msg. ?pre =
              Thrown msg (?s2\<lparr>signaled_fences := signaled_fences ?s2 - {fence},
                            calls := calls ?s2 @ cs\<rparr>))"
    by blast
  let ?head = "[vkWaitForFences fence, vkAcquireNextImageKHR (m_swapChain s) imageAvailable] @ cs"
  have "records_or_submits c \<Longrightarrow> c \<noteq> glfwGetFramebufferSize" for c
    by (auto simp add: records_or_submits_def)
  with q have head: "\<forall>c\<in>set ?head. \<not> presents c \<and> c \<noteq> glfwGetFramebufferSize"
    by (auto simp add: presents_def)
  have c2: "calls ?s2 @ cs = calls s @ ?head"
    using w(2) by (simp add: issue_def)
  from shape show ?thesis
  proof
    assume "\<exists>msg. ?pre =
              Thrown msg (?s2\<lparr>signaled_fences := signaled_fences ?s2 - {fence},
                            calls := calls ?s2 @ cs\<rparr>)"
    then have "calls (state_of (DrawFrame env s)) = calls s @ ?head"
      unfolding run using c2 by auto
    then have "new_calls s (state_of (DrawFrame env s)) = ?head @ []"
      by (simp add: new_calls_def)
    with head show ?thesis by blast
  next
    assume "\<exists>commandBuffer. ?pre =
              Returned (?s2\<lparr>signaled_fences := signaled_fences ?s2 - {fence},
                          gpu_pending := gpu_pending ?s2 @
                            [\<lparr>sub_commandBuffer = commandBuffer, sub_fence = fence\<rparr>],
                          calls := calls ?s2 @ cs\<rparr>)"
    then obtain commandBuffer where
      pre: "?pre = Returned (?s2\<lparr>signaled_fences := signaled_fences ?s2 - {fence},
                          gpu_pending := gpu_pending ?s2 @
                            [\<lparr>sub_commandBuffer = commandBuffer, sub_fence = fence\<rparr>],
                          calls := calls ?s2 @ cs\<rparr>)"
      by blast
    let ?s4 = "?s2\<lparr>signaled_fences := signaled_fences ?s2 - {fence},
                          gpu_pending := gpu_pending ?s2 @
                            [\<lparr>sub_commandBuffer = commandBuffer, sub_fence = fence\<rparr>],
                          calls := calls ?s2 @ cs\<rparr>"
    have run4: "DrawFrame env s = DrawFrame_present env ?s4"
      unfolding run pre by simp
    have c4: "calls ?s4 = calls s @ ?head"
      using c2 by simp
    have r4: "m_framebufferResized ?s4 = m_framebufferResized s"
      using m by (simp add: issue_def)
    show ?thesis
    proof (cases "vector_at (m_renderFinishedSemaphores ?s4) (m_currentFrame ?s4)")
      case None
      then have "DrawFrame env s = Thrown ''out_of_range'' ?s4"
        unfolding run4 by (simp add: DrawFrame_present_def)
      with c4 have "new_calls s (state_of (DrawFrame env s)) = ?head @ []"
        by (simp add: new_calls_def)
      with head show ?thesis by blast
    next
      case (Some renderFinished)
      from DrawFrame_present_calls [OF Some, of env] obtain after where
        a: "calls (state_of (DrawFrame_present env ?s4)) =
             calls ?s4 @ vkQueuePresentKHR renderFinished (m_swapChain ?s4) (acquire_imageIndex env)
               # after"
        and cond: "if VK_ERROR_OUT_OF_DATE_KHR = queuePresent_result env
                \<or> VK_SUBOPTIMAL_KHR = queuePresent_result env \<or> m_framebufferResized ?s4
             then \<exists>cs'. after = glfwGetFramebufferSize # cs' else after = []"
        by blast
      let ?p = "vkQueuePresentKHR renderFinished (m_swapChain ?s4) (acquire_imageIndex env)"
      from a c4 have "calls (state_of (DrawFrame env s)) = calls s @ (?head @ (?p # after))"
        unfolding run4 by simp
      then have n: "new_calls s (state_of (DrawFrame env s)) = ?head @ (?p # after)"
        by (rule new_calls_append)
      have "presents ?p" by (simp add: presents_def)
      with n head cond r4 show ?thesis
        by (intro exI [of _ ?head] exI [of _ "?p # after"]) simp
    qed
  qed
qed

section \<open>A suboptimal acquisition\<close>

text \<open>
  The first iteration of the example with a suboptimal acquisition and a successful
  presentation: the frame is recorded into command buffer 17, submitted with fence 22 and
  presented, and the frame index moves to 1.
\<close>

lemma DrawFrame_example_suboptimal:
  "DrawFrame (example_frame VK_SUBOPTIMAL_KHR 0 VK_SUCCESS 3) example_started =
     Returned
       (example_started
          \<lparr>m_currentFrame := 1, signaled_fences := {25},
           gpu_pending := [\<lparr>sub_commandBuffer = 17, sub_fence = 22\<rparr>],
           calls := calls example_started @
             [vkWaitForFences 22, vkAcquireNextImageKHR 1 20, vkResetFences 22,
              vkResetCommandBuffer 17, vkBeginCommandBuffer 17,
              vkCmdBeginRenderPass 17 8 13 \<lparr>width = 800, height = 600\<rparr>,
              vkCmdBindPipeline 17 12,
              vkCmdSetViewport 17 \<lparr>width = 800, height = 600\<rparr>,
              vkCmdSetScissor 17 \<lparr>width = 800, height = 600\<rparr>,
              vkCmdDraw 17 3 1 0 0, vkCmdEndRenderPass 17, vkEndCommandBuffer 17,
              vkQueueSubmit 17 20 21 22, vkQueuePresentKHR 21 1 0]\<rparr>)"
  unfolding example_started_def InitVulkan_example state_of.simps
  by (simp add: evaluation_defs)

text \<open>
  C3, as stated, fails: in that iteration the acquisition is suboptimal, the presentation
  succeeds and no resize is flagged, and the iteration presents and returns without
  running a recreation; the chain is the one it was.
\<close>

theorem DrawFrame_suboptimal_acquire_no_recreation:
  "acquire_result (example_frame VK_SUBOPTIMAL_KHR 0 VK_SUCCESS 3) = VK_SUBOPTIMAL_KHR
   \<and> queuePresent_result (example_frame VK_SUBOPTIMAL_KHR 0 VK_SUCCESS 3) = VK_SUCCESS
   \<and> \<not> m_framebufferResized example_started
   \<and> (\<exists>s'. DrawFrame (example_frame VK_SUBOPTIMAL_KHR 0 VK_SUCCESS 3) example_started =
            Returned s'
          \<and> vkQueuePresentKHR 21 1 0 \<in> set (new_calls example_started s')
          \<and> \<not> recreation_invoked (new_calls example_started s')
          \<and> vkDestroySwapchainKHR 1 \<notin> set (new_calls example_started s')
          \<and> m_swapChain s' = m_swapChain example_started)"
proof -
  have "acquire_result (example_frame VK_SUBOPTIMAL_KHR 0 VK_SUCCESS 3) = VK_SUBOPTIMAL_KHR"
    and "queuePresent_result (example_frame VK_SUBOPTIMAL_KHR 0 VK_SUCCESS 3) = VK_SUCCESS"
    by (simp_all add: example_frame_def)
  then show ?thesis
    by (simp add: DrawFrame_example_suboptimal example_started_members recreation_invoked_def)
qed

lemma RecordCommandBuffer_acquire_result [simp]:
  "RecordCommandBuffer (env\<lparr>acquire_result := r\<rparr>) commandBuffer framebuffer s =
     RecordCommandBuffer env commandBuffer framebuffer s"
  by (simp add: RecordCommandBuffer_def Let_def cong: if_cong)

lemma DrawFrame_record_acquire_result [simp]:
  "DrawFrame_record (env\<lparr>acquire_result := r\<rparr>) fence s = DrawFrame_record env fence s"
  by (simp add: DrawFrame_record_def Let_def cong: option.case_cong)

lemma DrawFrame_submit_acquire_result [simp]:
  "DrawFrame_submit (env\<lparr>acquire_result := r\<rparr>) fence imageAvailable s =
     DrawFrame_submit env fence imageAvailable s"
  by (simp add: DrawFrame_submit_def Let_def cong: option.case_cong if_cong)

lemma DrawFrame_present_acquire_result [simp]:
  "DrawFrame_present (env\<lparr>acquire_result := r\<rparr>) s = DrawFrame_present env s"
  by (simp add: DrawFrame_present_def Let_def cong: option.case_cong if_cong)

lemma DrawFrame_suboptimal_is_success:
  "DrawFrame (env\<lparr>acquire_result := VK_SUBOPTIMAL_KHR\<rparr>) s =
   DrawFrame (env\<lparr>acquire_result := VK_SUCCESS\<rparr>) s"
  by (simp add: DrawFrame_def Let_def cong: option.case_cong if_cong)

lemma DrawFrame_recreates_iff:
  assumes "acquire_result env = VK_SUCCESS \<or> acquire_result env = VK_SUBOPTIMAL_KHR"
    and "\<exists>c\<in>set (new_calls s (state_of (DrawFrame env s))). presents c"
  shows "recreation_invoked (new_calls s (state_of (DrawFrame env s))) \<longleftrightarrow>
           VK_ERROR_OUT_OF_DATE_KHR = queuePresent_result env
           \<or> VK_SUBOPTIMAL_KHR = queuePresent_result env
           \<or> m_framebufferResized s"
proof (cases rule: DrawFrame_cases [of s env])
  case no_fence
  with assms(2) show ?thesis by simp
next
  case (blocked fence)
  with assms(2) show ?thesis by (simp add: presents_def)
next
  case (no_semaphore fence s1)
  from wait_for_fence_Returned(2) [OF no_semaphore(2)] no_semaphore(4) assms(2)
  show ?thesis by (simp add: presents_def)
next
  case (stale fence s1 imageAvailable)
  with assms(1) show ?thesis by simp
next
  case (failed fence s1 imageAvailable)
  with assms(1) show ?thesis by simp
next
  case (usable fence s1 imageAvailable)
  from DrawFrame_usable_calls [OF usable(2) usable(4) usable(5)] obtain cs rest where
    n: "new_calls s (state_of (DrawFrame env s)) = cs @ rest"
    and head: "\<forall>c\<in>set cs. \<not> presents c \<and> c \<noteq> glfwGetFramebufferSize"
    and rest: "rest = []
               \<or> (\<exists>p after. rest = p # after \<and> presents p
                    \<and> (if VK_ERROR_OUT_OF_DATE_KHR = queuePresent_result env
                           \<or> VK_SUBOPTIMAL_KHR = queuePresent_result env
                           \<or> m_framebufferResized s
                        then \<exists>cs'. after = glfwGetFramebufferSize # cs' else after = []))"
    by blast
  from assms(2) n head have "rest \<noteq> []" by auto
  with rest obtain p after where
    r: "rest = p # after" and p: "presents p"
    and cond: "if VK_ERROR_OUT_OF_DATE_KHR = queuePresent_result env
                           \<or> VK_SUBOPTIMAL_KHR = queuePresent_result env
                           \<or> m_framebufferResized s
               then \<exists>cs'. after = glfwGetFramebufferSize # cs' else after = []"
    by blast
  from p have pg: "p \<noteq> glfwGetFramebufferSize"
    by (auto simp add: presents_def)
  from head have hg: "glfwGetFramebufferSize \<notin> set cs" by blast
  show ?thesis
  proof (cases "VK_ERROR_OUT_OF_DATE_KHR = queuePresent_result env
                \<or> VK_SUBOPTIMAL_KHR = queuePresent_result env \<or> m_framebufferResized s")
    case True
    with cond obtain cs' where "after = glfwGetFramebufferSize # cs'" by auto
    with n r True show ?thesis by (simp add: recreation_invoked_def)
  next
    case False
    with cond have "after = []" by simp
    with n r pg hg False show ?thesis by (simp add: recreation_invoked_def)
  qed
qed

text \<open>
  C3, amended: an iteration whose acquisition is suboptimal runs exactly as the iteration
  with a successful acquisition and otherwise the same answers does; the acquisition
  raises no flag. Where such an iteration reaches the presentation, it runs a swapchain
  recreation after it exactly when the presentation returned out-of-date or suboptimal or
  the resize flag was set.
\<close>

theorem DrawFrame_suboptimal_acquire_as_success:
  "DrawFrame (env\<lparr>acquire_result := VK_SUBOPTIMAL_KHR\<rparr>) s =
     DrawFrame (env\<lparr>acquire_result := VK_SUCCESS\<rparr>) s
   \<and> (acquire_result env = VK_SUBOPTIMAL_KHR
        \<longrightarrow> (\<exists>c\<in>set (new_calls s (state_of (DrawFrame env s))). presents c)
        \<longrightarrow> (recreation_invoked (new_calls s (state_of (DrawFrame env s))) \<longleftrightarrow>
               VK_ERROR_OUT_OF_DATE_KHR = queuePresent_result env
               \<or> VK_SUBOPTIMAL_KHR = queuePresent_result env
               \<or> m_framebufferResized s))"
  using DrawFrame_suboptimal_is_success [of env s] DrawFrame_recreates_iff [of env s]
  by blast

text \<open>
  In the example: with a suboptimal acquisition and a suboptimal presentation the
  iteration recreates the chain after presenting; with a suboptimal acquisition and a
  successful presentation it does not.
\<close>

theorem DrawFrame_suboptimal_acquire_as_success_witness:
  "DrawFrame (example_frame VK_SUBOPTIMAL_KHR 0 VK_SUBOPTIMAL_KHR 3) example_started =
     DrawFrame (example_frame VK_SUCCESS 0 VK_SUBOPTIMAL_KHR 3) example_started
   \<and> recreation_invoked (new_calls example_started
        (state_of (DrawFrame (example_frame VK_SUBOPTIMAL_KHR 0 VK_SUBOPTIMAL_KHR 3)
                     example_started)))
   \<and> \<not> recreation_invoked (new_calls example_started
        (state_of (DrawFrame (example_frame VK_SUBOPTIMAL_KHR 0 VK_SUCCESS 3)
                     example_started)))"
proof -
  let ?both = "example_frame VK_SUBOPTIMAL_KHR 0 VK_SUBOPTIMAL_KHR 3"
  let ?one = "example_frame VK_SUBOPTIMAL_KHR 0 VK_SUCCESS 3"
  have both: "acquire_result ?both = VK_SUBOPTIMAL_KHR"
    "queuePresent_result ?both = VK_SUBOPTIMAL_KHR"
    "?both\<lparr>acquire_result := VK_SUBOPTIMAL_KHR\<rparr> = ?both"
    "?both\<lparr>acquire_result := VK_SUCCESS\<rparr> = example_frame VK_SUCCESS 0 VK_SUBOPTIMAL_KHR 3"
    by (simp_all add: example_frame_def)
  have one: "acquire_result ?one = VK_SUBOPTIMAL_KHR"
    "queuePresent_result ?one = VK_SUCCESS"
    by (simp_all add: example_frame_def)
  note at_both = DrawFrame_suboptimal_acquire_as_success [of ?both example_started]
  note at_one = DrawFrame_suboptimal_acquire_as_success [of ?one example_started]
  from at_both have same: "DrawFrame ?both example_started =
     DrawFrame (example_frame VK_SUCCESS 0 VK_SUBOPTIMAL_KHR 3) example_started"
    by (simp only: both)
  have "list_ex presents (new_calls example_started (state_of (DrawFrame ?both example_started)))"
    unfolding example_started_def InitVulkan_example state_of.simps
    by (simp add: evaluation_defs new_calls_def presents_def)
  then have "\<exists>c\<in>set (new_calls example_started (state_of (DrawFrame ?both example_started))).
               presents c"
    by (simp add: list_ex_iff)
  with at_both both(1,2) have "recreation_invoked (new_calls example_started
        (state_of (DrawFrame ?both example_started)))"
    by simp
  moreover have "\<exists>c\<in>set (new_calls example_started (state_of (DrawFrame ?one example_started))).
               presents c"
    by (simp add: DrawFrame_example_suboptimal presents_def)
  with at_one one have "\<not> recreation_invoked (new_calls example_started
        (state_of (DrawFrame ?one example_started)))"
    by (simp add: example_started_members)
  ultimately show ?thesis using same by simp
qed

section \<open>Initialisation\<close>

text \<open>
  The stages of \<^verbatim>\<open>InitVulkan\<close> outside the swapchain leave the swapchain vectors, the
  frame index and the GPU queue alone.
\<close>

lemma CreateInstance_keeps:
  "m_swapChainImages (state_of (CreateInstance env s)) = m_swapChainImages s
   \<and> m_swapChainImageViews (state_of (CreateInstance env s)) = m_swapChainImageViews s
   \<and> m_swapChainFramebuffers (state_of (CreateInstance env s)) = m_swapChainFramebuffers s
   \<and> m_commandBuffers (state_of (CreateInstance env s)) = m_commandBuffers s
   \<and> m_currentFrame (state_of (CreateInstance env s)) = m_currentFrame s
   \<and> gpu_pending (state_of (CreateInstance env s)) = gpu_pending s"
  by (simp add: CreateInstance_def Let_def issue_def)

lemma SetupDebugCallback_keeps:
  "m_swapChainImages (state_of (SetupDebugCallback env s)) = m_swapChainImages s
   \<and> m_swapChainImageViews (state_of (SetupDebugCallback env s)) = m_swapChainImageViews s
   \<and> m_swapChainFramebuffers (state_of (SetupDebugCallback env s)) = m_swapChainFramebuffers s
   \<and> m_commandBuffers (state_of (SetupDebugCallback env s)) = m_commandBuffers s
   \<and> m_currentFrame (state_of (SetupDebugCallback env s)) = m_currentFrame s
   \<and> gpu_pending (state_of (SetupDebugCallback env s)) = gpu_pending s"
  by (simp add: SetupDebugCallback_def Let_def issue_def)

lemma CreateSurface_keeps:
  "m_swapChainImages (state_of (CreateSurface env s)) = m_swapChainImages s
   \<and> m_swapChainImageViews (state_of (CreateSurface env s)) = m_swapChainImageViews s
   \<and> m_swapChainFramebuffers (state_of (CreateSurface env s)) = m_swapChainFramebuffers s
   \<and> m_commandBuffers (state_of (CreateSurface env s)) = m_commandBuffers s
   \<and> m_currentFrame (state_of (CreateSurface env s)) = m_currentFrame s
   \<and> gpu_pending (state_of (CreateSurface env s)) = gpu_pending s"
  by (simp add: CreateSurface_def Let_def issue_def)

lemma PickPhysicalDevice_keeps:
  "m_swapChainImages (state_of (PickPhysicalDevice devices s)) = m_swapChainImages s
   \<and> m_swapChainImageViews (state_of (PickPhysicalDevice devices s)) = m_swapChainImageViews s
   \<and> m_swapChainFramebuffers (state_of (PickPhysicalDevice devices s)) =
       m_swapChainFramebuffers s
   \<and> m_commandBuffers (state_of (PickPhysicalDevice devices s)) = m_commandBuffers s
   \<and> m_currentFrame (state_of (PickPhysicalDevice devices s)) = m_currentFrame s
   \<and> gpu_pending (state_of (PickPhysicalDevice devices s)) = gpu_pending s"
  by (simp add: PickPhysicalDevice_def Let_def PickPhysicalDevice_loop_find split: option.splits)

lemma CreateLogicalDevice_keeps:
  "m_swapChainImages (state_of (CreateLogicalDevice env s)) = m_swapChainImages s
   \<and> m_swapChainImageViews (state_of (CreateLogicalDevice env s)) = m_swapChainImageViews s
   \<and> m_swapChainFramebuffers (state_of (CreateLogicalDevice env s)) = m_swapChainFramebuffers s
   \<and> m_commandBuffers (state_of (CreateLogicalDevice env s)) = m_commandBuffers s
   \<and> m_currentFrame (state_of (CreateLogicalDevice env s)) = m_currentFrame s
   \<and> gpu_pending (state_of (CreateLogicalDevice env s)) = gpu_pending s"
  by (simp add: CreateLogicalDevice_def Let_def issue_def split: option.splits)

lemma CreateRenderPass_keeps:
  "m_swapChainImages (state_of (CreateRenderPass env s)) = m_swapChainImages s
   \<and> m_swapChainImageViews (state_of (CreateRenderPass env s)) = m_swapChainImageViews s
   \<and> m_swapChainFramebuffers (state_of (CreateRenderPass env s)) = m_swapChainFramebuffers s
   \<and> m_commandBuffers (state_of (CreateRenderPass env s)) = m_commandBuffers s
   \<and> m_currentFrame (state_of (CreateRenderPass env s)) = m_currentFrame s
   \<and> gpu_pending (state_of (CreateRenderPass env s)) = gpu_pending s"
  by (simp add: CreateRenderPass_def Let_def issue_def take_handles_def)

lemma CreateGraphicsPipeline_keeps:
  "m_swapChainImages (state_of (CreateGraphicsPipeline env s)) = m_swapChainImages s
   \<and> m_swapChainImageViews (state_of (CreateGraphicsPipeline env s)) = m_swapChainImageViews s
   \<and> m_swapChainFramebuffers (state_of (CreateGraphicsPipeline env s)) =
       m_swapChainFramebuffers s
   \<and> m_commandBuffers (state_of (CreateGraphicsPipeline env s)) = m_commandBuffers s
   \<and> m_currentFrame (state_of (CreateGraphicsPipeline env s)) = m_currentFrame s
   \<and> gpu_pending (state_of (CreateGraphicsPipeline env s)) = gpu_pending s"
  by (simp add: CreateGraphicsPipeline_def Let_def issue_def take_handles_def)

lemma CreateCommandPool_keeps:
  "m_swapChainImages (state_of (CreateCommandPool env s)) = m_swapChainImages s
   \<and> m_swapChainImageViews (state_of (CreateCommandPool env s)) = m_swapChainImageViews s
   \<and> m_swapChainFramebuffers (state_of (CreateCommandPool env s)) = m_swapChainFramebuffers s
   \<and> m_commandBuffers (state_of (CreateCommandPool env s)) = m_commandBuffers s
   \<and> m_currentFrame (state_of (CreateCommandPool env s)) = m_currentFrame s
   \<and> gpu_pending (state_of (CreateCommandPool env s)) = gpu_pending s"
  by (simp add: CreateCommandPool_def Let_def issue_def take_handles_def split: option.splits)

lemma CreateCommandBuffers_keeps:
  "m_swapChainImages (state_of (CreateCommandBuffers env s)) = m_swapChainImages s
   \<and> m_swapChainImageViews (state_of (CreateCommandBuffers env s)) = m_swapChainImageViews s
   \<and> m_swapChainFramebuffers (state_of (CreateCommandBuffers env s)) =
       m_swapChainFramebuffers s
   \<and> m_currentFrame (state_of (CreateCommandBuffers env s)) = m_currentFrame s
   \<and> gpu_pending (state_of (CreateCommandBuffers env s)) = gpu_pending s
   \<and> (\<forall>s'. CreateCommandBuffers env s = Returned s'
         \<longrightarrow> length (m_commandBuffers s') = length (m_swapChainFramebuffers s))"
  by (auto simp add: CreateCommandBuffers_def Let_def issue_def take_handles_def
      fresh_handles_def Suc_le_eq)

lemma CreateSyncObjects_loop_keeps:
  "m_swapChainImages (state_of (CreateSyncObjects_loop env slots s)) = m_swapChainImages s
   \<and> m_swapChainImageViews (state_of (CreateSyncObjects_loop env slots s)) =
       m_swapChainImageViews s
   \<and> m_swapChainFramebuffers (state_of (CreateSyncObjects_loop env slots s)) =
       m_swapChainFramebuffers s
   \<and> m_commandBuffers (state_of (CreateSyncObjects_loop env slots s)) = m_commandBuffers s
   \<and> m_currentFrame (state_of (CreateSyncObjects_loop env slots s)) = m_currentFrame s
   \<and> gpu_pending (state_of (CreateSyncObjects_loop env slots s)) = gpu_pending s
   \<and> length (m_inFlightFences (state_of (CreateSyncObjects_loop env slots s))) =
       length (m_inFlightFences s)"
  by (induction slots arbitrary: s) (simp_all add: Let_def issue_def take_handles_def)

lemma CreateSyncObjects_keeps:
  "m_swapChainImages (state_of (CreateSyncObjects env s)) = m_swapChainImages s
   \<and> m_swapChainImageViews (state_of (CreateSyncObjects env s)) = m_swapChainImageViews s
   \<and> m_swapChainFramebuffers (state_of (CreateSyncObjects env s)) = m_swapChainFramebuffers s
   \<and> m_commandBuffers (state_of (CreateSyncObjects env s)) = m_commandBuffers s
   \<and> m_currentFrame (state_of (CreateSyncObjects env s)) = m_currentFrame s
   \<and> gpu_pending (state_of (CreateSyncObjects env s)) = gpu_pending s
   \<and> length (m_inFlightFences (state_of (CreateSyncObjects env s))) = MAX_FRAMES_IN_FLIGHT"
  unfolding CreateSyncObjects_def
  using CreateSyncObjects_loop_keeps
          [of env "[0 ..< MAX_FRAMES_IN_FLIGHT]"
              "s\<lparr>m_imageAvailableSemaphores :=
                    vector_resize MAX_FRAMES_IN_FLIGHT (m_imageAvailableSemaphores s),
                  m_renderFinishedSemaphores :=
                    vector_resize MAX_FRAMES_IN_FLIGHT (m_renderFinishedSemaphores s),
                  m_inFlightFences := vector_resize MAX_FRAMES_IN_FLIGHT (m_inFlightFences s)\<rparr>"]
  by (simp add: vector_resize_def)

text \<open>The two loops that build views and framebuffers fill the vector they resized.\<close>

lemma CreateImageViews_loop_Returned:
  assumes "CreateImageViews_loop env images i s = Returned s'"
  shows "length (m_swapChainImageViews s') = length (m_swapChainImageViews s)
         \<and> m_swapChainImages s' = m_swapChainImages s
         \<and> m_swapChainFramebuffers s' = m_swapChainFramebuffers s"
  using assms
proof (induction images arbitrary: i s)
  case Nil
  then show ?case by simp
next
  case (Cons swapChainImage images)
  from Cons.prems have ok: "VK_SUCCESS = createImageView_result env i"
    by (auto simp add: Let_def split: if_splits)
  let ?s1 = "issue (vkCreateImageView swapChainImage (m_swapChainImageFormat s)) s"
  let ?s2 = "take_handles 1
               (?s1\<lparr>m_swapChainImageViews :=
                      (m_swapChainImageViews ?s1)[i := hd (fresh_handles 1 ?s1)]\<rparr>)"
  from Cons.prems ok have "CreateImageViews_loop env images (i + 1) ?s2 = Returned s'"
    by (simp add: Let_def)
  from Cons.IH [OF this] show ?case
    by (simp add: issue_def take_handles_def)
qed

lemma CreateImageViews_Returned:
  assumes "CreateImageViews env s = Returned s'"
  shows "length (m_swapChainImageViews s') = length (m_swapChainImages s')
         \<and> m_swapChainImages s' = m_swapChainImages s"
  using CreateImageViews_loop_Returned [OF assms [unfolded CreateImageViews_def]]
  by (simp add: vector_resize_def)

lemma CreateFramebuffers_loop_Returned:
  assumes "CreateFramebuffers_loop env views i s = Returned s'"
  shows "length (m_swapChainFramebuffers s') = length (m_swapChainFramebuffers s)
         \<and> m_swapChainImages s' = m_swapChainImages s
         \<and> m_swapChainImageViews s' = m_swapChainImageViews s"
  using assms
proof (induction views arbitrary: i s)
  case Nil
  then show ?case by simp
next
  case (Cons imageView views)
  from Cons.prems have ok: "VK_SUCCESS = createFramebuffer_result env i"
    by (auto simp add: Let_def split: if_splits)
  let ?s1 = "issue (vkCreateFramebuffer (m_renderPass s) imageView (m_swapChainExtent s)) s"
  let ?s2 = "take_handles 1
               (?s1\<lparr>m_swapChainFramebuffers :=
                      (m_swapChainFramebuffers ?s1)[i := hd (fresh_handles 1 ?s1)]\<rparr>)"
  from Cons.prems ok have "CreateFramebuffers_loop env views (i + 1) ?s2 = Returned s'"
    by (simp add: Let_def)
  from Cons.IH [OF this] show ?case
    by (simp add: issue_def take_handles_def)
qed

lemma CreateFramebuffers_Returned:
  assumes "CreateFramebuffers env s = Returned s'"
  shows "length (m_swapChainFramebuffers s') = length (m_swapChainImageViews s')
         \<and> m_swapChainImages s' = m_swapChainImages s
         \<and> m_swapChainImageViews s' = m_swapChainImageViews s"
  using CreateFramebuffers_loop_Returned [OF assms [unfolded CreateFramebuffers_def]]
  by (simp add: vector_resize_def)

text \<open>
  A recreation that returns leaves as many images, views and framebuffers as the driver
  reported images for the new chain, and the command buffers as they were.
\<close>

lemma RecreateSwapChain_Returned:
  assumes "RecreateSwapChain env s = Returned s'"
  shows "length (m_swapChainImages s') = swapchain_imageCount (rebuild env)
         \<and> length (m_swapChainImageViews s') = length (m_swapChainImages s')
         \<and> length (m_swapChainFramebuffers s') = length (m_swapChainImages s')
         \<and> m_commandBuffers s' = m_commandBuffers s"
proof -
  from assms obtain n where n: "RecreateSwapChain_wait (polledSizes env) 0 = Some n"
    by (cases "RecreateSwapChain_wait (polledSizes env) 0")
       (simp_all add: RecreateSwapChain_def Let_def)
  let ?s3 = "CleanupSwapChain (device_wait_idle
               (fold issue (concat (replicate n [glfwGetFramebufferSize, glfwWaitEvents]))
                  (issue glfwGetFramebufferSize s)))"
  from assms n obtain s4 s5 where
    a: "CreateSwapChain (rebuild env) ?s3 = Returned s4"
    and b: "CreateImageViews (rebuild env) s4 = Returned s5"
    and c: "CreateFramebuffers (rebuild env) s5 = Returned s'"
    by (auto simp add: RecreateSwapChain_def Let_def and_then_Returned_iff)
  from CreateSwapChain_effect [of "rebuild env" ?s3] a
  have "length (m_swapChainImages s4) = swapchain_imageCount (rebuild env)"
    by simp
  with CreateImageViews_Returned [OF b] CreateFramebuffers_Returned [OF c]
  have sizes: "length (m_swapChainImages s') = swapchain_imageCount (rebuild env)"
    "length (m_swapChainImageViews s') = length (m_swapChainImages s')"
    "length (m_swapChainFramebuffers s') = length (m_swapChainImages s')"
    by simp_all
  from RecreateSwapChain_frame_state [of env s] assms
  have "m_commandBuffers s' = m_commandBuffers s"
    by simp
  with sizes show ?thesis by simp
qed

text \<open>
  When \<^verbatim>\<open>InitVulkan\<close> returns there is one command buffer per swapchain image, the
  frame index is 0, nothing is pending on the GPU and the fences satisfy the protocol.
\<close>

lemma InitVulkan_Returned:
  assumes "InitVulkan env initial_app = Returned s"
  shows "length (m_commandBuffers s) = length (m_swapChainImages s)"
    and "m_currentFrame s = 0"
    and "gpu_pending s = []"
    and "fence_protocol s"
proof -
  from assms obtain s1 s2 s3 s4 s5 s6 s7 s8 s9 s10 s11 s12 where
    st: "CreateInstance env initial_app = Returned s1"
      "SetupDebugCallback env s1 = Returned s2"
      "CreateSurface env s2 = Returned s3"
      "PickPhysicalDevice (physicalDevices env) s3 = Returned s4"
      "CreateLogicalDevice env s4 = Returned s5"
      "CreateSwapChain (first_build env) s5 = Returned s6"
      "CreateImageViews (first_build env) s6 = Returned s7"
      "CreateRenderPass env s7 = Returned s8"
      "CreateGraphicsPipeline env s8 = Returned s9"
      "CreateFramebuffers (first_build env) s9 = Returned s10"
      "CreateCommandPool env s10 = Returned s11"
      "CreateCommandBuffers env s11 = Returned s12"
      "CreateSyncObjects env s12 = Returned s"
    unfolding InitVulkan_def and_then_Returned_iff by blast
  have o6: "outside_swapchain s6 = outside_swapchain s5"
    using outside_swapchain_CreateSwapChain [of "first_build env" s5] st(6) by simp
  have o7: "outside_swapchain s7 = outside_swapchain s6"
    using outside_swapchain_CreateImageViews [of "first_build env" s6] st(7) by simp
  have o10: "outside_swapchain s10 = outside_swapchain s9"
    using outside_swapchain_CreateFramebuffers [of "first_build env" s9] st(10) by simp
  have k1: "m_currentFrame s1 = 0 \<and> gpu_pending s1 = []"
    using CreateInstance_keeps [of env initial_app] st(1) by (simp add: initial_app_def)
  have k2: "m_currentFrame s2 = 0 \<and> gpu_pending s2 = []"
    using SetupDebugCallback_keeps [of env s1] st(2) k1 by simp
  have k3: "m_currentFrame s3 = 0 \<and> gpu_pending s3 = []"
    using CreateSurface_keeps [of env s2] st(3) k2 by simp
  have k4: "m_currentFrame s4 = 0 \<and> gpu_pending s4 = []"
    using PickPhysicalDevice_keeps [of "physicalDevices env" s3] st(4) k3 by simp
  have k5: "m_currentFrame s5 = 0 \<and> gpu_pending s5 = []"
    using CreateLogicalDevice_keeps [of env s4] st(5) k4 by simp
  have k6: "m_currentFrame s6 = 0 \<and> gpu_pending s6 = []"
    using outside_swapchain_members(10,13) [OF o6] k5 by simp
  have k7: "m_currentFrame s7 = 0 \<and> gpu_pending s7 = []"
    using outside_swapchain_members(10,13) [OF o7] k6 by simp
  have v7: "length (m_swapChainImageViews s7) = length (m_swapChainImages s7)"
    using CreateImageViews_Returned [OF st(7)] by simp
  have k8: "m_currentFrame s8 = 0 \<and> gpu_pending s8 = []"
    and v8: "length (m_swapChainImageViews s8) = length (m_swapChainImages s8)"
    using CreateRenderPass_keeps [of env s7] st(8) k7 v7 by simp_all
  have k9: "m_currentFrame s9 = 0 \<and> gpu_pending s9 = []"
    and v9: "length (m_swapChainImageViews s9) = length (m_swapChainImages s9)"
    using CreateGraphicsPipeline_keeps [of env s8] st(9) k8 v8 by simp_all
  have k10: "m_currentFrame s10 = 0 \<and> gpu_pending s10 = []"
    using outside_swapchain_members(10,13) [OF o10] k9 by simp
  have v10: "length (m_swapChainFramebuffers s10) = length (m_swapChainImages s10)"
    using CreateFramebuffers_Returned [OF st(10)] v9 by simp
  have k11: "m_currentFrame s11 = 0 \<and> gpu_pending s11 = []"
    and v11: "length (m_swapChainFramebuffers s11) = length (m_swapChainImages s11)"
    using CreateCommandPool_keeps [of env s10] st(11) k10 v10 by simp_all
  have k12: "m_currentFrame s12 = 0 \<and> gpu_pending s12 = []"
    and v12: "length (m_commandBuffers s12) = length (m_swapChainImages s12)"
    using CreateCommandBuffers_keeps [of env s11] st(12) k11 v11 by simp_all
  have k: "m_currentFrame s = 0 \<and> gpu_pending s = []"
    and v: "length (m_commandBuffers s) = length (m_swapChainImages s)"
    and f: "length (m_inFlightFences s) = MAX_FRAMES_IN_FLIGHT"
    using CreateSyncObjects_keeps [of env s12] st(13) k12 v12 by simp_all
  from v show "length (m_commandBuffers s) = length (m_swapChainImages s)" .
  from k show "m_currentFrame s = 0" and "gpu_pending s = []" by simp_all
  from k f show "fence_protocol s" by (simp add: fence_protocol_def)
qed

section \<open>Frames in flight\<close>

lemma fence_protocol_bounds:
  assumes "fence_protocol s"
  shows "frames_in_flight s \<le> MAX_FRAMES_IN_FLIGHT"
    and "slots_in_flight s \<le> MAX_FRAMES_IN_FLIGHT"
proof -
  from assms have d: "distinct (map sub_fence (gpu_pending s))"
    and sub: "set (map sub_fence (gpu_pending s)) \<subseteq> set (m_inFlightFences s)"
    and len: "length (m_inFlightFences s) = MAX_FRAMES_IN_FLIGHT"
    by (simp_all add: fence_protocol_def)
  have "length (gpu_pending s) = length (map sub_fence (gpu_pending s))" by simp
  also from d have "\<dots> = card (set (map sub_fence (gpu_pending s)))"
    by (simp only: distinct_card)
  also from sub have "\<dots> \<le> card (set (m_inFlightFences s))"
    by (intro card_mono) simp_all
  also have "\<dots> \<le> length (m_inFlightFences s)"
    by (rule card_length)
  finally show "frames_in_flight s \<le> MAX_FRAMES_IN_FLIGHT"
    using len by (simp add: frames_in_flight_def)
  have "slots_in_flight s \<le> length (m_inFlightFences s)"
    by (simp add: slots_in_flight_def)
  with len show "slots_in_flight s \<le> MAX_FRAMES_IN_FLIGHT" by simp
qed

lemma fence_protocol_simps [simp]:
  "fence_protocol (issue c s) = fence_protocol s"
  "fence_protocol (s\<lparr>calls := cs\<rparr>) = fence_protocol s"
  "fence_protocol (s\<lparr>m_currentFrame := frame\<rparr>) = fence_protocol s"
  "fence_protocol (s\<lparr>m_framebufferResized := resized\<rparr>) = fence_protocol s"
  by (simp_all add: fence_protocol_def issue_def)

lemma vector_at_in_set: "vector_at v i = Some x \<Longrightarrow> x \<in> set v"
  by (auto simp add: vector_at_def split: if_splits)

lemma DrawFrame_present_fence_protocol:
  assumes "fence_protocol s"
  shows "fence_protocol (state_of (DrawFrame_present env s))"
proof -
  from DrawFrame_present_outside [of env s] obtain frame resized where
    "outside_swapchain (state_of (DrawFrame_present env s)) =
       outside_swapchain (s\<lparr>m_currentFrame := frame, m_framebufferResized := resized\<rparr>)
     \<or> outside_swapchain (state_of (DrawFrame_present env s)) =
       outside_swapchain (after_idle s\<lparr>m_currentFrame := frame, m_framebufferResized := resized\<rparr>)"
    by blast
  then show ?thesis
  proof
    assume "outside_swapchain (state_of (DrawFrame_present env s)) =
       outside_swapchain (s\<lparr>m_currentFrame := frame, m_framebufferResized := resized\<rparr>)"
    from fence_protocol_outside_swapchain [OF this] assms show ?thesis by simp
  next
    assume "outside_swapchain (state_of (DrawFrame_present env s)) =
       outside_swapchain (after_idle s\<lparr>m_currentFrame := frame, m_framebufferResized := resized\<rparr>)"
    from fence_protocol_outside_swapchain [OF this] fence_protocol_after_idle [OF assms]
    show ?thesis by simp
  qed
qed

lemma DrawFrame_present_currentFrame:
  "m_currentFrame (state_of (DrawFrame_present env s)) = m_currentFrame s
   \<or> m_currentFrame (state_of (DrawFrame_present env s)) =
       (m_currentFrame s + 1) mod MAX_FRAMES_IN_FLIGHT"
proof (cases "vector_at (m_renderFinishedSemaphores s) (m_currentFrame s)")
  case None
  then show ?thesis by (simp add: DrawFrame_present_def)
next
  case rf: (Some renderFinished)
  let ?s1 = "issue (vkQueuePresentKHR renderFinished (m_swapChain s) (acquire_imageIndex env)) s"
  show ?thesis
  proof (cases "VK_ERROR_OUT_OF_DATE_KHR = queuePresent_result env
                \<or> VK_SUBOPTIMAL_KHR = queuePresent_result env \<or> m_framebufferResized s")
    case False
    with rf show ?thesis
      by (simp add: DrawFrame_present_def Let_def issue_def)
  next
    case True
    let ?r = "RecreateSwapChain (recreation env) (?s1\<lparr>m_framebufferResized := False\<rparr>)"
    have run: "DrawFrame_present env s =
        and_then ?r (\<lambda>s2. Returned
           (s2\<lparr>m_currentFrame := (m_currentFrame s2 + 1) mod MAX_FRAMES_IN_FLIGHT\<rparr>))"
      using rf True by (auto simp add: DrawFrame_present_def Let_def issue_def)
    from RecreateSwapChain_frame_state [of "recreation env" "?s1\<lparr>m_framebufferResized := False\<rparr>"]
    have "m_currentFrame (state_of ?r) = m_currentFrame s"
      by (simp add: issue_def)
    then show ?thesis
      unfolding run by (cases ?r) simp_all
  qed
qed

text \<open>An iteration keeps the protocol, however it ends, and keeps the frame index a slot.\<close>

lemma DrawFrame_fence_protocol:
  assumes "fence_protocol s"
  shows "fence_protocol (state_of (DrawFrame env s))"
proof (cases rule: DrawFrame_cases [of s env])
  case no_fence
  with assms show ?thesis by simp
next
  case (blocked fence)
  with assms show ?thesis by simp
next
  case (no_semaphore fence s1)
  with wait_for_fence_protocol(1) [OF assms no_semaphore(2)] show ?thesis by simp
next
  case (stale fence s1 imageAvailable)
  from wait_for_fence_protocol(1) [OF assms stale(2)]
    RecreateSwapChain_frame_state
      [of "recreation env" "issue (vkAcquireNextImageKHR (m_swapChain s) imageAvailable) s1"]
  show ?thesis by (simp add: stale(5))
next
  case (failed fence s1 imageAvailable)
  with wait_for_fence_protocol(1) [OF assms failed(2)] show ?thesis by simp
next
  case (usable fence s1 imageAvailable)
  let ?s2 = "issue (vkAcquireNextImageKHR (m_swapChain s) imageAvailable) s1"
  let ?pre = "and_then (DrawFrame_record env fence ?s2) (DrawFrame_submit env fence imageAvailable)"
  have run: "DrawFrame env s = and_then ?pre (DrawFrame_present env)"
    using usable(5) by (simp add: and_then_assoc)
  note p1 = wait_for_fence_protocol [OF assms usable(2)]
  from p1(1) have fp1: "length (m_inFlightFences s1) = MAX_FRAMES_IN_FLIGHT"
    "distinct (map sub_fence (gpu_pending s1))"
    "set (map sub_fence (gpu_pending s1)) \<subseteq> set (m_inFlightFences s1)"
    "set (map sub_fence (gpu_pending s1)) \<inter> signaled_fences s1 = {}"
    by (simp_all add: fence_protocol_def)
  have mem: "fence \<in> set (m_inFlightFences s1)"
    using vector_at_in_set [OF usable(1)] wait_for_fence_members(2) [OF usable(2)] by simp
  from DrawFrame_record_submit_effect [of fence env ?s2 imageAvailable] obtain cs where
    shape: "(\<exists>commandBuffer. ?pre =
              Returned (?s2\<lparr>signaled_fences := signaled_fences ?s2 - {fence},
                          gpu_pending := gpu_pending ?s2 @
                            [\<lparr>sub_commandBuffer = commandBuffer, sub_fence = fence\<rparr>],
                          calls := calls ?s2 @ cs\<rparr>))
         \<or> (\<exists>msg. ?pre =
              Thrown msg (?s2\<lparr>signaled_fences := signaled_fences ?s2 - {fence},
                            calls := calls ?s2 @ cs\<rparr>))"
    by blast
  then show ?thesis
  proof
    assume "\<exists>msg. ?pre =
              Thrown msg (?s2\<lparr>signaled_fences := signaled_fences ?s2 - {fence},
                            calls := calls ?s2 @ cs\<rparr>)"
    then obtain msg where "DrawFrame env s =
              Thrown msg (?s2\<lparr>signaled_fences := signaled_fences ?s2 - {fence},
                            calls := calls ?s2 @ cs\<rparr>)"
      unfolding run by auto
    moreover have "fence_protocol (?s2\<lparr>signaled_fences := signaled_fences ?s2 - {fence},
                            calls := calls ?s2 @ cs\<rparr>)"
      using fp1 by (auto simp add: fence_protocol_def issue_def)
    ultimately show ?thesis by simp
  next
    assume "\<exists>commandBuffer. ?pre =
              Returned (?s2\<lparr>signaled_fences := signaled_fences ?s2 - {fence},
                          gpu_pending := gpu_pending ?s2 @
                            [\<lparr>sub_commandBuffer = commandBuffer, sub_fence = fence\<rparr>],
                          calls := calls ?s2 @ cs\<rparr>)"
    then obtain commandBuffer where
      pre: "?pre = Returned (?s2\<lparr>signaled_fences := signaled_fences ?s2 - {fence},
                          gpu_pending := gpu_pending ?s2 @
                            [\<lparr>sub_commandBuffer = commandBuffer, sub_fence = fence\<rparr>],
                          calls := calls ?s2 @ cs\<rparr>)"
      by blast
    let ?s4 = "?s2\<lparr>signaled_fences := signaled_fences ?s2 - {fence},
                          gpu_pending := gpu_pending ?s2 @
                            [\<lparr>sub_commandBuffer = commandBuffer, sub_fence = fence\<rparr>],
                          calls := calls ?s2 @ cs\<rparr>"
    have "fence_protocol ?s4"
      using fp1 p1(2) mem by (auto simp add: fence_protocol_def issue_def)
    from DrawFrame_present_fence_protocol [OF this, of env] show ?thesis
      unfolding run pre by simp
  qed
qed

lemma DrawFrame_currentFrame:
  assumes "m_currentFrame s < MAX_FRAMES_IN_FLIGHT"
  shows "m_currentFrame (state_of (DrawFrame env s)) < MAX_FRAMES_IN_FLIGHT"
proof (cases rule: DrawFrame_cases [of s env])
  case no_fence
  with assms show ?thesis by simp
next
  case (blocked fence)
  with assms show ?thesis by (simp add: issue_def)
next
  case (no_semaphore fence s1)
  with assms wait_for_fence_members(1) [OF no_semaphore(2)] show ?thesis by simp
next
  case (stale fence s1 imageAvailable)
  from assms wait_for_fence_members(1) [OF stale(2)]
    RecreateSwapChain_frame_state
      [of "recreation env" "issue (vkAcquireNextImageKHR (m_swapChain s) imageAvailable) s1"]
  show ?thesis by (simp add: stale(5) issue_def)
next
  case (failed fence s1 imageAvailable)
  with assms wait_for_fence_members(1) [OF failed(2)] show ?thesis by (simp add: issue_def)
next
  case (usable fence s1 imageAvailable)
  let ?s2 = "issue (vkAcquireNextImageKHR (m_swapChain s) imageAvailable) s1"
  let ?pre = "and_then (DrawFrame_record env fence ?s2) (DrawFrame_submit env fence imageAvailable)"
  have run: "DrawFrame env s = and_then ?pre (DrawFrame_present env)"
    using usable(5) by (simp add: and_then_assoc)
  have c2: "m_currentFrame ?s2 < MAX_FRAMES_IN_FLIGHT"
    using assms wait_for_fence_members(1) [OF usable(2)] by (simp add: issue_def)
  have mod: "(k + 1) mod MAX_FRAMES_IN_FLIGHT < MAX_FRAMES_IN_FLIGHT" for k
    by (simp add: MAX_FRAMES_IN_FLIGHT_def)
  from DrawFrame_record_submit_effect [of fence env ?s2 imageAvailable] obtain cs where
    shape: "(\<exists>commandBuffer. ?pre =
              Returned (?s2\<lparr>signaled_fences := signaled_fences ?s2 - {fence},
                          gpu_pending := gpu_pending ?s2 @
                            [\<lparr>sub_commandBuffer = commandBuffer, sub_fence = fence\<rparr>],
                          calls := calls ?s2 @ cs\<rparr>))
         \<or> (\<exists>msg. ?pre =
              Thrown msg (?s2\<lparr>signaled_fences := signaled_fences ?s2 - {fence},
                            calls := calls ?s2 @ cs\<rparr>))"
    by blast
  then show ?thesis
  proof
    assume "\<exists>msg. ?pre =
              Thrown msg (?s2\<lparr>signaled_fences := signaled_fences ?s2 - {fence},
                            calls := calls ?s2 @ cs\<rparr>)"
    with c2 show ?thesis unfolding run by auto
  next
    assume "\<exists>commandBuffer. ?pre =
              Returned (?s2\<lparr>signaled_fences := signaled_fences ?s2 - {fence},
                          gpu_pending := gpu_pending ?s2 @
                            [\<lparr>sub_commandBuffer = commandBuffer, sub_fence = fence\<rparr>],
                          calls := calls ?s2 @ cs\<rparr>)"
    then obtain commandBuffer where
      pre: "?pre = Returned (?s2\<lparr>signaled_fences := signaled_fences ?s2 - {fence},
                          gpu_pending := gpu_pending ?s2 @
                            [\<lparr>sub_commandBuffer = commandBuffer, sub_fence = fence\<rparr>],
                          calls := calls ?s2 @ cs\<rparr>)"
      by blast
    let ?s4 = "?s2\<lparr>signaled_fences := signaled_fences ?s2 - {fence},
                          gpu_pending := gpu_pending ?s2 @
                            [\<lparr>sub_commandBuffer = commandBuffer, sub_fence = fence\<rparr>],
                          calls := calls ?s2 @ cs\<rparr>"
    from DrawFrame_present_currentFrame [of env ?s4] c2 mod [of "m_currentFrame ?s4"]
    show ?thesis
      unfolding run pre by auto
  qed
qed

lemma gpu_finishes_fence_protocol:
  assumes "fence_protocol s"
  shows "fence_protocol (gpu_finishes k s)"
proof (cases "k < length (gpu_pending s)")
  case False
  with assms show ?thesis by (simp add: gpu_finishes_def)
next
  case True
  let ?p = "gpu_pending s"
  from True have split: "?p = take k ?p @ ?p ! k # drop (Suc k) ?p"
    by (rule id_take_nth_drop)
  from assms have "distinct (map sub_fence ?p)"
    and sub: "set (map sub_fence ?p) \<subseteq> set (m_inFlightFences s)"
    and dis: "set (map sub_fence ?p) \<inter> signaled_fences s = {}"
    and len: "length (m_inFlightFences s) = MAX_FRAMES_IN_FLIGHT"
    by (simp_all add: fence_protocol_def)
  then have d: "distinct (map sub_fence (take k ?p @ ?p ! k # drop (Suc k) ?p))"
    using split by simp
  have rest: "set (take k ?p @ drop (Suc k) ?p) \<subseteq> set ?p"
    using set_take_subset [of k ?p] set_drop_subset [of "Suc k" ?p] by auto
  from d have d': "distinct (map sub_fence (take k ?p @ drop (Suc k) ?p))"
    and fresh: "sub_fence (?p ! k) \<notin> set (map sub_fence (take k ?p @ drop (Suc k) ?p))"
    by auto
  from rest sub have sub': "set (map sub_fence (take k ?p @ drop (Suc k) ?p))
                             \<subseteq> set (m_inFlightFences s)"
    by auto
  from rest dis fresh
  have dis': "set (map sub_fence (take k ?p @ drop (Suc k) ?p))
              \<inter> insert (sub_fence (?p ! k)) (signaled_fences s) = {}"
    by auto
  from True len d' sub' dis' show ?thesis
    by (simp add: gpu_finishes_def fence_protocol_def)
qed

lemma reachable_invariant:
  assumes "reachable s"
  shows "fence_protocol s \<and> m_currentFrame s < MAX_FRAMES_IN_FLIGHT"
  using assms
proof (induction rule: reachable.induct)
  case (after_init env s)
  from InitVulkan_Returned(2,4) [OF after_init] show ?case
    by (simp add: MAX_FRAMES_IN_FLIGHT_def)
next
  case (after_frame s fenv s')
  from after_frame.IH DrawFrame_fence_protocol [of s fenv] DrawFrame_currentFrame [of s fenv]
    after_frame.hyps(2)
  show ?case by simp
next
  case (after_gpu s k)
  then show ?case
    by (simp add: gpu_finishes_fence_protocol) (simp add: gpu_finishes_def)
next
  case (after_resize s)
  then show ?case by (simp add: FramebufferResizeCallback_def)
qed

text \<open>
  The calls of an iteration open with the wait on the fence of the slot; nothing after it
  waits again, and a reset or a submission names that fence only.
\<close>

lemma presents_slot_call: "presents c \<Longrightarrow> slot_call fence c"
  by (cases c) (simp_all add: presents_def slot_call_def)

lemma DrawFrame_waits_first:
  assumes "vector_at (m_inFlightFences s) (m_currentFrame s) = Some fence"
  shows "\<exists>rest. new_calls s (state_of (DrawFrame env s)) = vkWaitForFences fence # rest
           \<and> (\<forall>c\<in>set rest. slot_call fence c)"
proof (cases rule: DrawFrame_cases [of s env])
  case no_fence
  with assms show ?thesis by simp
next
  case (blocked f)
  with assms show ?thesis by simp
next
  case (no_semaphore f s1)
  from wait_for_fence_Returned(2) [OF no_semaphore(2)] no_semaphore(1,4) assms
  show ?thesis by simp
next
  case (stale f s1 imageAvailable)
  from DrawFrame_stale_calls [OF stale(2), of "recreation env" imageAvailable]
  obtain cs where
    n: "new_calls s (state_of (DrawFrame env s)) =
          [vkWaitForFences f, vkAcquireNextImageKHR (m_swapChain s) imageAvailable] @ cs"
    and r: "\<forall>c\<in>set cs. recreation_call c"
    unfolding stale(5) by blast
  from r have "\<forall>c\<in>set cs. slot_call fence c"
    by (blast intro: recreation_call_slot_call)
  moreover have "slot_call fence (vkAcquireNextImageKHR (m_swapChain s) imageAvailable)"
    by (simp add: slot_call_def)
  ultimately show ?thesis
    using n stale(1) assms by simp
next
  case (failed f s1 imageAvailable)
  from wait_for_fence_Returned(2) [OF failed(2)]
  have "calls (state_of (DrawFrame env s)) =
          calls s @ [vkWaitForFences f, vkAcquireNextImageKHR (m_swapChain s) imageAvailable]"
    by (simp add: failed(7) issue_def)
  then have "new_calls s (state_of (DrawFrame env s)) =
          [vkWaitForFences f, vkAcquireNextImageKHR (m_swapChain s) imageAvailable]"
    by (rule new_calls_append)
  with failed(1) assms show ?thesis by (simp add: slot_call_def)
next
  case (usable f s1 imageAvailable)
  from usable(1) assms have f: "f = fence" by simp
  let ?s2 = "issue (vkAcquireNextImageKHR (m_swapChain s) imageAvailable) s1"
  let ?pre = "and_then (DrawFrame_record env fence ?s2) (DrawFrame_submit env fence imageAvailable)"
  have run: "DrawFrame env s = and_then ?pre (DrawFrame_present env)"
    using usable(5) f by (simp add: and_then_assoc)
  have c2: "calls ?s2 = calls s @ [vkWaitForFences fence,
                                   vkAcquireNextImageKHR (m_swapChain s) imageAvailable]"
    using wait_for_fence_Returned(2) [OF usable(2)] f by (simp add: issue_def)
  have acq: "slot_call fence (vkAcquireNextImageKHR (m_swapChain s) imageAvailable)"
    by (simp add: slot_call_def)
  from DrawFrame_record_submit_effect [of fence env ?s2 imageAvailable] obtain cs where
    q: "\<forall>c\<in>set cs. records_or_submits c \<and> \<not> presents c \<and> slot_call fence c"
    and shape: "(\<exists>commandBuffer. ?pre =
              Returned (?s2\<lparr>signaled_fences := signaled_fences ?s2 - {fence},
                          gpu_pending := gpu_pending ?s2 @
                            [\<lparr>sub_commandBuffer = commandBuffer, sub_fence = fence\<rparr>],
                          calls := calls ?s2 @ cs\<rparr>))
         \<or> (\<exists>msg. ?pre =
              Thrown msg (?s2\<lparr>signaled_fences := signaled_fences ?s2 - {fence},
                            calls := calls ?s2 @ cs\<rparr>))"
    by blast
  from shape show ?thesis
  proof
    assume "\<exists>msg. ?pre =
              Thrown msg (?s2\<lparr>signaled_fences := signaled_fences ?s2 - {fence},
                            calls := calls ?s2 @ cs\<rparr>)"
    then have "calls (state_of (DrawFrame env s)) =
                 calls s @ (vkWaitForFences fence
                   # vkAcquireNextImageKHR (m_swapChain s) imageAvailable # cs)"
      unfolding run using c2 by auto
    then have "new_calls s (state_of (DrawFrame env s)) =
                 vkWaitForFences fence
                   # vkAcquireNextImageKHR (m_swapChain s) imageAvailable # cs"
      by (rule new_calls_append)
    with q acq show ?thesis by simp
  next
    assume "\<exists>commandBuffer. ?pre =
              Returned (?s2\<lparr>signaled_fences := signaled_fences ?s2 - {fence},
                          gpu_pending := gpu_pending ?s2 @
                            [\<lparr>sub_commandBuffer = commandBuffer, sub_fence = fence\<rparr>],
                          calls := calls ?s2 @ cs\<rparr>)"
    then obtain commandBuffer where
      pre: "?pre = Returned (?s2\<lparr>signaled_fences := signaled_fences ?s2 - {fence},
                          gpu_pending := gpu_pending ?s2 @
                            [\<lparr>sub_commandBuffer = commandBuffer, sub_fence = fence\<rparr>],
                          calls := calls ?s2 @ cs\<rparr>)"
      by blast
    let ?s4 = "?s2\<lparr>signaled_fences := signaled_fences ?s2 - {fence},
                          gpu_pending := gpu_pending ?s2 @
                            [\<lparr>sub_commandBuffer = commandBuffer, sub_fence = fence\<rparr>],
                          calls := calls ?s2 @ cs\<rparr>"
    from extends_calls_DrawFrame_present [of ?s4 env] obtain cs' where
      c4: "calls (state_of (DrawFrame_present env ?s4)) = calls ?s4 @ cs'"
      and q': "\<forall>c\<in>set cs'. presents c \<or> recreation_call c"
      unfolding extends_calls_def by blast
    from q' have s': "\<forall>c\<in>set cs'. slot_call fence c"
      by (blast intro: presents_slot_call recreation_call_slot_call)
    from c4 c2 have "calls (state_of (DrawFrame env s)) =
                 calls s @ (vkWaitForFences fence
                   # vkAcquireNextImageKHR (m_swapChain s) imageAvailable # cs @ cs')"
      unfolding run pre by simp
    then have "new_calls s (state_of (DrawFrame env s)) =
                 vkWaitForFences fence
                   # vkAcquireNextImageKHR (m_swapChain s) imageAvailable # cs @ cs'"
      by (rule new_calls_append)
    with q acq s' show ?thesis by auto
  qed
qed

text \<open>
  C1: in every state at the head of the frame loop, and in the state in which the next
  \<^verbatim>\<open>DrawFrame\<close> ends, however it ends, at most \<open>MAX_FRAMES_IN_FLIGHT = 2\<close>
  submissions are pending on the GPU and at most that many slots have a pending
  submission and an unsignaled fence. The frame index is a slot, so the iteration has a
  fence to wait on; its calls open with the wait on that fence, and every later reset or
  submission of the iteration names that same fence.
\<close>

theorem frames_in_flight_bounded:
  assumes "reachable s"
  shows "frames_in_flight s \<le> MAX_FRAMES_IN_FLIGHT
         \<and> slots_in_flight s \<le> MAX_FRAMES_IN_FLIGHT
         \<and> frames_in_flight (state_of (DrawFrame env s)) \<le> MAX_FRAMES_IN_FLIGHT
         \<and> slots_in_flight (state_of (DrawFrame env s)) \<le> MAX_FRAMES_IN_FLIGHT
         \<and> MAX_FRAMES_IN_FLIGHT = 2
         \<and> m_currentFrame s < MAX_FRAMES_IN_FLIGHT
         \<and> (\<exists>fence rest.
               vector_at (m_inFlightFences s) (m_currentFrame s) = Some fence
               \<and> new_calls s (state_of (DrawFrame env s)) = vkWaitForFences fence # rest
               \<and> (\<forall>c\<in>set rest. slot_call fence c))"
proof -
  from reachable_invariant [OF assms] have fp: "fence_protocol s"
    and slot: "m_currentFrame s < MAX_FRAMES_IN_FLIGHT"
    by simp_all
  from fp slot obtain fence where
    f: "vector_at (m_inFlightFences s) (m_currentFrame s) = Some fence"
    by (simp add: fence_protocol_def vector_at_def)
  from DrawFrame_waits_first [OF f, of env] f
  have calls: "\<exists>fence rest.
               vector_at (m_inFlightFences s) (m_currentFrame s) = Some fence
               \<and> new_calls s (state_of (DrawFrame env s)) = vkWaitForFences fence # rest
               \<and> (\<forall>c\<in>set rest. slot_call fence c)"
    by blast
  from fence_protocol_bounds [OF fp]
    fence_protocol_bounds [OF DrawFrame_fence_protocol [OF fp, of env]] slot calls
  show ?thesis by (simp add: MAX_FRAMES_IN_FLIGHT_def)
qed

text \<open>
  The example, run for three iterations while the GPU reports nothing: after the first
  one submission is pending, after the second two, and the third has to wait for the first
  submission before it adds its own, so two are pending again.
\<close>

lemma example_frame1_Returned:
  "DrawFrame (example_frame VK_SUCCESS 0 VK_SUCCESS 3) example_started = Returned example_frame1"
  unfolding example_frame1_def example_started_def InitVulkan_example state_of.simps
  by (simp add: evaluation_defs)

lemma example_frame1_state:
  "example_frame1\<lparr>calls := []\<rparr> =
     example_started
       \<lparr>m_currentFrame := 1, signaled_fences := {25},
        gpu_pending := [\<lparr>sub_commandBuffer = 17, sub_fence = 22\<rparr>], calls := []\<rparr>"
  unfolding example_frame1_def example_started_def InitVulkan_example state_of.simps
  by (simp add: evaluation_defs)

lemma example_second_frame:
  "DrawFrame (example_frame VK_SUCCESS 1 VK_SUCCESS 3)
     (example_started
       \<lparr>m_currentFrame := 1, signaled_fences := {25},
        gpu_pending := [\<lparr>sub_commandBuffer = 17, sub_fence = 22\<rparr>], calls := cs\<rparr>) =
   Returned (state_of (DrawFrame (example_frame VK_SUCCESS 1 VK_SUCCESS 3)
     (example_started
       \<lparr>m_currentFrame := 1, signaled_fences := {25},
        gpu_pending := [\<lparr>sub_commandBuffer = 17, sub_fence = 22\<rparr>], calls := cs\<rparr>)))"
  "(state_of (DrawFrame (example_frame VK_SUCCESS 1 VK_SUCCESS 3)
     (example_started
       \<lparr>m_currentFrame := 1, signaled_fences := {25},
        gpu_pending := [\<lparr>sub_commandBuffer = 17, sub_fence = 22\<rparr>], calls := cs\<rparr>)))
     \<lparr>calls := []\<rparr> =
   example_started
       \<lparr>m_currentFrame := 0, signaled_fences := {},
        gpu_pending := [\<lparr>sub_commandBuffer = 17, sub_fence = 22\<rparr>,
                        \<lparr>sub_commandBuffer = 18, sub_fence = 25\<rparr>], calls := []\<rparr>"
  unfolding example_started_def InitVulkan_example state_of.simps
  by (simp_all add: evaluation_defs)

lemma example_third_frame:
  "DrawFrame (example_frame VK_SUCCESS 2 VK_SUCCESS 3)
     (example_started
       \<lparr>m_currentFrame := 0, signaled_fences := {},
        gpu_pending := [\<lparr>sub_commandBuffer = 17, sub_fence = 22\<rparr>,
                        \<lparr>sub_commandBuffer = 18, sub_fence = 25\<rparr>], calls := cs\<rparr>) =
   Returned (state_of (DrawFrame (example_frame VK_SUCCESS 2 VK_SUCCESS 3)
     (example_started
       \<lparr>m_currentFrame := 0, signaled_fences := {},
        gpu_pending := [\<lparr>sub_commandBuffer = 17, sub_fence = 22\<rparr>,
                        \<lparr>sub_commandBuffer = 18, sub_fence = 25\<rparr>], calls := cs\<rparr>)))"
  "(state_of (DrawFrame (example_frame VK_SUCCESS 2 VK_SUCCESS 3)
     (example_started
       \<lparr>m_currentFrame := 0, signaled_fences := {},
        gpu_pending := [\<lparr>sub_commandBuffer = 17, sub_fence = 22\<rparr>,
                        \<lparr>sub_commandBuffer = 18, sub_fence = 25\<rparr>], calls := cs\<rparr>)))
     \<lparr>calls := []\<rparr> =
   example_started
       \<lparr>m_currentFrame := 1, signaled_fences := {},
        gpu_pending := [\<lparr>sub_commandBuffer = 18, sub_fence = 25\<rparr>,
                        \<lparr>sub_commandBuffer = 19, sub_fence = 22\<rparr>], calls := []\<rparr>"
  unfolding example_started_def InitVulkan_example state_of.simps
  by (simp_all add: evaluation_defs)

lemma restore_calls: "s = (s\<lparr>calls := []\<rparr>)\<lparr>calls := calls s\<rparr>"
  for s :: app
  by simp

lemma example_frame1_is:
  "example_frame1 =
     example_started
       \<lparr>m_currentFrame := 1, signaled_fences := {25},
        gpu_pending := [\<lparr>sub_commandBuffer = 17, sub_fence = 22\<rparr>],
        calls := calls example_frame1\<rparr>"
  by (subst restore_calls [of example_frame1]) (simp add: example_frame1_state)

lemma example_frame2_Returned:
  "DrawFrame (example_frame VK_SUCCESS 1 VK_SUCCESS 3) example_frame1 = Returned example_frame2"
  unfolding example_frame2_def
  by (subst (1 2) example_frame1_is) (rule example_second_frame(1))

lemma example_frame2_state:
  "example_frame2\<lparr>calls := []\<rparr> =
     example_started
       \<lparr>m_currentFrame := 0, signaled_fences := {},
        gpu_pending := [\<lparr>sub_commandBuffer = 17, sub_fence = 22\<rparr>,
                        \<lparr>sub_commandBuffer = 18, sub_fence = 25\<rparr>], calls := []\<rparr>"
  unfolding example_frame2_def
  by (subst example_frame1_is) (rule example_second_frame(2))

lemma example_frame2_is:
  "example_frame2 =
     example_started
       \<lparr>m_currentFrame := 0, signaled_fences := {},
        gpu_pending := [\<lparr>sub_commandBuffer = 17, sub_fence = 22\<rparr>,
                        \<lparr>sub_commandBuffer = 18, sub_fence = 25\<rparr>],
        calls := calls example_frame2\<rparr>"
  by (subst restore_calls [of example_frame2]) (simp add: example_frame2_state)

lemma example_frame3_Returned:
  "DrawFrame (example_frame VK_SUCCESS 2 VK_SUCCESS 3) example_frame2 = Returned example_frame3"
  unfolding example_frame3_def
  by (subst (1 2) example_frame2_is) (rule example_third_frame(1))

lemma example_frame3_state:
  "example_frame3\<lparr>calls := []\<rparr> =
     example_started
       \<lparr>m_currentFrame := 1, signaled_fences := {},
        gpu_pending := [\<lparr>sub_commandBuffer = 18, sub_fence = 25\<rparr>,
                        \<lparr>sub_commandBuffer = 19, sub_fence = 22\<rparr>], calls := []\<rparr>"
  unfolding example_frame3_def
  by (subst example_frame2_is) (rule example_third_frame(2))

lemma example_frames_pending:
  "gpu_pending example_frame1 = [\<lparr>sub_commandBuffer = 17, sub_fence = 22\<rparr>]"
  "gpu_pending example_frame2 = [\<lparr>sub_commandBuffer = 17, sub_fence = 22\<rparr>,
                                 \<lparr>sub_commandBuffer = 18, sub_fence = 25\<rparr>]"
  "gpu_pending example_frame3 = [\<lparr>sub_commandBuffer = 18, sub_fence = 25\<rparr>,
                                 \<lparr>sub_commandBuffer = 19, sub_fence = 22\<rparr>]"
proof -
  have "gpu_pending example_frame1 = gpu_pending (example_frame1\<lparr>calls := []\<rparr>)"
    and "gpu_pending example_frame2 = gpu_pending (example_frame2\<lparr>calls := []\<rparr>)"
    and "gpu_pending example_frame3 = gpu_pending (example_frame3\<lparr>calls := []\<rparr>)"
    by simp_all
  then show "gpu_pending example_frame1 = [\<lparr>sub_commandBuffer = 17, sub_fence = 22\<rparr>]"
    and "gpu_pending example_frame2 = [\<lparr>sub_commandBuffer = 17, sub_fence = 22\<rparr>,
                                 \<lparr>sub_commandBuffer = 18, sub_fence = 25\<rparr>]"
    and "gpu_pending example_frame3 = [\<lparr>sub_commandBuffer = 18, sub_fence = 25\<rparr>,
                                 \<lparr>sub_commandBuffer = 19, sub_fence = 22\<rparr>]"
    by (simp_all only: example_frame1_state example_frame2_state example_frame3_state)
       simp_all
qed

lemma reachable_example_frames:
  "reachable example_frame1" "reachable example_frame2" "reachable example_frame3"
proof -
  show 1: "reachable example_frame1"
    by (rule after_frame [OF reachable_example_started example_frame1_Returned])
  show 2: "reachable example_frame2"
    by (rule after_frame [OF 1 example_frame2_Returned])
  show "reachable example_frame3"
    by (rule after_frame [OF 2 example_frame3_Returned])
qed

theorem frames_in_flight_bounded_witness:
  "reachable example_frame2
   \<and> frames_in_flight example_frame2 = 2
   \<and> frames_in_flight
       (state_of (DrawFrame (example_frame VK_SUCCESS 2 VK_SUCCESS 3) example_frame2)) = 2
   \<and> frames_in_flight
       (state_of (DrawFrame (example_frame VK_SUCCESS 2 VK_SUCCESS 3) example_frame2))
       \<le> MAX_FRAMES_IN_FLIGHT"
  using frames_in_flight_bounded
          [OF reachable_example_frames(2), of "example_frame VK_SUCCESS 2 VK_SUCCESS 3"]
        reachable_example_frames(2) example_frames_pending
  by (simp add: frames_in_flight_def example_frame3_def [symmetric] MAX_FRAMES_IN_FLIGHT_def)

section \<open>Command buffers and swapchain images\<close>

text \<open>
  \<^verbatim>\<open>CreateCommandBuffers\<close> runs once, in \<^verbatim>\<open>InitVulkan\<close>. No iteration touches
  \<open>m_commandBuffers\<close> afterwards, whether or not it recreates the swapchain.
\<close>

lemma DrawFrame_present_commandBuffers:
  "m_commandBuffers (state_of (DrawFrame_present env s)) = m_commandBuffers s"
proof -
  from DrawFrame_present_outside [of env s] obtain frame resized where
    "outside_swapchain (state_of (DrawFrame_present env s)) =
       outside_swapchain (s\<lparr>m_currentFrame := frame, m_framebufferResized := resized\<rparr>)
     \<or> outside_swapchain (state_of (DrawFrame_present env s)) =
       outside_swapchain (after_idle s\<lparr>m_currentFrame := frame, m_framebufferResized := resized\<rparr>)"
    by blast
  then show ?thesis
  proof
    assume "outside_swapchain (state_of (DrawFrame_present env s)) =
       outside_swapchain (s\<lparr>m_currentFrame := frame, m_framebufferResized := resized\<rparr>)"
    from outside_swapchain_members(6) [OF this] show ?thesis by simp
  next
    assume "outside_swapchain (state_of (DrawFrame_present env s)) =
       outside_swapchain (after_idle s\<lparr>m_currentFrame := frame, m_framebufferResized := resized\<rparr>)"
    from outside_swapchain_members(6) [OF this] show ?thesis by (simp add: after_idle_def)
  qed
qed

lemma DrawFrame_commandBuffers:
  "m_commandBuffers (state_of (DrawFrame env s)) = m_commandBuffers s"
proof (cases rule: DrawFrame_cases [of s env])
  case no_fence
  then show ?thesis by simp
next
  case (blocked fence)
  then show ?thesis by (simp add: issue_def)
next
  case (no_semaphore fence s1)
  with wait_for_fence_members(5) [OF no_semaphore(2)] show ?thesis by simp
next
  case (stale fence s1 imageAvailable)
  from wait_for_fence_members(5) [OF stale(2)]
    RecreateSwapChain_frame_state
      [of "recreation env" "issue (vkAcquireNextImageKHR (m_swapChain s) imageAvailable) s1"]
  show ?thesis by (simp add: stale(5) issue_def)
next
  case (failed fence s1 imageAvailable)
  with wait_for_fence_members(5) [OF failed(2)] show ?thesis by (simp add: issue_def)
next
  case (usable fence s1 imageAvailable)
  let ?s2 = "issue (vkAcquireNextImageKHR (m_swapChain s) imageAvailable) s1"
  let ?pre = "and_then (DrawFrame_record env fence ?s2) (DrawFrame_submit env fence imageAvailable)"
  have run: "DrawFrame env s = and_then ?pre (DrawFrame_present env)"
    using usable(5) by (simp add: and_then_assoc)
  have c2: "m_commandBuffers ?s2 = m_commandBuffers s"
    using wait_for_fence_members(5) [OF usable(2)] by (simp add: issue_def)
  from DrawFrame_record_submit_effect [of fence env ?s2 imageAvailable] obtain cs where
    shape: "(\<exists>commandBuffer. ?pre =
              Returned (?s2\<lparr>signaled_fences := signaled_fences ?s2 - {fence},
                          gpu_pending := gpu_pending ?s2 @
                            [\<lparr>sub_commandBuffer = commandBuffer, sub_fence = fence\<rparr>],
                          calls := calls ?s2 @ cs\<rparr>))
         \<or> (\<exists>msg. ?pre =
              Thrown msg (?s2\<lparr>signaled_fences := signaled_fences ?s2 - {fence},
                            calls := calls ?s2 @ cs\<rparr>))"
    by blast
  then show ?thesis
  proof
    assume "\<exists>msg. ?pre =
              Thrown msg (?s2\<lparr>signaled_fences := signaled_fences ?s2 - {fence},
                            calls := calls ?s2 @ cs\<rparr>)"
    with c2 show ?thesis unfolding run by auto
  next
    assume "\<exists>commandBuffer. ?pre =
              Returned (?s2\<lparr>signaled_fences := signaled_fences ?s2 - {fence},
                          gpu_pending := gpu_pending ?s2 @
                            [\<lparr>sub_commandBuffer = commandBuffer, sub_fence = fence\<rparr>],
                          calls := calls ?s2 @ cs\<rparr>)"
    then obtain commandBuffer where
      pre: "?pre = Returned (?s2\<lparr>signaled_fences := signaled_fences ?s2 - {fence},
                          gpu_pending := gpu_pending ?s2 @
                            [\<lparr>sub_commandBuffer = commandBuffer, sub_fence = fence\<rparr>],
                          calls := calls ?s2 @ cs\<rparr>)"
      by blast
    let ?s4 = "?s2\<lparr>signaled_fences := signaled_fences ?s2 - {fence},
                          gpu_pending := gpu_pending ?s2 @
                            [\<lparr>sub_commandBuffer = commandBuffer, sub_fence = fence\<rparr>],
                          calls := calls ?s2 @ cs\<rparr>"
    from DrawFrame_present_commandBuffers [of env ?s4] c2
    show ?thesis
      unfolding run pre by simp
  qed
qed

text \<open>
  So in every state of the frame loop the command buffers are the ones allocated by
  \<^verbatim>\<open>InitVulkan\<close>, as many as the first swapchain had images.
\<close>

lemma reachable_commandBuffers:
  assumes "reachable s"
  shows "\<exists>env s0. InitVulkan env initial_app = Returned s0
           \<and> m_commandBuffers s = m_commandBuffers s0
           \<and> length (m_commandBuffers s) = length (m_swapChainImages s0)"
  using assms
proof (induction rule: reachable.induct)
  case (after_init env s)
  from InitVulkan_Returned(1) [OF after_init] after_init show ?case by blast
next
  case (after_frame s fenv s')
  from DrawFrame_commandBuffers [of fenv s] after_frame.hyps(2)
  have "m_commandBuffers s' = m_commandBuffers s" by simp
  with after_frame.IH show ?case by simp
next
  case (after_gpu s k)
  have "m_commandBuffers (gpu_finishes k s) = m_commandBuffers s"
    by (simp add: gpu_finishes_def)
  with after_gpu.IH show ?case by simp
next
  case (after_resize s)
  have "m_commandBuffers (FramebufferResizeCallback s) = m_commandBuffers s"
    by (simp add: FramebufferResizeCallback_def)
  with after_resize.IH show ?case by simp
qed

text \<open>
  The example: the first iteration draws into image 0, its presentation reports the chain
  out of date, and the chain built by \<^verbatim>\<open>RecreateSwapChain\<close> has four images.
\<close>

lemma example_resized_Returned:
  "DrawFrame (example_frame VK_SUCCESS 0 VK_ERROR_OUT_OF_DATE_KHR 4) example_started =
     Returned example_resized"
  unfolding example_resized_def example_started_def InitVulkan_example state_of.simps
  by (simp add: evaluation_defs)

lemma example_resized_state:
  "example_resized\<lparr>calls := []\<rparr> =
     example_started
       \<lparr>m_swapChain := 26, m_swapChainImages := [27, 28, 29, 30],
        m_swapChainImageViews := [31, 32, 33, 34],
        m_swapChainFramebuffers := [35, 36, 37, 38],
        m_currentFrame := 1, calls := [], next_handle := 38\<rparr>"
  unfolding example_resized_def example_started_def InitVulkan_example state_of.simps
  by (simp add: evaluation_defs)

lemma example_resized_next_frame:
  "DrawFrame (example_frame VK_SUCCESS 3 VK_SUCCESS 4)
     (example_started
       \<lparr>m_swapChain := 26, m_swapChainImages := [27, 28, 29, 30],
        m_swapChainImageViews := [31, 32, 33, 34],
        m_swapChainFramebuffers := [35, 36, 37, 38],
        m_currentFrame := 1, calls := cs, next_handle := 38\<rparr>) =
   Thrown ''out_of_range''
     (example_started
       \<lparr>m_swapChain := 26, m_swapChainImages := [27, 28, 29, 30],
        m_swapChainImageViews := [31, 32, 33, 34],
        m_swapChainFramebuffers := [35, 36, 37, 38],
        m_currentFrame := 1, signaled_fences := {22},
        calls := cs @ [vkWaitForFences 25, vkAcquireNextImageKHR 26 23, vkResetFences 25],
        next_handle := 38\<rparr>)"
  unfolding example_started_def InitVulkan_example state_of.simps
  by (simp add: evaluation_defs) auto

lemma example_resized_calls:
  "\<exists>cs. calls (state_of (DrawFrame (example_frame VK_SUCCESS 0 VK_ERROR_OUT_OF_DATE_KHR 4)
                               (example_started\<lparr>calls := cs0\<rparr>))) =
           cs0 @ vkWaitForFences 22 # vkAcquireNextImageKHR 1 20 # vkResetFences 22 # cs
         \<and> glfwGetFramebufferSize \<in> set cs"
  unfolding example_started_def InitVulkan_example state_of.simps
  by (simp add: evaluation_defs)

lemma example_resized_is:
  "example_resized =
     example_started
       \<lparr>m_swapChain := 26, m_swapChainImages := [27, 28, 29, 30],
        m_swapChainImageViews := [31, 32, 33, 34],
        m_swapChainFramebuffers := [35, 36, 37, 38],
        m_currentFrame := 1, calls := calls example_resized, next_handle := 38\<rparr>"
proof -
  have "example_resized = (example_resized\<lparr>calls := []\<rparr>)\<lparr>calls := calls example_resized\<rparr>"
    by simp
  also have "\<dots> = example_started
       \<lparr>m_swapChain := 26, m_swapChainImages := [27, 28, 29, 30],
        m_swapChainImageViews := [31, 32, 33, 34],
        m_swapChainFramebuffers := [35, 36, 37, 38],
        m_currentFrame := 1, calls := calls example_resized, next_handle := 38\<rparr>"
    by (simp add: example_resized_state)
  finally show ?thesis .
qed

lemma reachable_example_resized: "reachable example_resized"
  by (rule after_frame [OF reachable_example_started example_resized_Returned])

text \<open>
  C9 does not hold of the program. In the example the state after the first iteration is a
  state of the frame loop with four swapchain images, four views and four framebuffers but
  the three command buffers of the initialisation; when the driver hands out image 3 in the
  next iteration, \<^verbatim>\<open>m_commandBuffers.at(imageIndex)\<close> throws, after the fence of
  the slot has been reset.
\<close>

theorem RecreateSwapChain_keeps_command_buffers_example:
  "DrawFrame (example_frame VK_SUCCESS 0 VK_ERROR_OUT_OF_DATE_KHR 4) example_started =
     Returned example_resized
   \<and> recreation_invoked (new_calls example_started example_resized)
   \<and> m_swapChainImages example_resized = [27, 28, 29, 30]
   \<and> m_swapChainFramebuffers example_resized = [35, 36, 37, 38]
   \<and> m_commandBuffers example_resized = [17, 18, 19]
   \<and> length (m_commandBuffers example_resized) \<noteq> length (m_swapChainImages example_resized)
   \<and> (\<exists>s. DrawFrame (example_frame VK_SUCCESS 3 VK_SUCCESS 4) example_resized =
             Thrown ''out_of_range'' s
           \<and> new_calls example_resized s =
               [vkWaitForFences 25, vkAcquireNextImageKHR 26 23, vkResetFences 25])"
proof -
  have members: "m_swapChainImages example_resized = [27, 28, 29, 30]"
    "m_swapChainFramebuffers example_resized = [35, 36, 37, 38]"
    "m_commandBuffers example_resized = [17, 18, 19]"
    by (subst example_resized_is, simp add: example_started_members)+
  have "example_started = example_started\<lparr>calls := calls example_started\<rparr>"
    by simp
  with example_resized_calls [of "calls example_started"] obtain cs where
    "calls example_resized =
       calls example_started @
         vkWaitForFences 22 # vkAcquireNextImageKHR 1 20 # vkResetFences 22 # cs"
    and "glfwGetFramebufferSize \<in> set cs"
    unfolding example_resized_def by auto
  from new_calls_append [OF this(1)] this(2)
  have invoked: "recreation_invoked (new_calls example_started example_resized)"
    by (simp add: recreation_invoked_def)
  have "\<exists>s. DrawFrame (example_frame VK_SUCCESS 3 VK_SUCCESS 4) example_resized =
             Thrown ''out_of_range'' s
           \<and> new_calls example_resized s =
               [vkWaitForFences 25, vkAcquireNextImageKHR 26 23, vkResetFences 25]"
    by (subst example_resized_is, subst example_resized_next_frame)
       (simp add: new_calls_def)
  with members invoked example_resized_Returned show ?thesis by simp
qed

end
